(* ===== verification/Prelude.thy ===== *)
theory Prelude
  imports Main "HOL-Library.Sublist" "HOL-Library.Code_Target_Nat"
begin

section \<open>Shared vocabulary: errors as values, results, sequencing\<close>

text \<open>
  Every exception that a TypeScript function of the repository can throw is a value of
  \<open>js_error\<close>: the two error classes the packages declare (\<open>IntentValidationError\<close> of
  packages/sdk/src/intent.ts, \<open>ConfigError\<close> of packages/solver-bot/src/config.ts), the
  built-in classes the code throws or provokes, and plain \<open>Error\<close>.  A function that may
  throw returns \<open>js_error + 'a\<close>; \<open>Inl\<close> is a throw.  The named collection
  \<open>result_simps\<close> gathers the rewrite rules the component proofs share.
\<close>

datatype js_error =
    IntentValidationError string
  | ConfigError string
  | RangeError string
  | TypeError string
  | SyntaxError string
  | PlainError string

type_synonym 'a result = "js_error + 'a"

named_theorems result_simps \<open>rewriting results and their sequencing\<close>

text \<open>Sequencing: the rest runs on the value, and a throw skips it.\<close>

fun rbind :: "('e + 'a) \<Rightarrow> ('a \<Rightarrow> 'e + 'b) \<Rightarrow> 'e + 'b" where
  "rbind (Inl e) f = Inl e"
| "rbind (Inr x) f = f x"

lemma rbind_eq_Inr [result_simps]:
  "rbind r f = Inr y \<longleftrightarrow> (\<exists>x. r = Inr x \<and> f x = Inr y)"
  by (cases r) auto

lemma rbind_eq_Inl [result_simps]:
  "rbind r f = Inl e \<longleftrightarrow> r = Inl e \<or> (\<exists>x. r = Inr x \<and> f x = Inl e)"
  by (cases r) auto

lemma rbind_assoc: "rbind (rbind r f) g = rbind r (\<lambda>x. rbind (f x) g)"
  by (cases r) auto

lemma rbind_Inr_id [simp]: "rbind r Inr = r"
  by (cases r) auto

lemma rbind_cong [fundef_cong]:
  "r = r' \<Longrightarrow> (\<And>x. r' = Inr x \<Longrightarrow> f x = f' x) \<Longrightarrow> rbind r f = rbind r' f'"
  by (cases r') auto

text \<open>\<open>try { r } catch { h }\<close>: the handler sees the thrown value.\<close>

fun rcatch :: "('e + 'a) \<Rightarrow> ('e \<Rightarrow> 'e + 'a) \<Rightarrow> 'e + 'a" where
  "rcatch (Inl e) h = h e"
| "rcatch (Inr x) h = Inr x"

lemma rcatch_eq_Inr [result_simps]:
  "rcatch r h = Inr x \<longleftrightarrow> r = Inr x \<or> (\<exists>e. r = Inl e \<and> h e = Inr x)"
  by (cases r) auto

lemma rcatch_eq_Inl [result_simps]:
  "rcatch r h = Inl e \<longleftrightarrow> (\<exists>e'. r = Inl e' \<and> h e' = Inl e)"
  by (cases r) auto

definition is_ok :: "('e + 'a) \<Rightarrow> bool" where
  "is_ok r = (case r of Inl _ \<Rightarrow> False | Inr _ \<Rightarrow> True)"

lemma is_ok_simps [simp]: "is_ok (Inr x)" "\<not> is_ok (Inl e)"
  by (simp_all add: is_ok_def)

lemma is_ok_iff: "is_ok r \<longleftrightarrow> (\<exists>x. r = Inr x)"
  by (cases r) auto

lemma not_is_ok_iff: "\<not> is_ok r \<longleftrightarrow> (\<exists>e. r = Inl e)"
  by (cases r) auto

text \<open>An \<open>option\<close> read as a result, with the error a missing value stands for.\<close>

fun from_option :: "'e \<Rightarrow> 'a option \<Rightarrow> 'e + 'a" where
  "from_option e None = Inl e"
| "from_option e (Some x) = Inr x"

lemma from_option_eq [result_simps]:
  "from_option e x = Inr y \<longleftrightarrow> x = Some y"
  "from_option e x = Inl e' \<longleftrightarrow> x = None \<and> e' = e"
  by (cases x; auto)+

text \<open>A table of checks, each with the error it stands for; the first that fails is reported.\<close>

fun first_failure :: "(bool \<times> 'e) list \<Rightarrow> 'e + unit" where
  "first_failure [] = Inr ()"
| "first_failure ((ok, e) # cs) = (if ok then first_failure cs else Inl e)"

lemma first_failure_ok: "first_failure cs = Inr u \<longleftrightarrow> (\<forall>c \<in> set cs. fst c)"
  by (induction cs rule: first_failure.induct) auto

section \<open>Codecs\<close>

text \<open>
  The interface between the layers that print and parse: \<open>enc\<close> prints a value, \<open>dec\<close>
  parses, and a value of the domain survives the trip.  JavaScript's number and BigInt
  literals, JSON text and the serialized intents are interpretations of it.
\<close>

locale codec =
  fixes enc :: "'a \<Rightarrow> 'b"
    and dec :: "'b \<Rightarrow> 'a option"
    and dom :: "'a \<Rightarrow> bool"
  assumes round_trip: "dom x \<Longrightarrow> dec (enc x) = Some x"
begin

lemma enc_inj: "dom x \<Longrightarrow> dom y \<Longrightarrow> enc x = enc y \<Longrightarrow> x = y"
  by (metis option.inject round_trip)

lemma enc_eq_iff: "dom x \<Longrightarrow> dom y \<Longrightarrow> enc x = enc y \<longleftrightarrow> x = y"
  using enc_inj by blast

lemma inj_on_enc: "inj_on enc {x. dom x}"
  by (rule inj_onI) (simp add: enc_eq_iff)

end

section \<open>Maps with updates\<close>

text \<open>
  The interface of everything that stores values under keys: JavaScript objects and the
  contracts' storage are interpretations of it.
\<close>

locale property_map =
  fixes put :: "'k \<Rightarrow> 'v \<Rightarrow> 'o \<Rightarrow> 'o"
    and look :: "'o \<Rightarrow> 'k \<Rightarrow> 'v option"
  assumes look_put: "look (put k v ob) = (look ob)(k \<mapsto> v)"
begin

text \<open>Spreading a list of entries: the last one for a key wins, and other keys stay.\<close>

lemma look_spread:
  "look (foldl (\<lambda>acc (k, v). put k v acc) ob kvs) k =
     (case map_of (rev kvs) k of Some v \<Rightarrow> Some v | None \<Rightarrow> look ob k)"
  by (induction kvs arbitrary: ob) (auto simp: look_put map_add_def split: option.splits)

end

section \<open>Lists\<close>

lemma filter_all_id: "(\<And>x. x \<in> set xs \<Longrightarrow> P x) \<Longrightarrow> filter P xs = xs"
  by (induction xs) auto

end
