(* ===== verification/JsNumber.thy ===== *)
theory JsNumber
  imports Complex_Main Prelude
begin

section \<open>JavaScript numbers\<close>

text \<open>
  A \<open>number\<close> is an IEEE-754 double: NaN, an infinity, or a finite value, kept here as the
  rational it denotes.  Every arithmetic operation computes the exact rational result and
  rounds it once (\<open>round_double\<close>: to nearest, ties to even, 53 significand bits,
  subnormals, overflow to infinity).  The two zeros are identified: nothing in the
  repository tells them apart (no division by a number, no \<open>Object.is\<close>).

  BigInts are unbounded, so they are \<open>int\<close>; their \<open>/\<close> truncates towards zero.
\<close>

datatype jsnum = NaN | PInf | NInf | Fin rat

text \<open>\<open>pow2 e\<close> is two to an integer power.\<close>

definition pow2 :: "int \<Rightarrow> rat" where
  "pow2 e = (if 0 \<le> e then 2 ^ nat e else 1 / 2 ^ nat (- e))"

fun nbits :: "nat \<Rightarrow> nat" where
  "nbits n = (if n = 0 then 0 else Suc (nbits (n div 2)))"

declare nbits.simps [simp del]

text \<open>The binary exponent of a positive rational: \<open>2 ^ e \<le> x < 2 ^ (e + 1)\<close>.\<close>

definition ilog2 :: "rat \<Rightarrow> int" where
  "ilog2 x = (if 1 \<le> x then int (nbits (nat \<lfloor>x\<rfloor>)) - 1
              else - int (nbits (nat (\<lceil>1 / x\<rceil> - 1))))"

text \<open>The spacing of the doubles around a positive rational, as a power of two.\<close>

definition ulp_exp :: "rat \<Rightarrow> int" where
  "ulp_exp x = max (- 1074) (ilog2 x - 52)"

definition round_even :: "rat \<Rightarrow> int" where
  "round_even y = (let f = \<lfloor>y\<rfloor>; d = y - of_int f
     in if d < 1 / 2 then f else if d > 1 / 2 then f + 1
        else if even f then f else f + 1)"

definition round_pos :: "rat \<Rightarrow> rat" where
  "round_pos x = (let q = pow2 (ulp_exp x) in of_int (round_even (x / q)) * q)"

definition round_double :: "rat \<Rightarrow> jsnum" where
  "round_double x =
     (if x = 0 then Fin 0
      else let y = round_pos \<bar>x\<bar> in
        if y \<ge> 2 ^ 1024 then (if x < 0 then NInf else PInf)
        else Fin (if x < 0 then - y else y))"

text \<open>The values a double can hold.\<close>

definition is_double :: "jsnum \<Rightarrow> bool" where
  "is_double x = (case x of Fin q \<Rightarrow> round_double q = Fin q | _ \<Rightarrow> True)"

subsection \<open>Comparisons and predicates\<close>

text \<open>Every comparison with NaN is false.\<close>

fun js_less :: "jsnum \<Rightarrow> jsnum \<Rightarrow> bool" where
  "js_less NaN _ = False"
| "js_less _ NaN = False"
| "js_less PInf _ = False"
| "js_less _ NInf = False"
| "js_less NInf _ = True"
| "js_less _ PInf = True"
| "js_less (Fin a) (Fin b) = (a < b)"

fun js_leq :: "jsnum \<Rightarrow> jsnum \<Rightarrow> bool" where
  "js_leq NaN _ = False"
| "js_leq _ NaN = False"
| "js_leq NInf _ = True"
| "js_leq _ PInf = True"
| "js_leq (Fin a) (Fin b) = (a \<le> b)"
| "js_leq _ _ = False"

text \<open>\<open>Number.isInteger\<close> and \<open>Number.isFinite\<close>.\<close>

fun is_integer :: "jsnum \<Rightarrow> bool" where
  "is_integer (Fin q) = (of_int \<lfloor>q\<rfloor> = q)"
| "is_integer _ = False"

fun is_finite :: "jsnum \<Rightarrow> bool" where
  "is_finite (Fin q) = True"
| "is_finite _ = False"

text \<open>\<open>BigInt(n)\<close> of a number: a RangeError unless it is integral.\<close>

fun bigint_of_num :: "jsnum \<Rightarrow> int result" where
  "bigint_of_num (Fin q) =
     (if of_int \<lfloor>q\<rfloor> = q then Inr \<lfloor>q\<rfloor>
      else Inl (RangeError ''The number cannot be converted to a BigInt because it is not an integer''))"
| "bigint_of_num _ =
     Inl (RangeError ''The number cannot be converted to a BigInt because it is not an integer'')"

text \<open>\<open>Number(b)\<close> of a BigInt rounds.\<close>

definition num_of_bigint :: "int \<Rightarrow> jsnum" where
  "num_of_bigint n = round_double (of_int n)"

subsection \<open>Arithmetic\<close>

fun js_add :: "jsnum \<Rightarrow> jsnum \<Rightarrow> jsnum" where
  "js_add (Fin a) (Fin b) = round_double (a + b)"
| "js_add NaN _ = NaN"
| "js_add _ NaN = NaN"
| "js_add PInf NInf = NaN"
| "js_add NInf PInf = NaN"
| "js_add PInf _ = PInf"
| "js_add NInf _ = NInf"
| "js_add _ PInf = PInf"
| "js_add _ NInf = NInf"

text \<open>Multiplication by a finite number, the only product the code forms.\<close>

fun js_mult_fin :: "jsnum \<Rightarrow> rat \<Rightarrow> jsnum" where
  "js_mult_fin (Fin a) b = round_double (a * b)"
| "js_mult_fin NaN b = NaN"
| "js_mult_fin PInf b = (if b = 0 then NaN else if b < 0 then NInf else PInf)"
| "js_mult_fin NInf b = (if b = 0 then NaN else if b < 0 then PInf else NInf)"

text \<open>Division by a finite positive number, the only quotient the code forms.\<close>

fun js_div_pos :: "jsnum \<Rightarrow> rat \<Rightarrow> jsnum" where
  "js_div_pos (Fin a) b = round_double (a / b)"
| "js_div_pos x b = x"

text \<open>\<open>Math.floor\<close> and \<open>Math.round\<close> (half up).\<close>

fun js_floor :: "jsnum \<Rightarrow> jsnum" where
  "js_floor (Fin q) = Fin (of_int \<lfloor>q\<rfloor>)"
| "js_floor x = x"

fun js_round :: "jsnum \<Rightarrow> jsnum" where
  "js_round (Fin q) = Fin (of_int \<lfloor>q + 1 / 2\<rfloor>)"
| "js_round x = x"

text \<open>\<open>Math.max(1, n)\<close> and the like.\<close>

fun js_max :: "jsnum \<Rightarrow> jsnum \<Rightarrow> jsnum" where
  "js_max NaN _ = NaN"
| "js_max _ NaN = NaN"
| "js_max a b = (if js_less a b then b else a)"

text \<open>BigInt division truncates, and throws on a zero divisor.\<close>

definition trunc_div :: "int \<Rightarrow> int \<Rightarrow> int" where
  "trunc_div a b = sgn a * sgn b * (\<bar>a\<bar> div \<bar>b\<bar>)"

definition bigint_div :: "int \<Rightarrow> int \<Rightarrow> int result" where
  "bigint_div a b =
     (if b = 0 then Inl (RangeError ''Division by zero'') else Inr (trunc_div a b))"

section \<open>Facts about truncating division\<close>

lemma trunc_div_nonneg: "0 \<le> a \<Longrightarrow> 0 < b \<Longrightarrow> trunc_div a b = a div b"
  by (cases "a = 0") (simp_all add: trunc_div_def)

lemma trunc_div_bounds:
  assumes "0 \<le> a" and "0 < b"
  shows "0 \<le> trunc_div a b" and "trunc_div a b * b \<le> a" and "a < (trunc_div a b + 1) * b"
proof -
  have eq: "trunc_div a b = a div b"
    using assms by (rule trunc_div_nonneg)
  have "a div b * b + a mod b = a"
    by simp
  moreover have "0 \<le> a mod b" "a mod b < b"
    using assms by simp_all
  ultimately have "a div b * b \<le> a" and "a < a div b * b + b"
    by linarith+
  then show "trunc_div a b * b \<le> a" and "a < (trunc_div a b + 1) * b"
    by (simp_all add: eq distrib_right)
  show "0 \<le> trunc_div a b"
    using assms by (simp add: eq pos_imp_zdiv_nonneg_iff)
qed

lemma trunc_div_eqI:
  assumes "0 \<le> a" and "0 < b" and "q * b \<le> a" and "a < (q + 1) * b"
  shows "trunc_div a b = q"
proof -
  have "a div b = q"
    using assms by (intro int_div_pos_eq [where r = "a - q * b"]) (auto simp: algebra_simps)
  then show ?thesis
    using assms by (simp add: trunc_div_nonneg)
qed

lemma trunc_div_mono: "0 \<le> a \<Longrightarrow> a \<le> a' \<Longrightarrow> 0 < b \<Longrightarrow> trunc_div a b \<le> trunc_div a' b"
  by (simp add: trunc_div_nonneg zdiv_mono1)

section \<open>Facts about rounding\<close>

lemma pow2_pos [simp]: "0 < pow2 e"
  by (simp add: pow2_def)

lemma pow2_nonzero [simp]: "pow2 e \<noteq> 0"
  using pow2_pos [of e] by linarith

lemma pow2_powi: "pow2 e = 2 powi e"
  by (simp add: pow2_def power_int_def field_simps)

lemma pow2_add: "pow2 (a + b) = pow2 a * pow2 b"
  by (simp add: pow2_powi power_int_add)

lemma pow2_0 [simp]: "pow2 0 = 1"
  by (simp add: pow2_def)

lemma pow2_mono: "a \<le> b \<Longrightarrow> pow2 a \<le> pow2 b"
  by (simp add: pow2_powi power_int_increasing)

lemma pow2_less_iff: "pow2 a < pow2 b \<longleftrightarrow> a < b"
  using pow2_mono [of b a] power_int_strict_increasing [of a b "2::rat"]
  by (fastforce simp: pow2_powi not_le [symmetric])

lemma nbits_bounds: "0 < n \<Longrightarrow> 2 ^ (nbits n - 1) \<le> n \<and> n < 2 ^ nbits n \<and> 0 < nbits n"
proof (induction n rule: nbits.induct)
  case (1 n)
  show ?case
  proof (cases "n div 2 = 0")
    case True
    with "1.prems" have "n = 1" by simp
    then show ?thesis by (simp add: nbits.simps)
  next
    case False
    with "1.IH" "1.prems" have ih: "2 ^ (nbits (n div 2) - 1) \<le> n div 2"
      "n div 2 < 2 ^ nbits (n div 2)" "0 < nbits (n div 2)"
      by auto
    obtain k where k: "nbits (n div 2) = Suc k"
      using ih(3) by (cases "nbits (n div 2)") auto
    have n: "nbits n = Suc (Suc k)"
      using "1.prems" k by (subst nbits.simps) simp
    have "2 * 2 ^ k \<le> n" and "n < 4 * 2 ^ k"
      using ih(1,2) by (simp_all add: k)
    then show ?thesis
      by (simp add: n)
  qed
qed

lemma ilog2_bounds:
  assumes "0 < x"
  shows "pow2 (ilog2 x) \<le> x" and "x < pow2 (ilog2 x + 1)"
proof -
  have "pow2 (ilog2 x) \<le> x \<and> x < pow2 (ilog2 x + 1)"
  proof (cases "1 \<le> x")
    case True
    define n where "n = nat \<lfloor>x\<rfloor>"
    have n: "0 < n" "of_nat n \<le> x" "x < of_nat n + 1"
      using True by (simp_all add: n_def floor_less_iff [symmetric] del: floor_less_iff) linarith
    obtain k where k: "nbits n = Suc k" "2 ^ k \<le> n" "n < 2 ^ Suc k"
      using nbits_bounds [OF n(1)] by (cases "nbits n") auto
    have "(2 :: rat) ^ k \<le> of_nat n" and "of_nat n + 1 \<le> (2 :: rat) ^ Suc k"
      using k(2,3) by (metis of_nat_le_iff of_nat_numeral of_nat_power,
        metis of_nat_1 of_nat_add of_nat_le_iff of_nat_numeral of_nat_power Suc_eq_plus1 Suc_leI)
    with n(2,3) have "2 ^ k \<le> x" and "x < 2 ^ Suc k"
      by linarith+
    moreover have "ilog2 x = int k"
      using True k(1) by (simp add: ilog2_def n_def)
    moreover have "pow2 (int k) = 2 ^ k" and "pow2 (int k + 1) = 2 ^ Suc k"
      by (simp_all add: pow2_add) (simp_all add: pow2_def)
    ultimately show ?thesis by simp
  next
    case False
    define n where "n = nat (\<lceil>1 / x\<rceil> - 1)"
    have inv: "1 < 1 / x"
      using False assms by simp
    then have "1 < \<lceil>1 / x\<rceil>"
      by linarith
    then have n: "0 < n" "of_nat n < 1 / x" "1 / x \<le> of_nat n + 1"
      by (simp_all add: n_def) linarith+
    obtain k where k: "nbits n = Suc k" "2 ^ k \<le> n" "n < 2 ^ Suc k"
      using nbits_bounds [OF n(1)] by (cases "nbits n") auto
    have "(2 :: rat) ^ k \<le> of_nat n" and "of_nat n + 1 \<le> (2 :: rat) ^ Suc k"
      using k(2,3) by (metis of_nat_le_iff of_nat_numeral of_nat_power,
        metis of_nat_1 of_nat_add of_nat_le_iff of_nat_numeral of_nat_power Suc_eq_plus1 Suc_leI)
    with n(2,3) have "2 ^ k < 1 / x" and "1 / x \<le> 2 ^ Suc k"
      by linarith+
    then have "x < 1 / 2 ^ k" and "1 / 2 ^ Suc k \<le> x"
      using assms by (simp_all add: field_simps)
    moreover have "ilog2 x = - int (Suc k)"
      using False k(1) by (simp add: ilog2_def n_def)
    moreover have "pow2 (- int (Suc k)) = 1 / 2 ^ Suc k" and "pow2 (- int (Suc k) + 1) = 1 / 2 ^ k"
      by (simp_all add: pow2_def nat_add_distrib)
    ultimately show ?thesis by simp
  qed
  then show "pow2 (ilog2 x) \<le> x" and "x < pow2 (ilog2 x + 1)"
    by simp_all
qed


lemma ilog2_unique: "0 < x \<Longrightarrow> pow2 e \<le> x \<Longrightarrow> x < pow2 (e + 1) \<Longrightarrow> ilog2 x = e"
proof -
  assume a: "0 < x" "pow2 e \<le> x" "x < pow2 (e + 1)"
  have "pow2 (ilog2 x) < pow2 (e + 1)" and "pow2 e < pow2 (ilog2 x + 1)"
    using ilog2_bounds [OF a(1)] a(2,3) by linarith+
  then show "ilog2 x = e"
    by (simp add: pow2_less_iff)
qed

lemma round_even_near: "\<bar>of_int (round_even y) - y\<bar> \<le> 1 / 2"
proof -
  have "of_int \<lfloor>y\<rfloor> \<le> y" and "y < of_int \<lfloor>y\<rfloor> + 1"
    by linarith+
  then show ?thesis
    unfolding round_even_def Let_def by (auto simp: abs_le_iff not_less)
qed

lemma round_even_unique: "\<bar>of_int n - y\<bar> < 1 / 2 \<Longrightarrow> round_even y = n"
  using round_even_near [of y] by linarith

lemma round_even_of_int [simp]: "round_even (of_int n) = n"
  by (rule round_even_unique) simp

lemma round_even_nonneg: "0 \<le> y \<Longrightarrow> 0 \<le> round_even y"
  using round_even_near [of y] by linarith

text \<open>A value on the grid of its own binade is not moved.\<close>

lemma round_pos_exact:
  assumes "x = of_int m * pow2 e" and "ulp_exp x \<le> e"
  shows "round_pos x = x"
proof -
  define k where "k = nat (e - ulp_exp x)"
  have "pow2 e = pow2 (int k) * pow2 (ulp_exp x)"
    using assms(2) by (simp add: k_def pow2_add [symmetric])
  moreover have "pow2 (int k) = of_int (2 ^ k)"
    by (simp add: pow2_def)
  ultimately have x: "x = of_int (m * 2 ^ k) * pow2 (ulp_exp x)"
    using assms(1) by simp
  then have "x / pow2 (ulp_exp x) = of_int (m * 2 ^ k)"
    by (metis nonzero_eq_divide_eq pow2_nonzero)
  then have "round_even (x / pow2 (ulp_exp x)) = m * 2 ^ k"
    by (simp only: round_even_of_int)
  with x show ?thesis
    by (simp only: round_pos_def Let_def)
qed

lemma round_pos_nonneg: "0 \<le> x \<Longrightarrow> 0 \<le> round_pos x"
  by (simp add: round_pos_def Let_def round_even_nonneg less_imp_le)

lemma round_pos_near: "\<bar>round_pos x - x\<bar> \<le> pow2 (ulp_exp x) / 2"
proof -
  let ?q = "pow2 (ulp_exp x)"
  have "\<bar>of_int (round_even (x / ?q)) - x / ?q\<bar> * ?q \<le> 1 / 2 * ?q"
    by (intro mult_right_mono round_even_near) (simp add: less_imp_le)
  moreover have "\<bar>of_int (round_even (x / ?q)) - x / ?q\<bar> * ?q
      = \<bar>(of_int (round_even (x / ?q)) - x / ?q) * ?q\<bar>"
    by (simp add: abs_mult less_imp_le abs_of_pos)
  moreover have "(of_int (round_even (x / ?q)) - x / ?q) * ?q = round_pos x - x"
    by (simp add: round_pos_def Let_def left_diff_distrib)
  ultimately show ?thesis by simp
qed

text \<open>Integers up to two to the 53rd are doubles.\<close>

lemma round_double_of_int:
  assumes "\<bar>n\<bar> \<le> 2 ^ 53"
  shows "round_double (of_int n) = Fin (of_int n)"
proof (cases "n = 0")
  case True
  then show ?thesis by (simp add: round_double_def)
next
  case False
  let ?x = "of_int \<bar>n\<bar> :: rat"
  have pos: "0 < ?x" and ge1: "1 \<le> ?x"
    using False by simp_all
  have le: "?x \<le> 2 ^ 53"
    using assms by (metis of_int_le_iff of_int_numeral of_int_power)
  have "round_pos ?x = ?x"
  proof (cases "ulp_exp ?x \<le> 0")
    case True
    then show ?thesis
      by (intro round_pos_exact [where m = "\<bar>n\<bar>" and e = 0]) simp_all
  next
    case False
    then have "53 \<le> ilog2 ?x"
      by (simp add: ulp_exp_def)
    then have "pow2 53 \<le> ?x"
      using ilog2_bounds(1) [OF pos] pow2_mono by (meson order_trans)
    with le have eq: "?x = 2 ^ 53"
      by (simp add: pow2_def)
    then have "ilog2 ?x = 53"
      by (intro ilog2_unique) (simp_all add: pow2_def)
    then have "ulp_exp ?x = 1"
      by (simp add: ulp_exp_def)
    then show ?thesis
      by (intro round_pos_exact [where m = "2 ^ 52" and e = 1])
        (use eq in \<open>simp_all add: pow2_def\<close>)
  qed
  moreover have "?x < 2 ^ 1024"
    using le by simp
  ultimately show ?thesis
    using False by (simp add: round_double_def Let_def)
qed

lemma is_double_of_int: "\<bar>n\<bar> \<le> 2 ^ 53 \<Longrightarrow> is_double (Fin (of_int n))"
  by (simp add: is_double_def round_double_of_int)

lemma num_of_bigint_small: "\<bar>n\<bar> \<le> 2 ^ 53 \<Longrightarrow> num_of_bigint n = Fin (of_int n)"
  by (simp add: num_of_bigint_def round_double_of_int)


subsection \<open>Values close to a double round to it\<close>

text \<open>
  A rational within one part in \<open>2 * 10 ^ 16\<close> of a positive double rounds to that double:
  the fact behind printing a number with at most 17 significant digits.
\<close>

definition close_to :: "rat \<Rightarrow> rat \<Rightarrow> bool" where
  "close_to x y \<longleftrightarrow> \<bar>y - x\<bar> \<le> x / (2 * 10 ^ 16)"

lemma close_to_pos: "0 < x \<Longrightarrow> close_to x y \<Longrightarrow> 0 < y"
  using abs_ge_minus_self [of "y - x"] unfolding close_to_def by (simp add: field_simps)

lemma ulp_scale:
  assumes "0 < x"
  shows "x < 2 ^ 53 * pow2 (ulp_exp x)"
    and "ulp_exp x \<noteq> - 1074 \<Longrightarrow> 2 ^ 52 * pow2 (ulp_exp x) \<le> x"
proof -
  have "pow2 (ilog2 x + 1) \<le> pow2 (53 + ulp_exp x)"
    by (rule pow2_mono) (simp add: ulp_exp_def)
  also have "\<dots> = 2 ^ 53 * pow2 (ulp_exp x)"
    by (simp add: pow2_add) (simp add: pow2_def)
  finally show "x < 2 ^ 53 * pow2 (ulp_exp x)"
    using ilog2_bounds(2) [OF assms] by linarith
  assume "ulp_exp x \<noteq> - 1074"
  then have "pow2 (ilog2 x) = pow2 (52 + ulp_exp x)"
    by (simp add: ulp_exp_def max_def split: if_splits)
  also have "\<dots> = 2 ^ 52 * pow2 (ulp_exp x)"
    by (simp add: pow2_add) (simp add: pow2_def)
  finally show "2 ^ 52 * pow2 (ulp_exp x) \<le> x"
    using ilog2_bounds(1) [OF assms] by linarith
qed

lemma close_to_half_ulp:
  assumes "0 < x" and "close_to x y"
  shows "\<bar>y - x\<bar> < pow2 (ulp_exp x) / 2"
proof -
  have "\<bar>y - x\<bar> * 20000000000000000 \<le> x"
    using assms(2) by (simp add: close_to_def field_simps)
  moreover define d where "d = \<bar>y - x\<bar>"
  ultimately have "d * 20000000000000000 \<le> x" by simp
  then have "d < pow2 (ulp_exp x) / 2"
    using ulp_scale(1) [OF assms(1)] pow2_pos [of "ulp_exp x"] by (simp del: pow2_pos)
  then show ?thesis
    by (simp add: d_def)
qed

text \<open>Comparing integers through their images.\<close>

lemma abs_cancel: "\<bar>a * q\<bar> < b * q \<Longrightarrow> 0 < q \<Longrightarrow> \<bar>a\<bar> < (b :: rat)"
  by (simp add: abs_mult)

lemma of_int_cancel:
  "0 < q \<Longrightarrow> of_int a * q < of_int b * q \<longleftrightarrow> a < b"
  "0 < q \<Longrightarrow> of_int a * q \<le> of_int b * (q :: rat) \<longleftrightarrow> a \<le> b"
  by simp_all

lemma ulp_exp_ge: "- 1074 \<le> ulp_exp x"
  by (simp add: ulp_exp_def)

lemma ulp_exp_mono:
  assumes "0 < x" and "x \<le> y"
  shows "ulp_exp x \<le> ulp_exp y"
proof -
  have "pow2 (ilog2 x) < pow2 (ilog2 y + 1)"
    using ilog2_bounds(1) [of x] ilog2_bounds(2) [of y] assms by linarith
  then show ?thesis
    by (simp add: pow2_less_iff ulp_exp_def)
qed

lemma round_pos_near_same_binade:
  assumes "0 < x" "x = of_int m * pow2 (ulp_exp x)" "close_to x y" "ulp_exp y = ulp_exp x"
  shows "round_pos y = x"
proof -
  let ?q = "pow2 (ulp_exp x)"
  have "\<bar>y - x\<bar> < ?q / 2"
    using assms(1,3) by (rule close_to_half_ulp)
  then have "\<bar>(of_int m - y / ?q) * ?q\<bar> < 1 / 2 * ?q"
    using assms(2) by (simp add: left_diff_distrib abs_minus_commute)
  then have "\<bar>of_int m - y / ?q\<bar> < 1 / 2"
    by (simp add: abs_mult abs_of_pos)
  then have "round_even (y / ?q) = m"
    by (rule round_even_unique)
  then show ?thesis
    using assms(2,4) by (simp add: round_pos_def Let_def)
qed

lemma round_pos_close:
  assumes x: "0 < x" "x = of_int m * pow2 (ulp_exp x)" and c: "close_to x y"
  shows "round_pos y = x"
proof -
  let ?q = "pow2 (ulp_exp x)"
  have q: "0 < ?q" by simp
  have d: "\<bar>y - x\<bar> < ?q / 2"
    using x(1) c by (rule close_to_half_ulp)
  have y: "0 < y"
    using x(1) c by (rule close_to_pos)
  consider "ulp_exp y = ulp_exp x" | "ulp_exp x < ulp_exp y" | "ulp_exp y < ulp_exp x"
    by linarith
  then show ?thesis
  proof cases
    case 1
    then show ?thesis
      using round_pos_near_same_binade x c by blast
  next
    case 2
    have "of_int m * ?q < of_int (2 ^ 53) * ?q"
      using ulp_scale(1) [OF x(1)] x(2) by simp
    then have "m < 2 ^ 53"
      using q by (simp only: of_int_cancel)
    then have "of_int m \<le> (of_int (2 ^ 53 - 1) :: rat)"
      by (simp only: of_int_le_iff)
    then have "of_int m \<le> (2 :: rat) ^ 53 - 1"
      by simp
    then have "of_int m * ?q \<le> (2 ^ 53 - 1) * ?q"
      using q by (intro mult_right_mono) (simp_all add: less_imp_le)
    then have "x + ?q \<le> 2 ^ 53 * ?q"
      using x(2) by (simp add: left_diff_distrib)
    moreover have "ulp_exp y \<noteq> - 1074"
      using 2 ulp_exp_ge [of x] by simp
    then have "2 ^ 52 * pow2 (ulp_exp y) \<le> y"
      by (rule ulp_scale(2) [OF y])
    moreover have "pow2 (ulp_exp x + 1) \<le> pow2 (ulp_exp y)"
      using 2 by (intro pow2_mono) simp
    then have "2 * ?q \<le> pow2 (ulp_exp y)"
      by (simp add: pow2_add) (simp add: pow2_def)
    ultimately show ?thesis
      using d q by (simp add: abs_less_iff)
  next
    case 3
    have ne: "ulp_exp x \<noteq> - 1074"
      using 3 ulp_exp_ge [of y] by simp
    have lo: "2 ^ 52 * ?q \<le> x"
      by (rule ulp_scale(2) [OF x(1) ne])
    have "pow2 (ulp_exp y + 1) \<le> ?q"
      using 3 by (intro pow2_mono) simp
    then have half: "pow2 (ulp_exp y) \<le> ?q / 2"
      by (simp add: pow2_add) (simp add: pow2_def)
    have "y < 2 ^ 52 * ?q"
      using ulp_scale(1) [OF y] half by simp
    then have "x < (2 ^ 52 + 1) * ?q"
      using d q by (simp add: abs_if split: if_splits del: pow2_pos)
    then have "of_int m * ?q < (2 ^ 52 + 1) * ?q"
      using x(2) by simp
    then have "of_int m * ?q < of_int (2 ^ 52 + 1) * ?q"
      by simp
    then have "m < 2 ^ 52 + 1"
      using q by (simp only: of_int_cancel)
    moreover have "of_int (2 ^ 52) * ?q \<le> of_int m * ?q"
      using lo x(2) by simp
    then have "2 ^ 52 \<le> m"
      using q by (simp only: of_int_cancel)
    ultimately have m: "m = 2 ^ 52" by simp
    have xeq: "x = 2 ^ 52 * ?q"
      using x(2) m by simp
    have "2 ^ 51 * ?q \<le> y"
      using d xeq q by (simp add: abs_if split: if_splits del: pow2_pos)
    moreover have "y < 2 ^ 52 * ?q" by fact
    moreover have "2 ^ 51 * ?q = pow2 (ulp_exp x + 51)" "2 ^ 52 * ?q = pow2 (ulp_exp x + 51 + 1)"
      by (simp_all add: pow2_add) (simp_all add: pow2_def)
    ultimately have "ilog2 y = ulp_exp x + 51"
      using y by (intro ilog2_unique) simp_all
    then have uy: "ulp_exp y = ulp_exp x - 1"
      using 3 ulp_exp_ge [of y] by (simp add: ulp_exp_def)
    have q': "pow2 (ulp_exp y) = ?q / 2"
      using pow2_add [of "ulp_exp y" 1] by (simp add: uy pow2_def)
    have "\<bar>y - x\<bar> < ?q / 4"
      using c xeq q by (simp add: close_to_def abs_if split: if_splits del: pow2_pos)
    moreover have "(of_int (2 ^ 53) - y / (?q / 2)) * (?q / 2) = x - y"
      using xeq by (simp add: left_diff_distrib)
    ultimately have "\<bar>(of_int (2 ^ 53) - y / (?q / 2)) * (?q / 2)\<bar> < 1 / 2 * (?q / 2)"
      by (simp only: abs_minus_commute [of y x])
    then have "\<bar>of_int (2 ^ 53) - y / (?q / 2)\<bar> < 1 / 2"
      by (rule abs_cancel) simp
    then have "round_even (y / (?q / 2)) = 2 ^ 53"
      by (rule round_even_unique)
    then have "round_pos y = 2 ^ 52 * ?q"
      by (simp add: round_pos_def Let_def q')
    then show ?thesis
      using xeq by simp
  qed
qed

text \<open>What being a positive double means.\<close>

lemma is_double_pos:
  assumes "is_double (Fin x)" and "0 < x"
  shows "round_pos x = x" and "x < 2 ^ 1024"
    and "\<exists>m. x = of_int m * pow2 (ulp_exp x)"
proof -
  have "round_pos x = x \<and> x < 2 ^ 1024"
    using assms by (simp add: is_double_def round_double_def Let_def split: if_splits)
  then show "round_pos x = x" and "x < 2 ^ 1024"
    by simp_all
  then show "\<exists>m. x = of_int m * pow2 (ulp_exp x)"
    by (metis round_pos_def)
qed

lemma round_double_close:
  assumes "is_double (Fin x)" and "0 < x" and "close_to x y"
  shows "round_double y = Fin x"
proof -
  obtain m where m: "x = of_int m * pow2 (ulp_exp x)"
    using is_double_pos(3) [OF assms(1,2)] by blast
  have "0 < y"
    using assms(2,3) by (rule close_to_pos)
  then show ?thesis
    using round_pos_close [OF assms(2) m assms(3)] is_double_pos(2) [OF assms(1,2)]
    by (simp add: round_double_def Let_def)
qed

lemma round_double_uminus:
  "round_double (- x) = (case round_double x of Fin y \<Rightarrow> Fin (- y) | PInf \<Rightarrow> NInf | NInf \<Rightarrow> PInf | NaN \<Rightarrow> NaN)"
  by (simp add: round_double_def Let_def)

lemma is_double_uminus: "is_double (Fin (- x)) = is_double (Fin x)"
  by (auto simp: is_double_def round_double_uminus split: jsnum.splits)

subsection \<open>Relative error\<close>

text \<open>Outside the subnormal range one rounding moves a value by at most one part in \<open>2 ^ 53\<close>.\<close>

lemma round_pos_relative:
  assumes "0 < x" and "ulp_exp x \<noteq> - 1074"
  shows "\<bar>round_pos x - x\<bar> \<le> x / 2 ^ 53"
  using round_pos_near [of x] ulp_scale(2) [OF assms] by simp

lemma ulp_exp_normal:
  assumes "1 / 2 ^ 100 \<le> x"
  shows "ulp_exp x \<noteq> - 1074"
proof -
  have "pow2 (- 100) \<le> x"
    using assms by (simp add: pow2_def)
  moreover have "0 < x"
    using assms by (rule less_le_trans [rotated]) simp
  ultimately have "pow2 (- 100) < pow2 (ilog2 x + 1)"
    using ilog2_bounds(2) by (meson le_less_trans)
  then have "- 100 < ilog2 x + 1"
    by (simp only: pow2_less_iff)
  then show ?thesis
    by (simp add: ulp_exp_def)
qed

lemma round_double_relative:
  assumes "1 / 2 ^ 100 \<le> x" and "x \<le> 2 ^ 100"
  shows "\<exists>y. round_double x = Fin y \<and> \<bar>y - x\<bar> \<le> x / 2 ^ 53"
proof -
  have pos: "0 < x"
    using assms(1) by (rule less_le_trans [rotated]) simp
  have near: "\<bar>round_pos x - x\<bar> \<le> x / 2 ^ 53"
    using pos ulp_exp_normal [OF assms(1)] by (rule round_pos_relative)
  then have "round_pos x - x \<le> x / 2 ^ 53"
    by (rule abs_le_D1)
  then have "round_pos x \<le> 2 * x"
    using pos by simp
  also have "\<dots> < 2 ^ 1024"
    using assms(2) by simp
  finally show ?thesis
    using pos near by (simp add: round_double_def Let_def)
qed

end
