(* ===== verification/JsText.thy ===== *)
theory JsText
  imports JsNumber
begin

section \<open>JavaScript strings\<close>

text \<open>
  A JavaScript string is kept as the list of its UTF-8 bytes (a \<open>string\<close>); the repository
  never measures or indexes one, it only compares, trims, prints, parses and matches
  strings against ASCII patterns, and all of these read the same on the bytes.  This theory
  has the library functions the code calls on strings: \<open>trim\<close>, \<open>toLowerCase\<close>, the
  printing of BigInts and numbers, and the parsers behind \<open>BigInt(s)\<close>, \<open>Number(s)\<close>
  and \<open>Number.parseInt(s, 10)\<close>.
\<close>

subsection \<open>Trimming and lower case\<close>

text \<open>The white space and line terminators of the language, as byte sequences.\<close>

definition js_spaces :: "string list" where
  "js_spaces =
     [[CHR 0x09], [CHR 0x0A], [CHR 0x0B], [CHR 0x0C], [CHR 0x0D], [CHR 0x20],
      [CHR 0xC2, CHR 0xA0], [CHR 0xEF, CHR 0xBB, CHR 0xBF],
      [CHR 0xE1, CHR 0x9A, CHR 0x80],
      [CHR 0xE2, CHR 0x80, CHR 0x80], [CHR 0xE2, CHR 0x80, CHR 0x81],
      [CHR 0xE2, CHR 0x80, CHR 0x82], [CHR 0xE2, CHR 0x80, CHR 0x83],
      [CHR 0xE2, CHR 0x80, CHR 0x84], [CHR 0xE2, CHR 0x80, CHR 0x85],
      [CHR 0xE2, CHR 0x80, CHR 0x86], [CHR 0xE2, CHR 0x80, CHR 0x87],
      [CHR 0xE2, CHR 0x80, CHR 0x88], [CHR 0xE2, CHR 0x80, CHR 0x89],
      [CHR 0xE2, CHR 0x80, CHR 0x8A], [CHR 0xE2, CHR 0x80, CHR 0xA8],
      [CHR 0xE2, CHR 0x80, CHR 0xA9], [CHR 0xE2, CHR 0x80, CHR 0xAF],
      [CHR 0xE2, CHR 0x81, CHR 0x9F], [CHR 0xE3, CHR 0x80, CHR 0x80]]"

fun drop_prefix :: "string \<Rightarrow> string \<Rightarrow> string option" where
  "drop_prefix [] s = Some s"
| "drop_prefix (c # p) [] = None"
| "drop_prefix (c # p) (d # s) = (if c = d then drop_prefix p s else None)"

lemma drop_prefix_Some: "drop_prefix p s = Some r \<longleftrightarrow> s = p @ r"
  by (induction p s rule: drop_prefix.induct) auto

text \<open>Removes the first of the given sequences that starts the string, if any.\<close>

fun drop_any :: "string list \<Rightarrow> string \<Rightarrow> string option" where
  "drop_any [] s = None"
| "drop_any (p # ps) s = (case drop_prefix p s of Some r \<Rightarrow> Some r | None \<Rightarrow> drop_any ps s)"

fun strip_seqs :: "nat \<Rightarrow> string list \<Rightarrow> string \<Rightarrow> string" where
  "strip_seqs 0 ps s = s"
| "strip_seqs (Suc n) ps s = (case drop_any ps s of None \<Rightarrow> s | Some r \<Rightarrow> strip_seqs n ps r)"

text \<open>Each step removes at least a byte, so the length of the string is enough fuel.\<close>

definition trim_start :: "string \<Rightarrow> string" where
  "trim_start s = strip_seqs (length s) js_spaces s"

definition trim_end :: "string \<Rightarrow> string" where
  "trim_end s = rev (strip_seqs (length s) (map rev js_spaces) (rev s))"

definition js_trim :: "string \<Rightarrow> string" where
  "js_trim s = trim_end (trim_start s)"

text \<open>
  \<open>toLowerCase\<close>, exact on ASCII.  The code only compares its result with ASCII words that
  have no letter a non-ASCII character lower-cases to, so other bytes can stay.
\<close>

definition lower_char :: "char \<Rightarrow> char" where
  "lower_char c = (let n = of_char c :: nat in if 65 \<le> n \<and> n \<le> 90 then char_of (n + 32) else c)"

definition to_lower :: "string \<Rightarrow> string" where
  "to_lower s = map lower_char s"

subsection \<open>Decimal digits\<close>

definition is_digit :: "char \<Rightarrow> bool" where
  "is_digit c \<longleftrightarrow> 48 \<le> (of_char c :: nat) \<and> (of_char c :: nat) \<le> 57"

definition digit_val :: "char \<Rightarrow> nat" where
  "digit_val c = of_char c - 48"

definition digit_char :: "nat \<Rightarrow> char" where
  "digit_char d = ''0123456789'' ! d"

fun nat_to_dec :: "nat \<Rightarrow> string" where
  "nat_to_dec n = (if n < 10 then [digit_char n] else nat_to_dec (n div 10) @ [digit_char (n mod 10)])"

declare nat_to_dec.simps [simp del]

definition dec_value :: "string \<Rightarrow> nat" where
  "dec_value s = foldl (\<lambda>a c. 10 * a + digit_val c) 0 s"

text \<open>\<open>b.toString()\<close> of a BigInt.\<close>

definition bigint_to_string :: "int \<Rightarrow> string" where
  "bigint_to_string n = (if n < 0 then CHR ''-'' # nat_to_dec (nat (- n)) else nat_to_dec (nat n))"

subsection \<open>Parsing integers\<close>

text \<open>Digits of a radix up to 16; \<open>None\<close> for any other character.\<close>

definition radix_digit :: "char \<Rightarrow> nat option" where
  "radix_digit c = (let n = of_char c :: nat in
     if 48 \<le> n \<and> n \<le> 57 then Some (n - 48)
     else if 65 \<le> n \<and> n \<le> 70 then Some (n - 55)
     else if 97 \<le> n \<and> n \<le> 102 then Some (n - 87) else None)"

fun radix_value :: "nat \<Rightarrow> nat \<Rightarrow> string \<Rightarrow> nat option" where
  "radix_value r a [] = Some a"
| "radix_value r a (c # s) = (case radix_digit c of
       None \<Rightarrow> None
     | Some d \<Rightarrow> if d < r then radix_value r (r * a + d) s else None)"

text \<open>The prefixes \<open>0x\<close>, \<open>0o\<close> and \<open>0b\<close>: the value of what follows, if it is well formed.\<close>

definition radix_of :: "char \<Rightarrow> nat option" where
  "radix_of c =
     (if c = CHR ''x'' \<or> c = CHR ''X'' then Some 16
      else if c = CHR ''o'' \<or> c = CHR ''O'' then Some 8
      else if c = CHR ''b'' \<or> c = CHR ''B'' then Some 2 else None)"

fun nondecimal :: "string \<Rightarrow> nat option" where
  "nondecimal (z # p # d # s) =
     (if z = CHR ''0'' then
        (case radix_of p of None \<Rightarrow> None | Some r \<Rightarrow> radix_value r 0 (d # s))
      else None)"
| "nondecimal _ = None"

definition all_digits :: "string \<Rightarrow> bool" where
  "all_digits s \<longleftrightarrow> s \<noteq> [] \<and> list_all is_digit s"

fun signed_decimal :: "string \<Rightarrow> int option" where
  "signed_decimal [] = None"
| "signed_decimal (c # s) =
     (if c = CHR ''-'' then (if all_digits s then Some (- int (dec_value s)) else None)
      else if c = CHR ''+'' then (if all_digits s then Some (int (dec_value s)) else None)
      else if all_digits (c # s) then Some (int (dec_value (c # s))) else None)"

text \<open>StringToBigInt: the value of \<open>BigInt(s)\<close>, \<open>None\<close> for a SyntaxError.\<close>

definition string_to_bigint :: "string \<Rightarrow> int option" where
  "string_to_bigint s = (let t = js_trim s in
     if t = [] then Some 0
     else case nondecimal t of Some n \<Rightarrow> Some (int n) | None \<Rightarrow> signed_decimal t)"

subsection \<open>Parsing numbers\<close>

definition pow10 :: "int \<Rightarrow> rat" where
  "pow10 e = (if 0 \<le> e then 10 ^ nat e else 1 / 10 ^ nat (- e))"

text \<open>Splits off the leading digits.\<close>

definition span_digits :: "string \<Rightarrow> string \<times> string" where
  "span_digits s = (takeWhile is_digit s, dropWhile is_digit s)"

text \<open>An exponent part, if one starts the string: its value and the rest.\<close>

fun scan_sign :: "string \<Rightarrow> int \<times> string" where
  "scan_sign (c # s) = (if c = CHR ''-'' then (- 1, s) else if c = CHR ''+'' then (1, s) else (1, c # s))"
| "scan_sign [] = (1, [])"

fun scan_exp :: "string \<Rightarrow> int \<times> string" where
  "scan_exp [] = (0, [])"
| "scan_exp (c # s) =
     (if c = CHR ''e'' \<or> c = CHR ''E'' then
        (let (sg, r) = scan_sign s; (ds, r') = span_digits r
         in if ds = [] then (0, c # s) else (sg * int (dec_value ds), r'))
      else (0, c # s))"

text \<open>The digits after a point, if the string starts with a point and a digit.\<close>

fun scan_frac :: "string \<Rightarrow> string \<times> string" where
  "scan_frac (c # d # s) =
     (if c = CHR ''.'' \<and> is_digit d then span_digits (d # s) else ([], c # d # s))"
| "scan_frac s = ([], s)"

definition decimal_rat :: "string \<Rightarrow> string \<Rightarrow> int \<Rightarrow> rat" where
  "decimal_rat ip fp e = of_nat (dec_value (ip @ fp)) * pow10 (e - int (length fp))"

text \<open>An unsigned decimal literal: integer digits, fraction, exponent; the rest follows.\<close>

definition scan_unsigned :: "string \<Rightarrow> rat \<times> string" where
  "scan_unsigned s =
     (let (ip, r) = span_digits s; (fp, r') = scan_frac r; (e, r'') = scan_exp r'
      in (decimal_rat ip fp e, r''))"

text \<open>
  The grammar of \<open>Number(s)\<close> also takes a bare point after the integer digits and a fraction
  without integer digits; the whole string must be consumed.
\<close>

fun skip_point :: "string \<Rightarrow> string" where
  "skip_point (c # s) = (if c = CHR ''.'' then s else c # s)"
| "skip_point [] = []"

definition unsigned_decimal :: "string \<Rightarrow> rat option" where
  "unsigned_decimal s =
     (let (ip, r) = span_digits s; (fp, r') = scan_frac r;
          r1 = (if ip \<noteq> [] \<and> fp = [] then skip_point r' else r');
          (e, r2) = scan_exp r1
      in if (ip \<noteq> [] \<or> fp \<noteq> []) \<and> r2 = [] then Some (decimal_rat ip fp e) else None)"

definition decimal_number :: "string \<Rightarrow> jsnum" where
  "decimal_number t = (let (sg, r) = scan_sign t in
     if r = ''Infinity'' then (if sg < 0 then NInf else PInf)
     else case unsigned_decimal r of
       None \<Rightarrow> NaN
     | Some q \<Rightarrow> round_double (if sg < 0 then - q else q))"

text \<open>StringToNumber: the value of \<open>Number(s)\<close>.\<close>

definition string_to_number :: "string \<Rightarrow> jsnum" where
  "string_to_number s = (let t = js_trim s in
     if t = [] then Fin 0
     else case nondecimal t of
       Some n \<Rightarrow> round_double (of_nat n)
     | None \<Rightarrow> decimal_number t)"

text \<open>\<open>Number.parseInt(s, 10)\<close>.\<close>

definition parse_int10 :: "string \<Rightarrow> jsnum" where
  "parse_int10 s = (let (sg, r) = scan_sign (trim_start s); (ds, _) = span_digits r
     in if ds = [] then NaN else round_double (of_int (sg * int (dec_value ds))))"

subsection \<open>Printing numbers\<close>

text \<open>
  \<open>Number::toString\<close>: the fewest significant digits \<open>k\<close> that still denote the number, and
  among those the closest.  \<open>dec_exp q\<close> is the \<open>n\<close> with \<open>10 ^ (n - 1) \<le> q < 10 ^ n\<close>.
\<close>

definition dec_exp :: "rat \<Rightarrow> int" where
  "dec_exp q = (if 1 \<le> q then int (length (nat_to_dec (nat \<lfloor>q\<rfloor>)))
                else 1 - int (length (nat_to_dec (nat (\<lceil>1 / q\<rceil> - 1)))))"

definition digits_candidates :: "rat \<Rightarrow> int \<Rightarrow> int list" where
  "digits_candidates q e = (let t = q / pow10 e; lo = \<lfloor>t\<rfloor> in
     if t - of_int lo < 1 / 2 \<or> (t - of_int lo = 1 / 2 \<and> even lo) then [lo, lo + 1] else [lo + 1, lo])"

fun shortest :: "rat \<Rightarrow> int \<Rightarrow> nat list \<Rightarrow> (int \<times> int) option" where
  "shortest q n [] = None"
| "shortest q n (k # ks) =
     (case filter (\<lambda>s. 0 < s \<and> round_double (of_int s * pow10 (n - int k)) = Fin q)
             (digits_candidates q (n - int k)) of
        s # _ \<Rightarrow> Some (s, n - int k)
      | [] \<Rightarrow> shortest q n ks)"

text \<open>Significant digits (no trailing zero) and the position of the decimal point.\<close>

definition strip_zeros :: "string \<Rightarrow> string" where
  "strip_zeros s = rev (dropWhile (\<lambda>c. c = CHR ''0'') (rev s))"

definition zeros :: "int \<Rightarrow> string" where
  "zeros n = replicate (nat n) CHR ''0''"

definition exp_suffix :: "int \<Rightarrow> string" where
  "exp_suffix e = CHR ''e'' # (if e < 0 then CHR ''-'' else CHR ''+'') # nat_to_dec (nat \<bar>e\<bar>)"

definition format_digits :: "string \<Rightarrow> int \<Rightarrow> string" where
  "format_digits ds n = (let k = int (length ds) in
     if k \<le> n \<and> n \<le> 21 then ds @ zeros (n - k)
     else if 0 < n \<and> n \<le> 21 then take (nat n) ds @ CHR ''.'' # drop (nat n) ds
     else if - 6 < n \<and> n \<le> 0 then ''0.'' @ zeros (- n) @ ds
     else if k = 1 then ds @ exp_suffix (n - 1)
     else take 1 ds @ CHR ''.'' # drop 1 ds @ exp_suffix (n - 1))"

text \<open>Seventeen digits always suffice (\<open>shortest_exists\<close>), so the last branch is not taken.\<close>

definition pos_to_string :: "rat \<Rightarrow> string" where
  "pos_to_string q =
     (case shortest q (dec_exp q) [1, 2, 3, 4, 5, 6, 7, 8, 9, 10, 11, 12, 13, 14, 15, 16, 17] of
        Some (s, e) \<Rightarrow>
          (let t = nat_to_dec (nat s) in format_digits (strip_zeros t) (int (length t) + e))
      | None \<Rightarrow> [])"

fun num_to_string :: "jsnum \<Rightarrow> string" where
  "num_to_string NaN = ''NaN''"
| "num_to_string PInf = ''Infinity''"
| "num_to_string NInf = ''-Infinity''"
| "num_to_string (Fin q) =
     (if q = 0 then ''0''
      else if q < 0 then CHR ''-'' # pos_to_string (- q) else pos_to_string q)"


section \<open>Digits and their values\<close>

lemma digit_char_cases:
  assumes "d < (10 :: nat)"
  shows "d = 0 \<or> d = 1 \<or> d = 2 \<or> d = 3 \<or> d = 4 \<or> d = 5 \<or> d = 6 \<or> d = 7 \<or> d = 8 \<or> d = 9"
  using assms by presburger

lemma digit_char_digit: "d < 10 \<Longrightarrow> is_digit (digit_char d) \<and> digit_val (digit_char d) = d"
  by (drule digit_char_cases) (auto simp: is_digit_def digit_val_def digit_char_def)

lemma digit_char_zero: "d < 10 \<Longrightarrow> digit_char d = CHR ''0'' \<longleftrightarrow> d = 0"
  by (drule digit_char_cases) (auto simp: digit_char_def)

lemma dec_value_Nil [simp]: "dec_value [] = 0"
  by (simp add: dec_value_def)

lemma foldl_digits: "foldl (\<lambda>a c. 10 * a + digit_val c) a s = a * 10 ^ length s + dec_value s"
proof (induction s arbitrary: a)
  case Nil
  then show ?case by simp
next
  case (Cons c s)
  show ?case
    using Cons [of "10 * a + digit_val c"] Cons [of "digit_val c"]
    by (simp add: dec_value_def algebra_simps)
qed

lemma dec_value_append: "dec_value (s @ t) = dec_value s * 10 ^ length t + dec_value t"
proof -
  have "dec_value (s @ t) = foldl (\<lambda>a c. 10 * a + digit_val c) (dec_value s) t"
    by (simp add: dec_value_def)
  then show ?thesis
    by (simp add: foldl_digits)
qed

lemma dec_value_Cons: "dec_value (c # t) = digit_val c * 10 ^ length t + dec_value t"
  using dec_value_append [of "[c]" t] by (simp add: dec_value_def)

lemma dec_value_zeros [simp]: "dec_value (replicate n CHR ''0'') = 0"
  by (induction n) (simp_all add: dec_value_Cons digit_val_def)

lemma nat_to_dec_value [simp]: "dec_value (nat_to_dec n) = n"
proof (induction n rule: nat_to_dec.induct)
  case (1 n)
  show ?case
  proof (cases "n < 10")
    case True
    then show ?thesis
      by (subst nat_to_dec.simps) (simp add: dec_value_Cons digit_char_digit)
  next
    case False
    with 1 show ?thesis
      by (subst nat_to_dec.simps) (simp add: dec_value_append dec_value_Cons digit_char_digit)
  qed
qed

lemma nat_to_dec_digits: "list_all is_digit (nat_to_dec n)"
proof (induction n rule: nat_to_dec.induct)
  case (1 n)
  then show ?case
    by (subst nat_to_dec.simps) (simp add: digit_char_digit)
qed

lemma nat_to_dec_nonempty [simp]: "nat_to_dec n \<noteq> []"
  by (subst nat_to_dec.simps) simp

lemma nat_to_dec_hd: "0 < n \<Longrightarrow> hd (nat_to_dec n) \<noteq> CHR ''0''"
proof (induction n rule: nat_to_dec.induct)
  case (1 n)
  show ?case
  proof (cases "n < 10")
    case True
    with "1.prems" show ?thesis
      by (subst nat_to_dec.simps) (simp add: digit_char_zero)
  next
    case False
    then have "0 < n div 10" by simp
    with False "1.IH" show ?thesis
      by (subst nat_to_dec.simps) simp
  qed
qed

lemma nat_to_dec_length: "0 < n \<Longrightarrow> 10 ^ (length (nat_to_dec n) - 1) \<le> n \<and> n < 10 ^ length (nat_to_dec n)"
proof (induction n rule: nat_to_dec.induct)
  case (1 n)
  show ?case
  proof (cases "n < 10")
    case True
    with "1.prems" show ?thesis
      by (simp add: nat_to_dec.simps [of n])
  next
    case False
    define m where "m = n div 10"
    obtain l where l: "length (nat_to_dec m) = Suc l"
      by (cases "nat_to_dec m") simp_all
    have "10 ^ l \<le> m" and "m < 10 * 10 ^ l"
      using "1.IH" [OF False] False l by (simp_all add: m_def)
    moreover have "10 * m \<le> n" and "n < 10 * m + 10"
      by (simp_all add: m_def)
    ultimately have "10 * 10 ^ l \<le> n" and "n < 100 * 10 ^ l"
      by linarith+
    then show ?thesis
      using False l by (simp add: nat_to_dec.simps [of n] m_def)
  qed
qed

lemma is_digit_not [simp]:
  "\<not> is_digit CHR ''.''" "\<not> is_digit CHR ''e''" "\<not> is_digit CHR ''E''" "\<not> is_digit CHR ''-''"
  "\<not> is_digit CHR ''+''" "is_digit CHR ''0''"
  by (simp_all add: is_digit_def)

lemma digit_not [simp]:
  "is_digit c \<Longrightarrow> c \<noteq> CHR ''-''" "is_digit c \<Longrightarrow> c \<noteq> CHR ''+''" "is_digit c \<Longrightarrow> c \<noteq> CHR ''.''"
  by auto

section \<open>Trimming leaves printed numbers alone\<close>

definition space_bytes :: "string" where
  "space_bytes = map hd js_spaces @ map last js_spaces"

lemma drop_any_None: "(\<And>p. p \<in> set ps \<Longrightarrow> p \<noteq> [] \<and> hd p \<noteq> c) \<Longrightarrow> drop_any ps (c # s) = None"
proof (induction ps)
  case Nil
  then show ?case by simp
next
  case (Cons p ps)
  have "drop_prefix p (c # s) = None"
    using Cons.prems [of p] by (cases p) auto
  with Cons show ?case by simp
qed

lemma strip_seqs_id: "(\<And>p. p \<in> set ps \<Longrightarrow> p \<noteq> [] \<and> hd p \<noteq> c) \<Longrightarrow> strip_seqs n ps (c # s) = c # s"
  by (cases n) (simp_all add: drop_any_None)

lemma js_spaces_hd: "p \<in> set js_spaces \<Longrightarrow> p \<noteq> [] \<and> hd p \<in> set space_bytes \<and> last p \<in> set space_bytes"
proof -
  have "list_all (\<lambda>p. p \<noteq> []) js_spaces"
    by (simp add: js_spaces_def)
  then show "p \<in> set js_spaces \<Longrightarrow> ?thesis"
    by (auto simp: list_all_iff space_bytes_def)
qed

lemma trim_start_id: "c \<notin> set space_bytes \<Longrightarrow> trim_start (c # s) = c # s"
  unfolding trim_start_def by (rule strip_seqs_id) (use js_spaces_hd in auto)

lemma trim_end_id: "s \<noteq> [] \<Longrightarrow> last s \<notin> set space_bytes \<Longrightarrow> trim_end s = s"
proof -
  assume s: "s \<noteq> []" and l: "last s \<notin> set space_bytes"
  obtain t where t: "rev s = last s # t"
    using s by (cases s rule: rev_cases) simp_all
  have "strip_seqs (length s) (map rev js_spaces) (last s # t) = last s # t"
    by (rule strip_seqs_id) (use l js_spaces_hd in \<open>fastforce simp: hd_rev\<close>)
  then have "strip_seqs (length s) (map rev js_spaces) (rev s) = rev s"
    by (simp only: t)
  then show ?thesis
    by (simp add: trim_end_def)
qed

lemma js_trim_id: "s \<noteq> [] \<Longrightarrow> hd s \<notin> set space_bytes \<Longrightarrow> last s \<notin> set space_bytes \<Longrightarrow> js_trim s = s"
  by (cases s) (simp_all add: js_trim_def trim_start_id trim_end_id)

lemma space_bytes_ge: "c \<in> set space_bytes \<Longrightarrow> (of_char c :: nat) \<le> 32 \<or> 128 \<le> (of_char c :: nat)"
proof -
  have "list_all (\<lambda>c. (of_char c :: nat) \<le> 32 \<or> 128 \<le> (of_char c :: nat)) space_bytes"
    by code_simp
  then show "c \<in> set space_bytes \<Longrightarrow> ?thesis"
    by (simp only: list_all_iff)
qed

text \<open>Visible ASCII never counts as white space.\<close>

definition visible :: "char \<Rightarrow> bool" where
  "visible c \<longleftrightarrow> 33 \<le> (of_char c :: nat) \<and> (of_char c :: nat) < 128"

lemma visible_not_space: "visible c \<Longrightarrow> c \<notin> set space_bytes"
  using space_bytes_ge by (fastforce simp: visible_def)

lemma digit_visible: "is_digit c \<Longrightarrow> visible c"
  by (simp add: is_digit_def visible_def)

lemma js_trim_visible: "list_all visible s \<Longrightarrow> js_trim s = s"
proof (cases "s = []")
  case True
  then show ?thesis
    by (simp add: js_trim_def trim_start_def trim_end_def)
next
  case False
  assume "list_all visible s"
  with False have "visible (hd s)" and "visible (last s)"
    by (simp_all add: list_all_iff)
  with False show ?thesis
    by (intro js_trim_id visible_not_space)
qed

section \<open>BigInt literals round-trip\<close>

lemma radix_of_digit: "is_digit c \<Longrightarrow> radix_of c = None"
proof -
  assume "is_digit c"
  then have "c \<notin> set ''xXoObB''"
    by (auto simp: is_digit_def)
  then show "radix_of c = None"
    by (simp add: radix_of_def)
qed

lemma nondecimal_digits: "list_all is_digit s \<Longrightarrow> nondecimal s = None"
  by (cases s rule: nondecimal.cases) (simp_all add: radix_of_digit)

lemma nondecimal_minus: "nondecimal (CHR ''-'' # s) = None"
proof (cases s)
  case (Cons c t)
  then show ?thesis
    by (cases t) simp_all
qed simp

lemma bigint_to_string_visible: "list_all visible (bigint_to_string n)"
  using nat_to_dec_digits [of "nat n"] nat_to_dec_digits [of "nat (- n)"]
  by (auto simp: bigint_to_string_def list_all_iff digit_visible) (simp_all add: visible_def)

lemma bigint_to_string_nonempty [simp]: "bigint_to_string n \<noteq> []"
  by (simp add: bigint_to_string_def)

lemma signed_decimal_digits: "all_digits s \<Longrightarrow> signed_decimal s = Some (int (dec_value s))"
  by (cases s) (auto simp: all_digits_def)

lemma all_digits_nat_to_dec: "all_digits (nat_to_dec n)"
  by (simp add: all_digits_def nat_to_dec_digits)

lemma bigint_round_trip: "string_to_bigint (bigint_to_string n) = Some n"
proof (cases "n < 0")
  case True
  then show ?thesis
    using bigint_to_string_visible [of n]
    by (simp add: string_to_bigint_def js_trim_visible Let_def)
       (simp add: bigint_to_string_def nondecimal_minus all_digits_nat_to_dec)
next
  case False
  then show ?thesis
    using bigint_to_string_visible [of n]
    by (simp add: string_to_bigint_def js_trim_visible Let_def)
       (simp add: bigint_to_string_def nondecimal_digits nat_to_dec_digits
         signed_decimal_digits all_digits_nat_to_dec)
qed

interpretation bigint_text: codec bigint_to_string string_to_bigint "\<lambda>_. True"
  by unfold_locales (rule bigint_round_trip)

end
