(* ===== verification/JsNumText.thy ===== *)
theory JsNumText
  imports JsText
begin

section \<open>Numbers survive printing and parsing\<close>

text \<open>
  \<open>Number::toString\<close> prints the shortest digits that denote the number; reading them back,
  as \<open>Number(s)\<close> or as a JSON number, gives the number.  The digits exist because 17
  significant digits determine a double (\<open>round_double_close\<close>).
\<close>

subsection \<open>Powers of ten\<close>

lemma pow10_powi: "pow10 e = 10 powi e"
  by (simp add: pow10_def power_int_def field_simps)

lemma pow10_add: "pow10 (a + b) = pow10 a * pow10 b"
  by (simp add: pow10_powi power_int_add)

lemma pow10_pos [simp]: "0 < pow10 e"
  by (simp add: pow10_powi)

lemma pow10_nonzero [simp]: "pow10 e \<noteq> 0"
  using pow10_pos [of e] by linarith

lemma pow10_0 [simp]: "pow10 0 = 1"
  by (simp add: pow10_def)

lemma pow10_of_nat: "pow10 (int n) = 10 ^ n"
  by (simp add: pow10_def)

subsection \<open>Scanning what was printed\<close>

text \<open>A text that cannot extend a number printed before it.\<close>

fun ends_number :: "string \<Rightarrow> bool" where
  "ends_number [] = True"
| "ends_number (c # s) = (\<not> is_digit c \<and> c \<noteq> CHR ''.'' \<and> c \<noteq> CHR ''e'' \<and> c \<noteq> CHR ''E'')"

lemma span_digits_append:
  assumes "list_all is_digit ds" and "r = [] \<or> \<not> is_digit (hd r)"
  shows "span_digits (ds @ r) = (ds, r)"
proof -
  have "takeWhile is_digit (ds @ r) = ds @ takeWhile is_digit r"
    using assms(1) by (simp add: list_all_iff)
  moreover have "dropWhile is_digit (ds @ r) = dropWhile is_digit r"
    using assms(1) by (simp add: list_all_iff)
  ultimately show ?thesis
    using assms(2) by (cases r) (auto simp: span_digits_def)
qed

lemma ends_number_hd: "ends_number r \<Longrightarrow> r = [] \<or> \<not> is_digit (hd r)"
  by (cases r) auto

lemma scan_exp_ends: "ends_number r \<Longrightarrow> scan_exp r = (0, r)"
  by (cases r) auto

lemma scan_frac_ends: "ends_number r \<Longrightarrow> scan_frac r = ([], r)"
  by (cases r rule: scan_frac.cases) auto

lemma scan_frac_exp: "scan_frac (CHR ''e'' # s) = ([], CHR ''e'' # s)"
  by (cases s) simp_all

lemma scan_frac_digits:
  assumes "list_all is_digit ds" "ds \<noteq> []" and "r = [] \<or> \<not> is_digit (hd r)"
  shows "scan_frac (CHR ''.'' # ds @ r) = (ds, r)"
  using assms span_digits_append [OF assms(1,3)] by (cases ds) auto

lemma scan_exp_suffix:
  assumes "ends_number r"
  shows "scan_exp (exp_suffix e @ r) = (e, r)"
  using span_digits_append [OF nat_to_dec_digits ends_number_hd [OF assms], of "nat \<bar>e\<bar>"]
  by (auto simp: exp_suffix_def)

lemma exp_suffix_hd: "exp_suffix e @ r = CHR ''e'' # tl (exp_suffix e @ r)"
  by (simp add: exp_suffix_def)

lemma zeros_digits: "list_all is_digit (zeros n)"
  by (simp add: zeros_def list_all_iff)

lemma dec_value_zeros' [simp]: "dec_value (zeros n) = 0"
  by (simp add: zeros_def)

lemma length_zeros [simp]: "length (zeros n) = nat n"
  by (simp add: zeros_def)

subsection \<open>The value of the printed form\<close>

text \<open>
  The five layouts of \<open>format_digits\<close> all denote the digits times the power of ten, whatever
  follows them.
\<close>

lemma scan_unsigned_parts:
  assumes "list_all is_digit ip" "span_digits s = (ip, r)" "scan_frac r = (fp, r')" "scan_exp r' = (e, r'')"
  shows "scan_unsigned s = (decimal_rat ip fp e, r'')"
  using assms by (simp add: scan_unsigned_def)

lemma scan_integer_layout:
  assumes "list_all is_digit ds" and "ends_number r"
  shows "scan_unsigned (ds @ r) = (of_nat (dec_value ds), r)"
  using assms
  by (simp add: scan_unsigned_def span_digits_append ends_number_hd scan_frac_ends scan_exp_ends
      decimal_rat_def)

lemma scan_point_layout:
  assumes "list_all is_digit ip" "list_all is_digit fp" "fp \<noteq> []" and "ends_number r"
  shows "scan_unsigned (ip @ CHR ''.'' # fp @ r)
      = (of_nat (dec_value (ip @ fp)) * pow10 (- int (length fp)), r)"
  using assms
  by (simp add: scan_unsigned_def span_digits_append ends_number_hd scan_frac_digits scan_exp_ends
      decimal_rat_def)

lemma scan_exp_layout:
  assumes "list_all is_digit ip" and "ends_number r"
  shows "scan_unsigned (ip @ exp_suffix e @ r) = (of_nat (dec_value ip) * pow10 e, r)"
proof -
  have "span_digits (ip @ exp_suffix e @ r) = (ip, exp_suffix e @ r)"
    by (rule span_digits_append [OF assms(1)]) (simp add: exp_suffix_def)
  moreover have "scan_frac (exp_suffix e @ r) = ([], exp_suffix e @ r)"
    by (subst (1 2) exp_suffix_hd) (rule scan_frac_exp)
  ultimately show ?thesis
    by (simp add: scan_unsigned_def scan_exp_suffix [OF assms(2)] decimal_rat_def)
qed

lemma scan_point_exp_layout:
  assumes "list_all is_digit ip" "list_all is_digit fp" "fp \<noteq> []" and "ends_number r"
  shows "scan_unsigned (ip @ CHR ''.'' # fp @ exp_suffix e @ r)
      = (of_nat (dec_value (ip @ fp)) * pow10 (e - int (length fp)), r)"
proof -
  have "span_digits (ip @ CHR ''.'' # fp @ exp_suffix e @ r) = (ip, CHR ''.'' # fp @ exp_suffix e @ r)"
    by (rule span_digits_append [OF assms(1)]) simp
  moreover have "scan_frac (CHR ''.'' # fp @ exp_suffix e @ r) = (fp, exp_suffix e @ r)"
    by (rule scan_frac_digits [OF assms(2,3)]) (simp add: exp_suffix_def)
  ultimately show ?thesis
    by (simp add: scan_unsigned_def scan_exp_suffix [OF assms(4)] decimal_rat_def)
qed

lemma scan_format_digits:
  assumes ds: "list_all is_digit ds" "ds \<noteq> []" and r: "ends_number r"
  shows "scan_unsigned (format_digits ds n @ r)
      = (of_nat (dec_value ds) * pow10 (n - int (length ds)), r)"
proof -
  let ?k = "int (length ds)"
  have take: "list_all is_digit (take m ds)" "list_all is_digit (drop m ds)" for m
    using ds(1) by (auto simp: list_all_iff dest: in_set_takeD in_set_dropD)
  consider "?k \<le> n \<and> n \<le> 21" | "\<not> (?k \<le> n \<and> n \<le> 21)" "0 < n \<and> n \<le> 21"
    | "\<not> (?k \<le> n \<and> n \<le> 21)" "\<not> (0 < n \<and> n \<le> 21)" "- 6 < n \<and> n \<le> 0"
    | "\<not> (?k \<le> n \<and> n \<le> 21)" "\<not> (0 < n \<and> n \<le> 21)" "\<not> (- 6 < n \<and> n \<le> 0)" "?k = 1"
    | "\<not> (?k \<le> n \<and> n \<le> 21)" "\<not> (0 < n \<and> n \<le> 21)" "\<not> (- 6 < n \<and> n \<le> 0)" "?k \<noteq> 1"
    by blast
  then show ?thesis
  proof cases
    case 1
    then have p: "pow10 (n - ?k) = of_nat (10 ^ nat (n - ?k))"
      by (simp add: pow10_def)
    have fd: "format_digits ds n = ds @ zeros (n - ?k)"
      using 1 by (simp add: format_digits_def)
    have "scan_unsigned ((ds @ zeros (n - ?k)) @ r) = (of_nat (dec_value (ds @ zeros (n - ?k))), r)"
      by (rule scan_integer_layout) (simp_all add: ds(1) zeros_digits r)
    then show ?thesis
      unfolding fd p dec_value_append by simp
  next
    case 2
    then have n: "nat n < length ds" "0 < nat n"
      by linarith+
    have k: "- int (length (drop (nat n) ds)) = n - ?k"
      using n by simp
    have fd: "format_digits ds n @ r = take (nat n) ds @ CHR ''.'' # drop (nat n) ds @ r"
      using 2 by (auto simp: format_digits_def Let_def)
    have "drop (nat n) ds \<noteq> []"
      using n by simp
    from scan_point_layout [OF take(1) [of "nat n"] take(2) [of "nat n"] this r]
    show ?thesis
      unfolding fd k by simp
  next
    case 3
    have k: "- int (length (zeros (- n) @ ds)) = n - ?k"
      using 3 by simp
    have fd: "format_digits ds n @ r = ''0'' @ CHR ''.'' # (zeros (- n) @ ds) @ r"
      using 3 by (auto simp: format_digits_def Let_def)
    have v: "dec_value (''0'' @ zeros (- n) @ ds) = dec_value ds"
      by (simp add: dec_value_append dec_value_Cons digit_val_def)
    have "list_all is_digit ''0''" "list_all is_digit (zeros (- n) @ ds)" "zeros (- n) @ ds \<noteq> []"
      using ds zeros_digits by simp_all
    from scan_point_layout [OF this r] show ?thesis
      unfolding fd k v .
  next
    case 4
    have fd: "format_digits ds n @ r = ds @ exp_suffix (n - 1) @ r"
      using 4 by (auto simp: format_digits_def Let_def)
    show ?thesis
      using scan_exp_layout [OF ds(1) r, of "n - 1"] unfolding fd 4(4) .
  next
    case 5
    have len: "1 < length ds"
      using 5(4) ds(2) by (cases ds) auto
    have k: "n - 1 - int (length (drop 1 ds)) = n - ?k"
      using len by simp
    have fd: "format_digits ds n @ r = take 1 ds @ CHR ''.'' # drop 1 ds @ exp_suffix (n - 1) @ r"
      using 5 by (auto simp: format_digits_def Let_def)
    have "drop 1 ds \<noteq> []"
      using len by simp
    from scan_point_exp_layout [OF take(1) [of 1] take(2) [of 1] this r, of "n - 1"]
    show ?thesis
      unfolding fd k append_take_drop_id .
  qed
qed

subsection \<open>Significant digits\<close>

lemma strip_zeros_split:
  "\<exists>m. s = strip_zeros s @ replicate m CHR ''0''"
proof -
  have "rev s = takeWhile (\<lambda>c. c = CHR ''0'') (rev s) @ dropWhile (\<lambda>c. c = CHR ''0'') (rev s)"
    by simp
  then have "s = strip_zeros s @ rev (takeWhile (\<lambda>c. c = CHR ''0'') (rev s))"
    unfolding strip_zeros_def by (metis rev_append rev_rev_ident)
  moreover have "takeWhile (\<lambda>c. c = CHR ''0'') (rev s)
      = replicate (length (takeWhile (\<lambda>c. c = CHR ''0'') (rev s))) CHR ''0''"
    by (metis (full_types) replicate_length_same set_takeWhileD)
  ultimately show ?thesis
    by (metis rev_replicate)
qed

lemma strip_zeros_value:
  "of_nat (dec_value s) = of_nat (dec_value (strip_zeros s)) * pow10 (int (length s) - int (length (strip_zeros s)))"
proof -
  obtain m where "s = strip_zeros s @ replicate m CHR ''0''"
    using strip_zeros_split by blast
  moreover from this have len: "length s = length (strip_zeros s) + m"
    by (metis length_append length_replicate)
  ultimately have val: "dec_value s = dec_value (strip_zeros s) * 10 ^ m"
    by (metis add.right_neutral dec_value_append dec_value_zeros length_replicate)
  have "int (length s) - int (length (strip_zeros s)) = int m"
    using len by simp
  then show ?thesis
    by (simp add: pow10_of_nat val)
qed

lemma strip_zeros_digits: "list_all is_digit s \<Longrightarrow> list_all is_digit (strip_zeros s)"
  by (auto simp: list_all_iff strip_zeros_def dest: set_dropWhileD)

lemma strip_zeros_nonempty: "dec_value s \<noteq> 0 \<Longrightarrow> strip_zeros s \<noteq> []"
  using strip_zeros_split [of s] by (metis append_Nil dec_value_zeros)


lemma strip_zeros_hd: "strip_zeros s \<noteq> [] \<Longrightarrow> hd (strip_zeros s) = hd s"
  using strip_zeros_split [of s] by (metis hd_append2)

subsection \<open>The shortest digits exist\<close>

lemma shortest_sound:
  "shortest q n ks = Some (s, e) \<Longrightarrow> 0 < s \<and> round_double (of_int s * pow10 e) = Fin q"
proof (induction q n ks rule: shortest.induct)
  case (2 q n k ks)
  show ?case
  proof (cases "filter (\<lambda>s. 0 < s \<and> round_double (of_int s * pow10 (n - int k)) = Fin q)
      (digits_candidates q (n - int k))")
    case Nil
    with 2 show ?thesis by simp
  next
    case (Cons a as)
    then have "a \<in> set (filter (\<lambda>s. 0 < s \<and> round_double (of_int s * pow10 (n - int k)) = Fin q)
      (digits_candidates q (n - int k)))"
      by simp
    with Cons "2.prems" show ?thesis by simp
  qed
qed simp

lemma shortest_exists:
  assumes "k \<in> set ks" and "s \<in> set (digits_candidates q (n - int k))"
    and "0 < s" and "round_double (of_int s * pow10 (n - int k)) = Fin q"
  shows "shortest q n ks \<noteq> None"
  using assms
proof (induction ks)
  case (Cons j ks)
  show ?case
  proof (cases "filter (\<lambda>s. 0 < s \<and> round_double (of_int s * pow10 (n - int j)) = Fin q)
      (digits_candidates q (n - int j))")
    case Nil
    with Cons.prems have "k \<noteq> j"
      by (auto simp: filter_empty_conv)
    with Cons Nil show ?thesis by simp
  next
    case (Cons a as)
    then show ?thesis by simp
  qed
qed simp

lemma nearest_candidate:
  "\<exists>s \<in> set (digits_candidates q e). \<bar>of_int s - q / pow10 e\<bar> \<le> 1 / 2"
proof -
  let ?t = "q / pow10 e"
  have "of_int \<lfloor>?t\<rfloor> \<le> ?t" and "?t < of_int \<lfloor>?t\<rfloor> + 1"
    by linarith+
  then show ?thesis
    by (cases "?t - of_int \<lfloor>?t\<rfloor> \<le> 1 / 2")
       (auto simp: digits_candidates_def Let_def abs_le_iff)
qed

lemma dec_exp_lower:
  assumes "0 < q"
  shows "pow10 (dec_exp q - 1) \<le> q"
proof (cases "1 \<le> q")
  case True
  define n where "n = nat \<lfloor>q\<rfloor>"
  have n: "0 < n" "of_nat n \<le> q"
    using True by (simp_all add: n_def)
  obtain l where l: "length (nat_to_dec n) = Suc l"
    by (cases "nat_to_dec n") simp_all
  have "10 ^ l \<le> n"
    using nat_to_dec_length [OF n(1)] l by simp
  then have "of_nat (10 ^ l) \<le> (of_nat n :: rat)"
    by (simp only: of_nat_le_iff)
  also note n(2)
  finally have "10 ^ l \<le> q" by simp
  then show ?thesis
    using n(2) True l by (simp add: dec_exp_def n_def [symmetric] pow10_of_nat del: of_nat_le_iff)
next
  case False
  define n where "n = nat (\<lceil>1 / q\<rceil> - 1)"
  have inv: "1 < 1 / q"
    using False assms by simp
  then have "1 < \<lceil>1 / q\<rceil>"
    by linarith
  then have n: "0 < n" "1 / q \<le> of_nat n + 1"
    by (simp_all add: n_def) linarith
  define l where "l = length (nat_to_dec n)"
  have "n + 1 \<le> 10 ^ l"
    using nat_to_dec_length [OF n(1)] by (simp add: l_def)
  then have "of_nat (n + 1) \<le> (of_nat (10 ^ l) :: rat)"
    by (simp only: of_nat_le_iff)
  then have "1 / q \<le> 10 ^ l"
    using n(2) by simp
  then have "1 / 10 ^ l \<le> q"
    using assms by (simp add: field_simps)
  moreover have "pow10 (dec_exp q - 1) = 1 / 10 ^ l"
    using False by (simp add: dec_exp_def n_def [symmetric] l_def [symmetric])
      (simp add: pow10_powi power_int_minus field_simps)
  ultimately show ?thesis by simp
qed

lemma shortest_17:
  assumes "is_double (Fin q)" and "0 < q" and "17 \<in> set ks"
  shows "shortest q (dec_exp q) ks \<noteq> None"
proof -
  let ?e = "dec_exp q - int 17"
  obtain s where s: "s \<in> set (digits_candidates q ?e)" "\<bar>of_int s - q / pow10 ?e\<bar> \<le> 1 / 2"
    using nearest_candidate by blast
  have "pow10 (dec_exp q - 1) = pow10 (16 + ?e)"
    by simp
  also have "\<dots> = 10 ^ 16 * pow10 ?e"
    by (simp only: pow10_add) (simp add: pow10_def)
  finally have low: "10 ^ 16 * pow10 ?e \<le> q"
    using dec_exp_lower [OF assms(2)] by simp
  then have t: "10 ^ 16 \<le> q / pow10 ?e"
    by (simp add: le_divide_eq)
  then have "1 \<le> q / pow10 ?e"
    by (rule order_trans [rotated]) simp
  then have "0 < (of_int s :: rat)"
    using s(2) abs_ge_minus_self [of "of_int s - q / pow10 ?e"] by linarith
  then have "0 < s" by simp
  have "\<bar>of_int s - q / pow10 ?e\<bar> * pow10 ?e \<le> 1 / 2 * pow10 ?e"
    using s(2) by (intro mult_right_mono) (simp_all add: less_imp_le)
  also have "\<bar>of_int s - q / pow10 ?e\<bar> * pow10 ?e = \<bar>(of_int s - q / pow10 ?e) * pow10 ?e\<bar>"
    by (simp only: abs_mult abs_of_pos [OF pow10_pos])
  also have "(of_int s - q / pow10 ?e) * pow10 ?e = of_int s * pow10 ?e - q"
    by (simp add: left_diff_distrib)
  finally have "close_to q (of_int s * pow10 ?e)"
    using low by (simp add: close_to_def)
  then have "round_double (of_int s * pow10 ?e) = Fin q"
    by (rule round_double_close [OF assms(1,2)])
  with s(1) \<open>0 < s\<close> assms(3) show ?thesis
    by (intro shortest_exists)
qed

subsection \<open>Reading a printed number\<close>

lemma format_digits_start:
  assumes "list_all is_digit ds" "ds \<noteq> []" "hd ds \<noteq> CHR ''0''"
  shows "\<exists>c s. format_digits ds n = c # s \<and> is_digit c \<and> (c = CHR ''0'' \<longrightarrow> (\<exists>s'. s = CHR ''.'' # s'))"
proof -
  obtain d t where ds: "ds = d # t" "is_digit d" "d \<noteq> CHR ''0''"
    using assms by (cases ds) auto
  then show ?thesis
    by (cases "nat n") (auto simp: format_digits_def Let_def)
qed

lemma pos_to_string_form:
  assumes "is_double (Fin q)" and "0 < q"
  obtains ds n where "pos_to_string q = format_digits ds n" "list_all is_digit ds" "ds \<noteq> []"
    "hd ds \<noteq> CHR ''0''"
    "round_double (of_nat (dec_value ds) * pow10 (n - int (length ds))) = Fin q"
proof -
  let ?ks = "[1, 2, 3, 4, 5, 6, 7, 8, 9, 10, 11, 12, 13, 14, 15, 16, 17] :: nat list"
  have "shortest q (dec_exp q) ?ks \<noteq> None"
    by (rule shortest_17 [OF assms]) simp
  then obtain s e where se: "shortest q (dec_exp q) ?ks = Some (s, e)"
    by auto
  from shortest_sound [OF this] have s: "0 < s" "round_double (of_int s * pow10 e) = Fin q"
    by simp_all
  let ?t = "nat_to_dec (nat s)"
  let ?ds = "strip_zeros ?t"
  have ne: "?ds \<noteq> []"
    using s(1) by (intro strip_zeros_nonempty) simp
  have "of_int s = (of_nat (dec_value ?t) :: rat)"
    using s(1) by simp
  then have "of_int s * pow10 e
      = of_nat (dec_value ?ds) * pow10 (int (length ?t) + e - int (length ?ds))"
    using strip_zeros_value [of ?t]
    by (simp only: pow10_add [symmetric] mult.assoc) (simp add: algebra_simps)
  with s(2) have "round_double (of_nat (dec_value ?ds) * pow10 (int (length ?t) + e - int (length ?ds))) = Fin q"
    by simp
  moreover have "pos_to_string q = format_digits ?ds (int (length ?t) + e)"
    by (simp only: pos_to_string_def se option.case prod.case Let_def)
  moreover have "hd ?ds \<noteq> CHR ''0''"
    using s(1) nat_to_dec_hd [of "nat s"] strip_zeros_hd [OF ne] by simp
  ultimately show thesis
    using that [of ?ds] ne strip_zeros_digits [OF nat_to_dec_digits] by blast
qed

text \<open>The number denoted by a scanned decimal.\<close>

lemma scan_pos_to_string:
  assumes "is_double (Fin q)" and "0 < q" and "ends_number r"
  shows "\<exists>v. scan_unsigned (pos_to_string q @ r) = (v, r) \<and> round_double v = Fin q \<and>
      (\<exists>c s. pos_to_string q = c # s \<and> is_digit c \<and> (c = CHR ''0'' \<longrightarrow> (\<exists>s'. s = CHR ''.'' # s')))"
proof -
  obtain ds n where d: "pos_to_string q = format_digits ds n" "list_all is_digit ds" "ds \<noteq> []"
    "hd ds \<noteq> CHR ''0''" "round_double (of_nat (dec_value ds) * pow10 (n - int (length ds))) = Fin q"
    using pos_to_string_form [OF assms(1,2)] .
  show ?thesis
    using scan_format_digits [OF d(2,3) assms(3), of n] format_digits_start [OF d(2,3,4), of n] d(1,5)
    by simp
qed

end
