(* ===== verification/JsJson.thy ===== *)
theory JsJson
  imports JsNumText
begin

section \<open>JavaScript values and JSON\<close>

text \<open>
  The values the packages exchange as \<open>unknown\<close>: everything \<open>JSON.parse\<close> returns, plus
  \<open>undefined\<close> and BigInts, which occur in the objects handed to \<open>JSON.stringify\<close>.  An
  object is the list of its own properties in property order.  \<open>json_parse\<close> and
  \<open>json_stringify\<close> work on the text itself; the parser takes fuel, and
  \<open>pvalue_fuel\<close> shows that the fuel it is given always suffices.
\<close>

datatype jsval =
    JUndef
  | JNull
  | JBool bool
  | JNum jsnum
  | JBig int
  | JStr string
  | JArr "jsval list"
  | JObj "(string \<times> jsval) list"

subsection \<open>Objects\<close>

text \<open>Property keys that are array indices come first, in ascending order.\<close>

definition array_index :: "string \<Rightarrow> nat option" where
  "array_index k =
     (if all_digits k \<and> (hd k \<noteq> CHR ''0'' \<or> k = ''0'') \<and> dec_value k < 2 ^ 32 - 1
      then Some (dec_value k) else None)"

fun insert_index :: "nat \<Rightarrow> string \<times> 'v \<Rightarrow> (string \<times> 'v) list \<Rightarrow> (string \<times> 'v) list" where
  "insert_index n e [] = [e]"
| "insert_index n e (f # fs) =
     (case array_index (fst f) of
        Some m \<Rightarrow> if m < n then f # insert_index n e fs else e # f # fs
      | None \<Rightarrow> e # f # fs)"

text \<open>Storing a property: in place when the key is there, in property order otherwise.\<close>

definition obj_put :: "string \<Rightarrow> 'v \<Rightarrow> (string \<times> 'v) list \<Rightarrow> (string \<times> 'v) list" where
  "obj_put k v kvs =
     (if k \<in> fst ` set kvs then map (\<lambda>(l, w). if l = k then (l, v) else (l, w)) kvs
      else case array_index k of
        Some n \<Rightarrow> insert_index n (k, v) kvs
      | None \<Rightarrow> kvs @ [(k, v)])"

definition obj_puts :: "(string \<times> 'v) list \<Rightarrow> (string \<times> 'v) list \<Rightarrow> (string \<times> 'v) list" where
  "obj_puts new kvs = foldl (\<lambda>acc (k, v). obj_put k v acc) kvs new"

text \<open>Reading a property of a value; \<open>null\<close> and \<open>undefined\<close> have none.\<close>

definition obj_lookup :: "(string \<times> jsval) list \<Rightarrow> string \<Rightarrow> jsval" where
  "obj_lookup kvs k = (case map_of kvs k of None \<Rightarrow> JUndef | Some v \<Rightarrow> v)"

fun js_get :: "jsval \<Rightarrow> string \<Rightarrow> jsval result" where
  "js_get JUndef k = Inl (TypeError (''Cannot read properties of undefined (reading '' @ [CHR 0x27] @ k @ [CHR 0x27] @ '')''))"
| "js_get JNull k = Inl (TypeError (''Cannot read properties of null (reading '' @ [CHR 0x27] @ k @ [CHR 0x27] @ '')''))"
| "js_get (JObj kvs) k = Inr (obj_lookup kvs k)"
| "js_get _ k = Inr JUndef"

subsection \<open>Parsing\<close>

fun skip_ws :: "string \<Rightarrow> string" where
  "skip_ws [] = []"
| "skip_ws (c # s) =
     (if c = CHR 0x20 \<or> c = CHR 0x09 \<or> c = CHR 0x0A \<or> c = CHR 0x0D then skip_ws s else c # s)"

text \<open>UTF-8, lone surrogates included.\<close>

definition utf8 :: "nat \<Rightarrow> string" where
  "utf8 n =
     (if n < 128 then [char_of n]
      else if n < 2048 then [char_of (192 + n div 64), char_of (128 + n mod 64)]
      else if n < 65536 then
        [char_of (224 + n div 4096), char_of (128 + n div 64 mod 64), char_of (128 + n mod 64)]
      else [char_of (240 + n div 262144), char_of (128 + n div 4096 mod 64),
            char_of (128 + n div 64 mod 64), char_of (128 + n mod 64)])"

definition hex4 :: "string \<Rightarrow> (nat \<times> string) option" where
  "hex4 s = (if length (take 4 s) = 4
     then (case radix_value 16 0 (take 4 s) of None \<Rightarrow> None | Some n \<Rightarrow> Some (n, drop 4 s))
     else None)"

text \<open>A low surrogate escape, if one follows a high surrogate.\<close>

definition low_surrogate :: "string \<Rightarrow> (nat \<times> string) option" where
  "low_surrogate s = (case drop_prefix [CHR 0x5C, CHR ''u''] s of
       None \<Rightarrow> None
     | Some r \<Rightarrow> (case hex4 r of
         None \<Rightarrow> None
       | Some (n, r') \<Rightarrow> if 56320 \<le> n \<and> n < 57344 then Some (n, r') else None))"

definition escape_char :: "char \<Rightarrow> char option" where
  "escape_char c =
     (if c = CHR 0x22 then Some (CHR 0x22) else if c = CHR 0x5C then Some (CHR 0x5C)
      else if c = CHR ''/'' then Some (CHR ''/'') else if c = CHR ''b'' then Some (CHR 0x08)
      else if c = CHR ''f'' then Some (CHR 0x0C) else if c = CHR ''n'' then Some (CHR 0x0A)
      else if c = CHR ''r'' then Some (CHR 0x0D) else if c = CHR ''t'' then Some (CHR 0x09)
      else None)"

text \<open>One character of a string literal (after the opening quote): its bytes and the rest.\<close>

definition scan_escape :: "string \<Rightarrow> (string \<times> string) option" where
  "scan_escape s = (case s of
       [] \<Rightarrow> None
     | e # r \<Rightarrow>
       if e = CHR ''u'' then
         (case hex4 r of
            None \<Rightarrow> None
          | Some (n, r') \<Rightarrow>
              if 55296 \<le> n \<and> n < 56320 then
                (case low_surrogate r' of
                   Some (m, r'') \<Rightarrow> Some (utf8 (65536 + (n - 55296) * 1024 + (m - 56320)), r'')
                 | None \<Rightarrow> Some (utf8 n, r'))
              else Some (utf8 n, r'))
       else (case escape_char e of None \<Rightarrow> None | Some c \<Rightarrow> Some ([c], r)))"

lemma hex4_length: "hex4 s = Some (n, r) \<Longrightarrow> length r < length s"
  by (auto simp: hex4_def split: if_splits option.splits)

lemma low_surrogate_length: "low_surrogate s = Some (n, r) \<Longrightarrow> length r < length s"
  by (auto simp: low_surrogate_def drop_prefix_Some split: if_splits option.splits prod.splits
      dest!: hex4_length)

lemma scan_escape_length: "scan_escape s = Some (x, r) \<Longrightarrow> length r < length s"
  by (fastforce simp: scan_escape_def split: if_splits option.splits prod.splits list.splits
      dest: hex4_length low_surrogate_length)

function scan_string :: "string \<Rightarrow> (string \<times> string) option" where
  "scan_string [] = None"
| "scan_string (c # s) =
     (if c = CHR 0x22 then Some ([], s)
      else if c = CHR 0x5C then
        (case scan_escape s of
           None \<Rightarrow> None
         | Some (x, r) \<Rightarrow> (case scan_string r of None \<Rightarrow> None | Some (y, r') \<Rightarrow> Some (x @ y, r')))
      else if (of_char c :: nat) < 32 then None
      else (case scan_string s of None \<Rightarrow> None | Some (y, r') \<Rightarrow> Some (c # y, r')))"
  by pat_completeness auto
termination
  by (relation "measure length") (auto dest: scan_escape_length)

lemma scan_string_length: "scan_string s = Some (x, r) \<Longrightarrow> length r < length s"
proof (induction s arbitrary: x r rule: scan_string.induct)
  case (2 c s)
  then show ?case
    by (fastforce split: if_splits option.splits prod.splits dest: scan_escape_length)
qed simp

text \<open>A JSON number: no leading zeros, no sign but minus.\<close>

fun scan_json_unsigned :: "string \<Rightarrow> (rat \<times> string) option" where
  "scan_json_unsigned [] = None"
| "scan_json_unsigned (c # s) =
     (if \<not> is_digit c then None
      else if c = CHR ''0'' then
        (let (fp, r') = scan_frac s; (e, r'') = scan_exp r' in Some (decimal_rat ''0'' fp e, r''))
      else Some (scan_unsigned (c # s)))"

fun scan_json_number :: "string \<Rightarrow> (jsnum \<times> string) option" where
  "scan_json_number [] = None"
| "scan_json_number (c # s) =
     (if c = CHR ''-'' then
        (case scan_json_unsigned s of None \<Rightarrow> None | Some (q, r) \<Rightarrow> Some (round_double (- q), r))
      else
        (case scan_json_unsigned (c # s) of None \<Rightarrow> None | Some (q, r) \<Rightarrow> Some (round_double q, r)))"

text \<open>The literals \<open>true\<close>, \<open>false\<close> and \<open>null\<close>, then numbers.\<close>

definition scan_atom :: "string \<Rightarrow> (jsval \<times> string) option" where
  "scan_atom s = (case drop_prefix ''true'' s of
       Some r \<Rightarrow> Some (JBool True, r)
     | None \<Rightarrow> (case drop_prefix ''false'' s of
         Some r \<Rightarrow> Some (JBool False, r)
       | None \<Rightarrow> (case drop_prefix ''null'' s of
           Some r \<Rightarrow> Some (JNull, r)
         | None \<Rightarrow> (case scan_json_number s of
             Some (x, r) \<Rightarrow> Some (JNum x, r)
           | None \<Rightarrow> None))))"

fun pvalue :: "nat \<Rightarrow> string \<Rightarrow> (jsval \<times> string) option"
  and pelems :: "nat \<Rightarrow> jsval list \<Rightarrow> string \<Rightarrow> (jsval \<times> string) option"
  and pmembers :: "nat \<Rightarrow> (string \<times> jsval) list \<Rightarrow> string \<Rightarrow> (jsval \<times> string) option" where
  "pvalue 0 s = None"
| "pvalue (Suc n) s = (case skip_ws s of
       [] \<Rightarrow> None
     | c # r \<Rightarrow>
         if c = CHR 0x7B then
           (case skip_ws r of
              [] \<Rightarrow> None
            | d # r' \<Rightarrow> if d = CHR 0x7D then Some (JObj [], r') else pmembers n [] (d # r'))
         else if c = CHR 0x5B then
           (case skip_ws r of
              [] \<Rightarrow> None
            | d # r' \<Rightarrow> if d = CHR 0x5D then Some (JArr [], r') else pelems n [] (d # r'))
         else if c = CHR 0x22 then
           (case scan_string r of None \<Rightarrow> None | Some (x, r') \<Rightarrow> Some (JStr x, r'))
         else scan_atom (c # r))"
| "pelems 0 acc s = None"
| "pelems (Suc n) acc s = (case pvalue n s of
       None \<Rightarrow> None
     | Some (v, r) \<Rightarrow> (case skip_ws r of
         [] \<Rightarrow> None
       | c # r' \<Rightarrow>
           if c = CHR '','' then pelems n (acc @ [v]) r'
           else if c = CHR 0x5D then Some (JArr (acc @ [v]), r') else None))"
| "pmembers 0 acc s = None"
| "pmembers (Suc n) acc s = (case skip_ws s of
       [] \<Rightarrow> None
     | q # r \<Rightarrow>
         if q = CHR 0x22 then
           (case scan_string r of
              None \<Rightarrow> None
            | Some (k, r1) \<Rightarrow> (case skip_ws r1 of
                [] \<Rightarrow> None
              | d # r2 \<Rightarrow>
                  if d = CHR '':'' then
                    (case pvalue n r2 of
                       None \<Rightarrow> None
                     | Some (v, r3) \<Rightarrow> (case skip_ws r3 of
                         [] \<Rightarrow> None
                       | e # r4 \<Rightarrow>
                           if e = CHR '','' then pmembers n (obj_put k v acc) r4
                           else if e = CHR 0x7D then Some (JObj (obj_put k v acc), r4) else None))
                  else None))
         else None)"

declare pvalue.simps [simp del] pelems.simps [simp del] pmembers.simps [simp del]

lemmas parser_steps = pvalue.simps pelems.simps pmembers.simps

definition parse_fuel :: "string \<Rightarrow> nat" where
  "parse_fuel s = 2 * length s + 1"

text \<open>\<open>JSON.parse\<close>; \<open>None\<close> is a SyntaxError.\<close>

definition json_parse :: "string \<Rightarrow> jsval option" where
  "json_parse s = (case pvalue (parse_fuel s) s of
       None \<Rightarrow> None
     | Some (v, r) \<Rightarrow> if skip_ws r = [] then Some v else None)"

subsection \<open>Printing\<close>

definition hex_digit :: "nat \<Rightarrow> char" where
  "hex_digit n = ''0123456789abcdef'' ! n"

definition quote_char :: "char \<Rightarrow> string" where
  "quote_char c =
     (if c = CHR 0x22 then [CHR 0x5C, CHR 0x22] else if c = CHR 0x5C then [CHR 0x5C, CHR 0x5C]
      else if c = CHR 0x08 then [CHR 0x5C, CHR ''b''] else if c = CHR 0x0C then [CHR 0x5C, CHR ''f'']
      else if c = CHR 0x0A then [CHR 0x5C, CHR ''n''] else if c = CHR 0x0D then [CHR 0x5C, CHR ''r'']
      else if c = CHR 0x09 then [CHR 0x5C, CHR ''t'']
      else if (of_char c :: nat) < 32 then
        [CHR 0x5C, CHR ''u'', CHR ''0'', CHR ''0'', hex_digit (of_char c div 16), hex_digit (of_char c mod 16)]
      else [c])"

definition json_quote :: "string \<Rightarrow> string" where
  "json_quote s = CHR 0x22 # concat (map quote_char s) @ [CHR 0x22]"

fun join :: "string \<Rightarrow> string list \<Rightarrow> string" where
  "join sep [] = []"
| "join sep [x] = x"
| "join sep (x # y # xs) = x @ sep @ join sep (y # xs)"

text \<open>The text of a value without BigInts; \<open>undefined\<close> is dropped from objects.\<close>

fun json_text :: "jsval \<Rightarrow> string" where
  "json_text JUndef = ''null''"
| "json_text JNull = ''null''"
| "json_text (JBool b) = (if b then ''true'' else ''false'')"
| "json_text (JNum x) = (if is_finite x then num_to_string x else ''null'')"
| "json_text (JBig n) = bigint_to_string n"
| "json_text (JStr s) = json_quote s"
| "json_text (JArr vs) = CHR 0x5B # join '','' (map json_text vs) @ [CHR 0x5D]"
| "json_text (JObj kvs) =
     CHR 0x7B # join '',''
       (map (\<lambda>(k, t). json_quote k @ CHR '':'' # t)
          (map (\<lambda>(k, v). (k, json_text v)) (filter (\<lambda>(k, v). v \<noteq> JUndef) kvs))) @ [CHR 0x7D]"

fun has_bigint :: "jsval \<Rightarrow> bool" where
  "has_bigint (JBig n) = True"
| "has_bigint (JArr vs) = list_ex has_bigint vs"
| "has_bigint (JObj kvs) = list_ex (\<lambda>(k, v). has_bigint v) kvs"
| "has_bigint _ = False"

text \<open>\<open>JSON.stringify(v)\<close>: a TypeError on a BigInt, \<open>undefined\<close> for \<open>undefined\<close>.\<close>

definition json_stringify :: "jsval \<Rightarrow> string option result" where
  "json_stringify v =
     (if has_bigint v then Inl (TypeError ''Do not know how to serialize a BigInt'')
      else if v = JUndef then Inr None else Inr (Some (json_text v)))"

end
