(* ===== verification/JsJsonText.thy ===== *)
theory JsJsonText
  imports JsJson
begin

section \<open>The fuel of the JSON parser suffices\<close>

text \<open>
  Every step of the parser either consumes a byte or is the one step from an element list to
  its next value, so twice the length of the text is enough: more fuel never changes the
  result (\<open>pvalue_fuel\<close>).
\<close>

lemma skip_ws_length: "length (skip_ws s) \<le> length s"
  by (induction s) auto

lemma skip_ws_Cons_length: "skip_ws s = c # r \<Longrightarrow> length r < length s"
  using skip_ws_length [of s] by simp

lemma span_digits_length: "span_digits s = (ds, r) \<Longrightarrow> length r \<le> length s"
  by (auto simp: span_digits_def length_dropWhile_le)

lemma scan_frac_length: "scan_frac s = (ds, r) \<Longrightarrow> length r \<le> length s"
  by (cases s rule: scan_frac.cases)
     (auto split: if_splits dest: span_digits_length)

lemma scan_sign_length: "scan_sign s = (sg, r) \<Longrightarrow> length r \<le> length s"
  by (cases s) (auto split: if_splits)

lemma scan_exp_length: "scan_exp s = (e, r) \<Longrightarrow> length r \<le> length s"
proof (cases s)
  case (Cons c t)
  assume "scan_exp s = (e, r)"
  with Cons show ?thesis
    by (auto simp: Let_def split: if_splits prod.splits dest!: scan_sign_length span_digits_length)
qed simp

lemma scan_unsigned_length:
  assumes "scan_unsigned (c # s) = (q, r)" and "is_digit c"
  shows "length r < length (c # s)"
proof -
  obtain ip r1 where 1: "span_digits (c # s) = (ip, r1)" by fastforce
  obtain fp r2 where 2: "scan_frac r1 = (fp, r2)" by fastforce
  obtain e r3 where 3: "scan_exp r2 = (e, r3)" by fastforce
  have "length r1 \<le> length s"
    using 1 assms(2) by (auto simp: span_digits_def length_dropWhile_le)
  with scan_frac_length [OF 2] scan_exp_length [OF 3] show ?thesis
    using assms(1) 1 2 3 by (simp add: scan_unsigned_def)
qed

lemma scan_json_unsigned_length: "scan_json_unsigned s = Some (q, r) \<Longrightarrow> length r < length s"
  by (cases s)
     (auto split: if_splits prod.splits dest: scan_unsigned_length
       dest!: scan_frac_length scan_exp_length)

lemma scan_json_number_length: "scan_json_number s = Some (x, r) \<Longrightarrow> length r < length s"
  by (cases s)
     (auto simp del: scan_json_unsigned.simps split: if_splits option.splits prod.splits
       dest!: scan_json_unsigned_length)

lemma scan_atom_length: "scan_atom s = Some (v, r) \<Longrightarrow> length r < length s"
  by (auto simp: scan_atom_def drop_prefix_Some split: option.splits dest: scan_json_number_length)

lemmas scan_lengths = skip_ws_Cons_length scan_string_length scan_atom_length

lemma pvalue_length:
  "pvalue n s = Some (v, r) \<Longrightarrow> length r < length s"
  "pelems n vs s = Some (v, r) \<Longrightarrow> length r < length s"
  "pmembers n kvs s = Some (v, r) \<Longrightarrow> length r < length s"
proof (induction n s and n vs s and n kvs s arbitrary: v r and v r and v r
    rule: pvalue_pelems_pmembers.induct)
  case (2 n s)
  then show ?case
    by (fastforce simp: parser_steps split: list.splits if_splits option.splits prod.splits dest: scan_lengths)
next
  case (4 n acc s)
  then show ?case
    by (fastforce simp: parser_steps split: list.splits if_splits option.splits prod.splits dest: scan_lengths)
next
  case (6 n acc s)
  then show ?case
    by (fastforce simp: parser_steps split: list.splits if_splits option.splits prod.splits dest: scan_lengths)
qed (simp_all add: parser_steps)

text \<open>One more unit of fuel changes nothing once there is enough.\<close>

lemma pvalue_fuel_Suc:
  "2 * length s < n \<Longrightarrow> pvalue (Suc n) s = pvalue n s"
  "2 * length s + 1 < n \<Longrightarrow> pelems (Suc n) vs s = pelems n vs s"
  "2 * length s < n \<Longrightarrow> pmembers (Suc n) kvs s = pmembers n kvs s"
proof (induction n s and n vs s and n kvs s rule: pvalue_pelems_pmembers.induct)
  case (2 n s)
  note steps = pvalue.simps(2) [of "Suc n" s] pvalue.simps(2) [of n s]
  show ?case
  proof (cases "skip_ws s")
    case Nil
    then show ?thesis by (simp add: steps)
  next
    case (Cons c r)
    note cr = this skip_ws_Cons_length [OF this]
    show ?thesis
    proof (cases "skip_ws r")
      case Nil
      with cr(1) show ?thesis by (simp add: steps)
    next
      case (Cons d r')
      with cr skip_ws_Cons_length [OF Cons] "2.IH" [OF cr(1)] "2.prems" show ?thesis
        by (simp add: steps)
    qed
  qed
next
  case (4 n acc s)
  note steps = pelems.simps(2) [of "Suc n" acc s] pelems.simps(2) [of n acc s]
  have v: "pvalue (Suc n) s = pvalue n s"
    using 4 by simp
  show ?case
  proof (cases "pvalue n s")
    case None
    with v show ?thesis by (simp add: steps)
  next
    case (Some a)
    then obtain w r where w: "pvalue n s = Some (w, r)"
      by (cases a) simp
    show ?thesis
    proof (cases "skip_ws r")
      case Nil
      with v w show ?thesis by (simp add: steps)
    next
      case (Cons c r')
      with v w pvalue_length(1) [OF w] skip_ws_Cons_length [OF Cons] "4.IH"(2) [OF w] "4.prems"
      show ?thesis by (simp add: steps)
    qed
  qed
next
  case (6 n acc s)
  note steps = pmembers.simps(2) [of "Suc n" acc s] pmembers.simps(2) [of n acc s]
  show ?case
  proof (cases "skip_ws s")
    case Nil
    then show ?thesis by (simp add: steps)
  next
    case (Cons q r)
    note qr = this skip_ws_Cons_length [OF this]
    show ?thesis
    proof (cases "q = CHR 0x22 \<and> scan_string r \<noteq> None")
      case False
      with qr show ?thesis by (auto simp: steps split: option.split)
    next
      case True
      then obtain k r1 where k: "q = CHR 0x22" "scan_string r = Some (k, r1)"
        by auto
      note len1 = scan_string_length [OF k(2)]
      show ?thesis
      proof (cases "skip_ws r1")
        case Nil
        with qr k show ?thesis by (simp add: steps)
      next
        case (Cons d r2)
        note dr = this skip_ws_Cons_length [OF this]
        have v: "d = CHR '':'' \<Longrightarrow> pvalue (Suc n) r2 = pvalue n r2"
          using "6.IH"(1) [OF qr(1) k(1,2) _ dr(1)] qr(2) len1 dr(2) "6.prems" by simp
        show ?thesis
        proof (cases "d = CHR '':'' \<and> pvalue n r2 \<noteq> None")
          case False
          with qr k dr v show ?thesis by (auto simp: steps split: option.split)
        next
          case True
          then obtain w r3 where w: "d = CHR '':''" "pvalue n r2 = Some (w, r3)"
            by auto
          show ?thesis
          proof (cases "skip_ws r3")
            case Nil
            with qr k dr v w show ?thesis by (simp add: steps)
          next
            case (Cons e r4)
            with qr k dr v w len1 pvalue_length(1) [OF w(2)] skip_ws_Cons_length [OF Cons]
              "6.IH"(2) [OF qr(1) k(1,2) _ dr(1) w _ Cons] "6.prems"
            show ?thesis by (simp add: steps)
          qed
        qed
      qed
    qed
  qed
qed simp_all

lemma pvalue_fuel: "parse_fuel s \<le> n \<Longrightarrow> pvalue n s = pvalue (parse_fuel s) s"
proof (induction n)
  case (Suc n)
  then show ?case
    by (cases "parse_fuel s = Suc n") (simp_all add: pvalue_fuel_Suc parse_fuel_def)
qed (simp add: parse_fuel_def)


section \<open>Quoted strings read back\<close>

lemma radix_digit_hex: "n < 16 \<Longrightarrow> radix_digit (hex_digit n) = Some n"
proof -
  have "list_all (\<lambda>n. radix_digit (hex_digit n) = Some n) [0..<16]"
    by code_simp
  then show "n < 16 \<Longrightarrow> radix_digit (hex_digit n) = Some n"
    by (simp add: list_all_iff)
qed

lemma hex4_Cons:
  "hex4 (a # b # c # d # t)
     = (case radix_value 16 0 [a, b, c, d] of None \<Rightarrow> None | Some n \<Rightarrow> Some (n, t))"
  by (simp add: hex4_def del: radix_value.simps split: option.split)

lemma hex4_control:
  assumes "n < 32"
  shows "hex4 (CHR ''0'' # CHR ''0'' # hex_digit (n div 16) # hex_digit (n mod 16) # t) = Some (n, t)"
proof -
  have "radix_digit CHR ''0'' = Some 0"
    by (simp add: radix_digit_def)
  moreover have "n div 16 < 16" and "n mod 16 < 16"
    using assms by simp_all
  ultimately show ?thesis
    by (simp add: hex4_Cons radix_digit_hex)
qed

lemma scan_escape_control:
  assumes "(of_char c :: nat) < 32"
  shows "scan_escape (CHR ''u'' # CHR ''0'' # CHR ''0'' # hex_digit (of_char c div 16)
      # hex_digit (of_char c mod 16) # t) = Some ([c], t)"
proof -
  define n where "n = (of_char c :: nat)"
  have n: "n < 32"
    using assms by (simp add: n_def)
  then have "utf8 n = [char_of n]"
    by (simp add: utf8_def)
  then have "scan_escape (CHR ''u'' # CHR ''0'' # CHR ''0'' # hex_digit (n div 16)
      # hex_digit (n mod 16) # t) = Some ([char_of n], t)"
    using n hex4_control [OF n, of t] by (simp add: scan_escape_def)
  then show ?thesis
    by (simp add: n_def)
qed

lemma scan_string_escape:
  assumes "scan_escape s = Some ([c], t)"
  shows "scan_string (CHR 0x5C # s)
     = (case scan_string t of None \<Rightarrow> None | Some (y, r) \<Rightarrow> Some (c # y, r))"
  using assms by (simp split: option.split)

lemma scan_escape_simple: "escape_char e = Some c \<Longrightarrow> scan_escape (e # t) = Some ([c], t)"
  by (cases "e = CHR ''u''") (simp_all add: scan_escape_def escape_char_def [of "CHR ''u''"])

lemmas scan_escaped = scan_string_escape [OF scan_escape_simple]

lemma escape_char_simps:
  "escape_char CHR 0x22 = Some (CHR 0x22)" "escape_char CHR 0x5C = Some (CHR 0x5C)"
  "escape_char CHR ''b'' = Some (CHR 0x08)" "escape_char CHR ''f'' = Some (CHR 0x0C)"
  "escape_char CHR ''n'' = Some (CHR 0x0A)" "escape_char CHR ''r'' = Some (CHR 0x0D)"
  "escape_char CHR ''t'' = Some (CHR 0x09)"
  by (simp_all add: escape_char_def)

lemma scan_quote_char:
  "scan_string (quote_char c @ t)
     = (case scan_string t of None \<Rightarrow> None | Some (y, r) \<Rightarrow> Some (c # y, r))"
proof -
  consider "c \<in> set [CHR 0x22, CHR 0x5C, CHR 0x08, CHR 0x0C, CHR 0x0A, CHR 0x0D, CHR 0x09]"
    | "c \<notin> set [CHR 0x22, CHR 0x5C, CHR 0x08, CHR 0x0C, CHR 0x0A, CHR 0x0D, CHR 0x09]"
      "(of_char c :: nat) < 32"
    | "c \<notin> set [CHR 0x22, CHR 0x5C, CHR 0x08, CHR 0x0C, CHR 0x0A, CHR 0x0D, CHR 0x09]"
      "\<not> (of_char c :: nat) < 32"
    by blast
  then show ?thesis
  proof cases
    case 1
    then show ?thesis
      unfolding list.set insert_iff empty_iff
      by (elim disjE) (simp_all add: quote_char_def scan_escaped escape_char_simps split: option.split
          del: scan_string.simps)
  next
    case 2
    then show ?thesis
      using scan_string_escape [OF scan_escape_control] by (simp add: quote_char_def del: scan_string.simps)
  next
    case 3
    then show ?thesis
      by (simp add: quote_char_def)
  qed
qed

lemma scan_quoted: "scan_string (concat (map quote_char s) @ CHR 0x22 # r) = Some (s, r)"
  by (induction s) (simp_all add: scan_quote_char del: scan_string.simps(2), simp)

section \<open>JSON text reads back\<close>

text \<open>The values \<open>JSON.parse\<close> can return: finite doubles, objects in property order.\<close>

fun json_wf :: "jsval \<Rightarrow> bool" where
  "json_wf JUndef = False"
| "json_wf (JBig n) = False"
| "json_wf (JNum x) = (is_finite x \<and> is_double x)"
| "json_wf (JArr vs) = list_all json_wf vs"
| "json_wf (JObj kvs) = (list_all (\<lambda>(k, v). json_wf v) kvs \<and> obj_puts kvs [] = kvs)"
| "json_wf _ = True"

text \<open>The first byte decides the branch of the parser.\<close>

definition starts_number :: "char \<Rightarrow> bool" where
  "starts_number c \<longleftrightarrow> is_digit c \<or> c = CHR ''-''"

lemma starts_number_branch:
  assumes "starts_number c"
  shows "pvalue (Suc n) (c # s) = scan_atom (c # s)"
    and "scan_atom (c # s) = (case scan_json_number (c # s) of Some (x, r) \<Rightarrow> Some (JNum x, r) | None \<Rightarrow> None)"
proof -
  have "c \<notin> set [CHR 0x20, CHR 0x09, CHR 0x0A, CHR 0x0D, CHR 0x7B, CHR 0x5B, CHR 0x22,
      CHR ''t'', CHR ''f'', CHR ''n'']"
    using assms by (auto simp: starts_number_def is_digit_def)
  then show "pvalue (Suc n) (c # s) = scan_atom (c # s)"
    and "scan_atom (c # s) = (case scan_json_number (c # s) of Some (x, r) \<Rightarrow> Some (JNum x, r) | None \<Rightarrow> None)"
    by (auto simp: scan_atom_def parser_steps simp del: scan_json_number.simps)
qed

lemma scan_json_pos:
  assumes "is_double (Fin q)" and "0 < q" and "ends_number r"
  shows "\<exists>v c s. scan_json_unsigned (pos_to_string q @ r) = Some (v, r) \<and> round_double v = Fin q
    \<and> pos_to_string q = c # s \<and> is_digit c"
proof -
  obtain v c s where v: "scan_unsigned (pos_to_string q @ r) = (v, r)" "round_double v = Fin q"
    and c: "pos_to_string q = c # s" "is_digit c" "c = CHR ''0'' \<longrightarrow> (\<exists>s'. s = CHR ''.'' # s')"
    using scan_pos_to_string [OF assms] by blast
  have "scan_json_unsigned (c # s @ r) = Some (scan_unsigned (c # s @ r))"
  proof (cases "c = CHR ''0''")
    case True
    then obtain s' where "s = CHR ''.'' # s'"
      using c(3) by blast
    then have "span_digits (c # s @ r) = (''0'', s @ r)"
      using True by (simp add: span_digits_def)
    then show ?thesis
      using True by (simp add: scan_unsigned_def split: prod.split)
  next
    case False
    with c(2) show ?thesis by simp
  qed
  then show ?thesis
    using v c by auto
qed

lemma pvalue_number:
  assumes "is_finite x" "is_double x" and "ends_number r"
  shows "pvalue (Suc n) (num_to_string x @ r) = Some (JNum x, r)"
proof -
  obtain q where x: "x = Fin q"
    using assms(1) by (cases x) auto
  consider "q = 0" | "0 < q" | "q < 0" by linarith
  then show ?thesis
  proof cases
    case 1
    have "scan_json_number (CHR ''0'' # r) = Some (Fin 0, r)"
      using assms(3)
      by (simp add: scan_frac_ends scan_exp_ends decimal_rat_def dec_value_Cons digit_val_def
          round_double_def)
    then show ?thesis
      using 1 x by (simp add: starts_number_branch starts_number_def
          del: scan_json_number.simps)
  next
    case 2
    then obtain v c s where v: "scan_json_unsigned (pos_to_string q @ r) = Some (v, r)"
      "round_double v = Fin q" "pos_to_string q = c # s" "is_digit c"
      using scan_json_pos assms x by blast
    then show ?thesis
      using 2 x by (simp add: starts_number_branch starts_number_def
          del: scan_json_unsigned.simps)
  next
    case 3
    then have "is_double (Fin (- q))" "0 < - q"
      using assms(2) x by (simp_all add: is_double_uminus)
    then obtain v where v: "scan_json_unsigned (pos_to_string (- q) @ r) = Some (v, r)"
      "round_double v = Fin (- q)"
      using scan_json_pos assms(3) by blast
    have "round_double (- v) = Fin q"
      by (simp add: round_double_uminus v(2))
    then show ?thesis
      using 3 x v(1) by (simp add: starts_number_branch starts_number_def
          del: scan_json_unsigned.simps)
  qed
qed

text \<open>What it means that a value's text reads back, given enough fuel.\<close>

definition reads_back :: "jsval \<Rightarrow> bool" where
  "reads_back v \<longleftrightarrow>
     (\<exists>N. \<forall>n \<ge> N. \<forall>r. ends_number r \<longrightarrow> pvalue n (json_text v @ r) = Some (v, r))"

lemma reads_backI:
  "(\<And>n r. ends_number r \<Longrightarrow> pvalue (Suc n) (json_text v @ r) = Some (v, r)) \<Longrightarrow> reads_back v"
  unfolding reads_back_def by (intro exI [of _ 1]) (metis Suc_le_D One_nat_def)

lemma threshold_Suc: "(\<And>n. N \<le> n \<Longrightarrow> P (Suc n)) \<Longrightarrow> \<exists>N. \<forall>n \<ge> N. P n"
  by (metis Suc_le_D Suc_le_mono)

lemma pelems_text:
  assumes "\<And>v. v \<in> set vs \<Longrightarrow> reads_back v" and "vs \<noteq> []"
  shows "\<exists>N. \<forall>n \<ge> N. \<forall>acc r.
    pelems n acc (join '','' (map json_text vs) @ CHR 0x5D # r) = Some (JArr (acc @ vs), r)"
  using assms
proof (induction vs)
  case (Cons v vs)
  obtain N where N: "\<And>n r. N \<le> n \<Longrightarrow> ends_number r \<Longrightarrow> pvalue n (json_text v @ r) = Some (v, r)"
    using Cons.prems(1) [of v] by (auto simp: reads_back_def)
  show ?case
  proof (cases vs)
    case Nil
    have "pelems (Suc n) acc (json_text v @ CHR 0x5D # r) = Some (JArr (acc @ [v]), r)"
      if "N \<le> n" for n acc r
      using N [OF that, of "CHR 0x5D # r"] by (simp add: is_digit_def parser_steps)
    then show ?thesis
      unfolding Nil by (intro threshold_Suc [of N]) simp
  next
    case (Cons w ws)
    then have "\<exists>N. \<forall>n \<ge> N. \<forall>acc r.
        pelems n acc (join '','' (map json_text vs) @ CHR 0x5D # r) = Some (JArr (acc @ vs), r)"
      using Cons.IH Cons.prems(1) by simp
    then obtain M where M: "\<And>n acc r. M \<le> n \<Longrightarrow>
        pelems n acc (join '','' (map json_text vs) @ CHR 0x5D # r) = Some (JArr (acc @ vs), r)"
      by blast
    have j: "join '','' (map json_text (v # vs)) = json_text v @ CHR '','' # join '','' (map json_text vs)"
      using Cons by simp
    have "pelems (Suc n) acc (join '','' (map json_text (v # vs)) @ CHR 0x5D # r)
        = Some (JArr (acc @ v # vs), r)" if "N \<le> n" "M \<le> n" for n acc r
      using N [OF that(1), of "CHR '','' # join '','' (map json_text vs) @ CHR 0x5D # r"]
        M [OF that(2), of "acc @ [v]"]
      unfolding j by (simp add: is_digit_def parser_steps)
    then show ?thesis
      by (intro threshold_Suc [of "max N M"]) simp
  qed
qed simp


lemma quoted_text: "json_quote k @ s = CHR 0x22 # concat (map quote_char k) @ CHR 0x22 # s"
  by (simp add: json_quote_def)

lemma pmembers_text:
  assumes "\<And>k v. (k, v) \<in> set kvs \<Longrightarrow> reads_back v" and "kvs \<noteq> []"
  shows "\<exists>N. \<forall>n \<ge> N. \<forall>acc r.
    pmembers n acc (join '','' (map (\<lambda>(k, v). json_quote k @ CHR '':'' # json_text v) kvs) @ CHR 0x7D # r)
      = Some (JObj (obj_puts kvs acc), r)"
  using assms
proof (induction kvs)
  case (Cons kv kvs)
  obtain k v where kv: "kv = (k, v)"
    by fastforce
  obtain N where N: "\<And>n r. N \<le> n \<Longrightarrow> ends_number r \<Longrightarrow> pvalue n (json_text v @ r) = Some (v, r)"
    using Cons.prems(1) [of k v] kv by (auto simp: reads_back_def)
  show ?case
  proof (cases kvs)
    case Nil
    have "pmembers (Suc n) acc (json_quote k @ CHR '':'' # json_text v @ CHR 0x7D # r)
        = Some (JObj (obj_put k v acc), r)" if "N \<le> n" for n acc r
      using N [OF that, of "CHR 0x7D # r"]
      by (simp add: is_digit_def parser_steps quoted_text scan_quoted)
    then show ?thesis
      unfolding Nil kv by (intro threshold_Suc [of N]) (simp add: obj_puts_def)
  next
    case (Cons w ws)
    let ?rest = "join '','' (map (\<lambda>(k, v). json_quote k @ CHR '':'' # json_text v) kvs)"
    have "\<exists>N. \<forall>n \<ge> N. \<forall>acc r.
        pmembers n acc (?rest @ CHR 0x7D # r) = Some (JObj (obj_puts kvs acc), r)"
      by (rule Cons.IH) (use Cons.prems(1) Cons in auto)
    then obtain M where M: "\<And>n acc r. M \<le> n \<Longrightarrow>
        pmembers n acc (?rest @ CHR 0x7D # r) = Some (JObj (obj_puts kvs acc), r)"
      by blast
    have j: "join '','' (map (\<lambda>(k, v). json_quote k @ CHR '':'' # json_text v) (kv # kvs))
        = json_quote k @ CHR '':'' # json_text v @ CHR '','' # ?rest"
      using Cons kv by simp
    have "pmembers (Suc n) acc (json_quote k @ CHR '':'' # json_text v @ CHR '','' # ?rest @ CHR 0x7D # r)
        = Some (JObj (obj_puts (kv # kvs) acc), r)" if "N \<le> n" "M \<le> n" for n acc r
      using N [OF that(1), of "CHR '','' # ?rest @ CHR 0x7D # r"] M [OF that(2), of "obj_put k v acc"]
      by (simp add: is_digit_def parser_steps quoted_text scan_quoted kv) (simp add: obj_puts_def)
    then show ?thesis
      unfolding j by (intro threshold_Suc [of "max N M"]) simp
  qed
qed simp

lemma json_text_branches:
  "pvalue (Suc n) (CHR 0x22 # s) = (case scan_string s of None \<Rightarrow> None | Some (x, r) \<Rightarrow> Some (JStr x, r))"
  "pvalue (Suc n) (CHR 0x5B # CHR 0x5D # s) = Some (JArr [], s)"
  "pvalue (Suc n) (CHR 0x7B # CHR 0x7D # s) = Some (JObj [], s)"
  "c \<notin> set [CHR 0x20, CHR 0x09, CHR 0x0A, CHR 0x0D, CHR 0x5D] \<Longrightarrow>
     pvalue (Suc n) (CHR 0x5B # c # s) = pelems n [] (c # s)"
  "c \<notin> set [CHR 0x20, CHR 0x09, CHR 0x0A, CHR 0x0D, CHR 0x7D] \<Longrightarrow>
     pvalue (Suc n) (CHR 0x7B # c # s) = pmembers n [] (c # s)"
  by (simp_all add: parser_steps)

lemma json_wf_not_undef: "json_wf v \<Longrightarrow> v \<noteq> JUndef"
  by auto

lemma json_text_starts:
  assumes "json_wf v"
  shows "\<exists>c s. json_text v = c # s \<and> c \<notin> set [CHR 0x20, CHR 0x09, CHR 0x0A, CHR 0x0D, CHR 0x5D]"
proof (cases v)
  case (JNum x)
  then obtain q where q: "x = Fin q" "is_double (Fin q)"
    using assms by (cases x) auto
  show ?thesis
  proof (cases "0 < q")
    case True
    then obtain c s where "pos_to_string q = c # s" "is_digit c"
      using scan_json_pos [OF q(2) True, of "[]"] by auto
    then show ?thesis
      using JNum q True by (auto simp: is_digit_def)
  next
    case False
    then show ?thesis
      using JNum q by auto
  qed
qed (use assms in \<open>auto simp: json_quote_def\<close>)


lemma json_wf_reads_back: "json_wf v \<Longrightarrow> reads_back v"
proof (induction v)
  case (JBool b)
  show ?case
    by (rule reads_backI) (simp add: parser_steps scan_atom_def)
next
  case JNull
  show ?case
    by (rule reads_backI) (simp add: parser_steps scan_atom_def)
next
  case (JNum x)
  then show ?case
    by (intro reads_backI) (simp add: pvalue_number)
next
  case (JStr s)
  show ?case
    by (rule reads_backI) (simp add: json_text_branches quoted_text scan_quoted)
next
  case (JArr vs)
  show ?case
  proof (cases vs)
    case Nil
    show ?thesis
      unfolding Nil by (rule reads_backI) (simp add: json_text_branches)
  next
    case (Cons w ws)
    have "\<exists>N. \<forall>n \<ge> N. \<forall>acc r.
        pelems n acc (join '','' (map json_text vs) @ CHR 0x5D # r) = Some (JArr (acc @ vs), r)"
      by (rule pelems_text) (use JArr Cons in \<open>auto simp: list_all_iff\<close>)
    then obtain N where N: "\<And>n acc r. N \<le> n \<Longrightarrow>
        pelems n acc (join '','' (map json_text vs) @ CHR 0x5D # r) = Some (JArr (acc @ vs), r)"
      by blast
    obtain c s where cs: "json_text w = c # s" "c \<notin> set [CHR 0x20, CHR 0x09, CHR 0x0A, CHR 0x0D, CHR 0x5D]"
      using json_text_starts [of w] JArr.prems Cons by auto
    then obtain s' where s': "join '','' (map json_text vs) = c # s'"
      using Cons by (cases ws) auto
    have "pvalue (Suc n) (json_text (JArr vs) @ r) = Some (JArr vs, r)" if "N \<le> n" for n r
      using N [OF that, of "[]" r] cs(2) by (simp add: s' json_text_branches)
    then show ?thesis
      unfolding reads_back_def by (intro threshold_Suc [of N]) simp
  qed
next
  case (JObj kvs)
  have wf: "json_wf v" if "(k, v) \<in> set kvs" for k v
    using JObj.prems that by (auto simp: list_all_iff)
  have keep: "filter (\<lambda>(k, v). v \<noteq> JUndef) kvs = kvs"
    by (rule filter_all_id) (use wf json_wf_not_undef in auto)
  have obj_text: "json_text (JObj kvs) = CHR 0x7B
      # join '','' (map (\<lambda>(k, v). json_quote k @ CHR '':'' # json_text v) kvs) @ [CHR 0x7D]"
    by (simp add: keep comp_def) (simp add: case_prod_beta')
  show ?case
  proof (cases kvs)
    case Nil
    show ?thesis
      unfolding Nil by (rule reads_backI) (simp add: json_text_branches)
  next
    case (Cons w ws)
    let ?m = "join '','' (map (\<lambda>(k, v). json_quote k @ CHR '':'' # json_text v) kvs)"
    have "\<exists>N. \<forall>n \<ge> N. \<forall>acc r.
        pmembers n acc (?m @ CHR 0x7D # r) = Some (JObj (obj_puts kvs acc), r)"
      by (rule pmembers_text) (use JObj.IH wf in \<open>fastforce simp: Cons\<close>, use Cons in simp)
    then obtain N where N: "\<And>n acc r. N \<le> n \<Longrightarrow>
        pmembers n acc (?m @ CHR 0x7D # r) = Some (JObj (obj_puts kvs acc), r)"
      by blast
    have s': "?m = CHR 0x22 # tl ?m"
      using Cons by (cases ws) (simp_all add: json_quote_def split_beta)
    have "pvalue (Suc n) (json_text (JObj kvs) @ r) = Some (JObj kvs, r)" if "N \<le> n" for n r
    proof -
      have "pvalue (Suc n) (json_text (JObj kvs) @ r) = pmembers n [] (?m @ CHR 0x7D # r)"
        unfolding obj_text append.append_Cons append_assoc append.append_Nil
        by (subst (1 2) s') (simp add: json_text_branches)
      then show ?thesis
        using N [OF that, of "[]" r] JObj.prems by simp
    qed
    then show ?thesis
      unfolding reads_back_def by (intro threshold_Suc [of N]) simp
  qed
qed simp_all

theorem json_round_trip: "json_wf v \<Longrightarrow> json_parse (json_text v) = Some v"
proof -
  assume "json_wf v"
  then obtain N where N: "\<And>n r. N \<le> n \<Longrightarrow> ends_number r \<Longrightarrow> pvalue n (json_text v @ r) = Some (v, r)"
    using json_wf_reads_back unfolding reads_back_def by blast
  have "pvalue (max N (parse_fuel (json_text v))) (json_text v) = Some (v, [])"
    using N [of "max N (parse_fuel (json_text v))" "[]"] by simp
  then have "pvalue (parse_fuel (json_text v)) (json_text v) = Some (v, [])"
    using pvalue_fuel [of "json_text v" "max N (parse_fuel (json_text v))"] by simp
  then show ?thesis
    by (simp add: json_parse_def)
qed

interpretation json: codec json_text json_parse json_wf
  by unfold_locales (rule json_round_trip)

section \<open>JSON text is one line\<close>

definition printable :: "char \<Rightarrow> bool" where
  "printable c \<longleftrightarrow> 32 \<le> (of_char c :: nat)"

lemma digit_printable: "is_digit c \<Longrightarrow> printable c"
  by (simp add: is_digit_def printable_def)

lemma digits_printable: "list_all is_digit s \<Longrightarrow> list_all printable s"
  by (auto simp: list_all_iff digit_printable)

lemma format_digits_printable:
  "list_all is_digit ds \<Longrightarrow> list_all printable (format_digits ds n)"
  using digits_printable [OF nat_to_dec_digits] digits_printable [OF zeros_digits]
    digits_printable [of ds]
  by (auto simp: format_digits_def exp_suffix_def Let_def list_all_iff printable_def
      dest: in_set_takeD in_set_dropD)

lemma pos_to_string_printable: "list_all printable (pos_to_string q)"
  by (auto simp: pos_to_string_def Let_def nat_to_dec_digits
      intro!: format_digits_printable strip_zeros_digits split: option.split)

lemma num_to_string_printable: "list_all printable (num_to_string x)"
  by (cases x) (auto simp: pos_to_string_printable, auto simp: printable_def)

lemma hex_digit_printable: "n < 16 \<Longrightarrow> printable (hex_digit n)"
proof -
  have "list_all (\<lambda>n. printable (hex_digit n)) [0..<16]"
    by code_simp
  then show "n < 16 \<Longrightarrow> printable (hex_digit n)"
    by (simp add: list_all_iff)
qed

lemma quote_char_printable: "list_all printable (quote_char c)"
proof (cases "(of_char c :: nat) < 32")
  case True
  then have "printable (hex_digit (of_char c div 16))" "printable (hex_digit (of_char c mod 16))"
    by (simp_all add: hex_digit_printable)
  then show ?thesis
    by (simp add: quote_char_def) (simp add: printable_def)
next
  case False
  then show ?thesis
    by (simp add: quote_char_def) (simp add: printable_def not_less)
qed

lemma json_quote_printable: "list_all printable (json_quote s)"
  using quote_char_printable by (auto simp: json_quote_def list_all_iff) (simp_all add: printable_def)

lemma join_printable:
  "list_all printable sep \<Longrightarrow> list_all (list_all printable) xs \<Longrightarrow> list_all printable (join sep xs)"
  by (induction sep xs rule: join.induct) simp_all

lemma json_text_printable: "list_all printable (json_text v)"
proof (induction v)
  case (JBig n)
  have "list_all printable (nat_to_dec m)" for m
    by (rule digits_printable [OF nat_to_dec_digits])
  then show ?case
    by (simp add: bigint_to_string_def) (simp add: printable_def)
next
  case (JArr vs)
  then have "list_all printable (join '','' (map json_text vs))"
    by (intro join_printable) (auto simp: list_all_iff printable_def)
  then show ?case
    by simp (simp add: printable_def)
next
  case (JObj kvs)
  let ?ts = "map (\<lambda>(k, t). json_quote k @ CHR '':'' # t)
      (map (\<lambda>(k, v). (k, json_text v)) (filter (\<lambda>(k, v). v \<noteq> JUndef) kvs))"
  have "list_all printable (json_text w)" if "(k, w) \<in> set kvs" for k w
    using JObj that by (fastforce simp: fsts.simps snds.simps)
  then have "list_all (list_all printable) ?ts"
    using json_quote_printable by (auto simp: list_all_iff printable_def)
  then have "list_all printable (join '','' ?ts)"
    by (intro join_printable) (simp_all add: printable_def)
  then show ?case
    by (simp del: map_map) (simp add: printable_def)
qed (simp_all add: num_to_string_printable json_quote_printable, simp_all add: printable_def)

lemma json_text_one_line: "CHR 0x0A \<notin> set (json_text v)"
  using json_text_printable [of v] by (auto simp: list_all_iff printable_def)

end
