(* ===== verification/JsConvert.thy ===== *)
theory JsConvert
  imports JsJsonText
begin

section \<open>Converting unknown values\<close>

text \<open>
  \<open>String(v)\<close>, \<open>Number(v)\<close> and \<open>BigInt(v)\<close> on the values \<open>JSON.parse\<close> returns.  An array
  converts through the text of its elements.  An object converts through the inherited
  \<open>toString\<close>, unless it has an own property of that name: such a property, coming from
  JSON, is not callable, and the conversion ends in a TypeError.
\<close>

definition no_primitive :: js_error where
  "no_primitive = TypeError ''Cannot convert object to primitive value''"

fun js_to_string :: "jsval \<Rightarrow> string result"
  and js_elem_strings :: "jsval list \<Rightarrow> string list result" where
  "js_to_string JUndef = Inr ''undefined''"
| "js_to_string JNull = Inr ''null''"
| "js_to_string (JBool b) = Inr (if b then ''true'' else ''false'')"
| "js_to_string (JNum x) = Inr (num_to_string x)"
| "js_to_string (JBig n) = Inr (bigint_to_string n)"
| "js_to_string (JStr s) = Inr s"
| "js_to_string (JArr vs) = rbind (js_elem_strings vs) (\<lambda>ss. Inr (join '','' ss))"
| "js_to_string (JObj kvs) =
     (if map_of kvs ''toString'' = None then Inr ''[object Object]'' else Inl no_primitive)"
| "js_elem_strings [] = Inr []"
| "js_elem_strings (v # vs) =
     rbind (if v = JUndef \<or> v = JNull then Inr [] else js_to_string v)
       (\<lambda>s. rbind (js_elem_strings vs) (\<lambda>ss. Inr (s # ss)))"

text \<open>\<open>Number(v)\<close>.\<close>

fun js_to_number :: "jsval \<Rightarrow> jsnum result" where
  "js_to_number JUndef = Inr NaN"
| "js_to_number JNull = Inr (Fin 0)"
| "js_to_number (JBool b) = Inr (Fin (if b then 1 else 0))"
| "js_to_number (JNum x) = Inr x"
| "js_to_number (JBig n) = Inr (num_of_bigint n)"
| "js_to_number (JStr s) = Inr (string_to_number s)"
| "js_to_number v = rbind (js_to_string v) (\<lambda>s. Inr (string_to_number s))"

text \<open>\<open>BigInt(v)\<close>.\<close>

definition bigint_of_string :: "string \<Rightarrow> int result" where
  "bigint_of_string s =
     from_option (SyntaxError (''Cannot convert '' @ s @ '' to a BigInt'')) (string_to_bigint s)"

fun js_to_bigint :: "jsval \<Rightarrow> int result" where
  "js_to_bigint JUndef = Inl (TypeError ''Cannot convert undefined to a BigInt'')"
| "js_to_bigint JNull = Inl (TypeError ''Cannot convert null to a BigInt'')"
| "js_to_bigint (JBool b) = Inr (if b then 1 else 0)"
| "js_to_bigint (JNum x) = bigint_of_num x"
| "js_to_bigint (JBig n) = Inr n"
| "js_to_bigint (JStr s) = bigint_of_string s"
| "js_to_bigint v = rbind (js_to_string v) bigint_of_string"

text \<open>\<open>typeof v === "object" && v !== null\<close>.\<close>

fun is_js_object :: "jsval \<Rightarrow> bool" where
  "is_js_object (JArr vs) = True"
| "is_js_object (JObj kvs) = True"
| "is_js_object _ = False"

lemma bigint_of_printed [simp]: "bigint_of_string (bigint_to_string n) = Inr n"
  by (simp add: bigint_of_string_def bigint_round_trip)

text \<open>A conversion fails only with a TypeError, and never on a string, number or boolean.\<close>

lemma js_to_string_error: "js_to_string v = Inl e \<Longrightarrow> e = no_primitive"
  "js_elem_strings vs = Inl e \<Longrightarrow> e = no_primitive"
  by (induction v and vs arbitrary: e and e rule: js_to_string_js_elem_strings.induct)
     (auto simp: result_simps split: if_splits)

end
