(* ===== verification/IntentTypes.thy ===== *)
theory IntentTypes
  imports JsConvert
begin

section \<open>The SDK's data model\<close>

text \<open>
  The types of packages/sdk/src/types.ts.  BigInt fields are \<open>int\<close>, \<open>number\<close> fields are
  \<open>jsnum\<close>, addresses are strings.
\<close>

type_synonym stellar_address = string

record trader_intent =
  trader :: stellar_address
  sellToken :: stellar_address
  buyToken :: stellar_address
  sellAmount :: int
  minBuyAmount :: int
  maxSlippageBps :: jsnum
  deadline :: jsnum
  nonce :: int
  solverFeeBps :: jsnum

datatype intent_status = Active | Filled | Cancelled | Expired

fun status_code :: "intent_status \<Rightarrow> nat" where
  "status_code Active = 0"
| "status_code Filled = 1"
| "status_code Cancelled = 2"
| "status_code Expired = 3"

record fill_receipt =
  fr_intentHash :: string
  fr_solver :: stellar_address
  fr_boughtAmount :: int
  fr_timestamp :: jsnum

record client_options =
  opt_contractId :: string
  opt_rpcUrl :: string
  opt_networkPassphrase :: string
  opt_publicKey :: "string option"
  opt_allowHttp :: "bool option"

datatype submit_status = SUCCESS | FAILED | NOT_FOUND

record submit_result =
  sr_hash :: string
  sr_status :: submit_status
  sr_ledger :: "jsnum option"

record network =
  net_rpcUrl :: string
  net_passphrase :: string

datatype network_name = Testnet | Futurenet | Mainnet

fun NETWORKS :: "network_name \<Rightarrow> network" where
  "NETWORKS Testnet = \<lparr>net_rpcUrl = ''https://soroban-testnet.stellar.org'',
     net_passphrase = ''Test SDF Network ; September 2015''\<rparr>"
| "NETWORKS Futurenet = \<lparr>net_rpcUrl = ''https://rpc-futurenet.stellar.org'',
     net_passphrase = ''Test SDF Future Network ; October 2022''\<rparr>"
| "NETWORKS Mainnet = \<lparr>net_rpcUrl = ''https://mainnet.sorobanrpc.com'',
     net_passphrase = ''Public Global Stellar Network ; September 2015''\<rparr>"

text \<open>The numeric codes tell the statuses apart.\<close>

lemma status_code_inj: "status_code a = status_code b \<Longrightarrow> a = b"
  by (cases a; cases b) simp_all

end
