(* ===== verification/Intent.thy ===== *)
theory Intent
  imports IntentTypes
begin

section \<open>Building and validating intents\<close>

text \<open>
  packages/sdk/src/intent.ts up to the builder: \<open>toBigInt\<close>, the assertions,
  \<open>validateIntent\<close>, \<open>nowSeconds\<close> and \<open>IntentBuilder\<close>.  Whether a string is a Stellar
  address is decided by the \<open>Address\<close> constructor of the Stellar SDK, the parameter
  \<open>is_address\<close>; the clock is a parameter of the functions that read it.
\<close>

definition BPS_DENOMINATOR :: rat where
  "BPS_DENOMINATOR = 10000"

definition DEFAULT_INTENT_TTL_SECONDS :: rat where
  "DEFAULT_INTENT_TTL_SECONDS = 300"

definition toBigInt :: "jsval \<Rightarrow> string \<Rightarrow> int result" where
  "toBigInt v field = (case v of
       JBig n \<Rightarrow> Inr n
     | JNum x \<Rightarrow>
         if \<not> is_integer x then Inl (IntentValidationError (field @ '' must be an integer''))
         else bigint_of_num x
     | _ \<Rightarrow> rcatch (js_to_bigint v)
         (\<lambda>_. rbind (js_to_string v)
           (\<lambda>s. Inl (IntentValidationError (field @ '' is not a valid integer: '' @ s)))))"

definition assertAddress :: "(string \<Rightarrow> bool) \<Rightarrow> string \<Rightarrow> string \<Rightarrow> stellar_address result" where
  "assertAddress is_address v field =
     (if is_address v then Inr v
      else Inl (IntentValidationError (field @ '' is not a valid Stellar address: '' @ v)))"

definition assertBps :: "jsnum \<Rightarrow> string \<Rightarrow> jsnum result" where
  "assertBps v field =
     (if \<not> is_integer v then
        Inl (IntentValidationError (field @ '' must be an integer number of basis points''))
      else if js_less v (Fin 0) \<or> js_less (Fin BPS_DENOMINATOR) v then
        Inl (IntentValidationError (field @ '' must be between 0 and 10000''))
      else Inr v)"

definition validateIntent :: "(string \<Rightarrow> bool) \<Rightarrow> trader_intent \<Rightarrow> unit result" where
  "validateIntent is_address i =
     rbind (assertAddress is_address (trader i) ''trader'') (\<lambda>_.
     rbind (assertAddress is_address (sellToken i) ''sellToken'') (\<lambda>_.
     rbind (assertAddress is_address (buyToken i) ''buyToken'') (\<lambda>_.
     if sellToken i = buyToken i then
       Inl (IntentValidationError ''sellToken and buyToken must differ'')
     else if sellAmount i \<le> 0 then
       Inl (IntentValidationError ''sellAmount must be greater than zero'')
     else if minBuyAmount i \<le> 0 then
       Inl (IntentValidationError ''minBuyAmount must be greater than zero'')
     else
       rbind (assertBps (maxSlippageBps i) ''maxSlippageBps'') (\<lambda>_.
       rbind (assertBps (solverFeeBps i) ''solverFeeBps'') (\<lambda>_.
       if \<not> is_integer (deadline i) \<or> js_leq (deadline i) (Fin 0) then
         Inl (IntentValidationError ''deadline must be a positive unix timestamp in seconds'')
       else if nonce i < 0 then
         Inl (IntentValidationError ''nonce must not be negative'')
       else Inr ())))))"

text \<open>\<open>date_now\<close> is the value of \<open>Date.now()\<close>, in milliseconds.\<close>

definition nowSeconds :: "jsnum \<Rightarrow> jsnum" where
  "nowSeconds date_now = js_floor (js_div_pos date_now 1000)"

subsection \<open>The builder\<close>

record intent_builder =
  b_trader :: "stellar_address option"
  b_sellToken :: "stellar_address option"
  b_buyToken :: "stellar_address option"
  b_sellAmount :: "int option"
  b_minBuyAmount :: "int option"
  b_maxSlippageBps :: "jsnum option"
  b_deadline :: "jsnum option"
  b_nonce :: "int option"
  b_solverFeeBps :: jsnum

definition new_builder :: intent_builder where
  "new_builder = \<lparr>b_trader = None, b_sellToken = None, b_buyToken = None, b_sellAmount = None,
     b_minBuyAmount = None, b_maxSlippageBps = None, b_deadline = None, b_nonce = None,
     b_solverFeeBps = Fin 0\<rparr>"

text \<open>A setter returns the builder as it is afterwards, and how the call ended.\<close>

definition setTrader :: "stellar_address \<Rightarrow> intent_builder \<Rightarrow> intent_builder \<times> unit result" where
  "setTrader address b = (b\<lparr>b_trader := Some address\<rparr>, Inr ())"

definition setPair ::
  "stellar_address \<Rightarrow> stellar_address \<Rightarrow> intent_builder \<Rightarrow> intent_builder \<times> unit result" where
  "setPair sell buy b = (b\<lparr>b_sellToken := Some sell, b_buyToken := Some buy\<rparr>, Inr ())"

definition setAmounts :: "jsval \<Rightarrow> jsval \<Rightarrow> intent_builder \<Rightarrow> intent_builder \<times> unit result" where
  "setAmounts sell minBuy b = (case toBigInt sell ''sellAmount'' of
       Inl e \<Rightarrow> (b, Inl e)
     | Inr s \<Rightarrow>
         let b1 = b\<lparr>b_sellAmount := Some s\<rparr> in
         (case toBigInt minBuy ''minBuyAmount'' of
            Inl e \<Rightarrow> (b1, Inl e)
          | Inr m \<Rightarrow> (b1\<lparr>b_minBuyAmount := Some m\<rparr>, Inr ())))"

definition setSlippageBps :: "jsnum \<Rightarrow> intent_builder \<Rightarrow> intent_builder \<times> unit result" where
  "setSlippageBps bps b = (b\<lparr>b_maxSlippageBps := Some bps\<rparr>, Inr ())"

definition setSolverFeeBps :: "jsnum \<Rightarrow> intent_builder \<Rightarrow> intent_builder \<times> unit result" where
  "setSolverFeeBps bps b = (b\<lparr>b_solverFeeBps := bps\<rparr>, Inr ())"

definition setNonce :: "jsval \<Rightarrow> intent_builder \<Rightarrow> intent_builder \<times> unit result" where
  "setNonce n b = (case toBigInt n ''nonce'' of
       Inl e \<Rightarrow> (b, Inl e)
     | Inr m \<Rightarrow> (b\<lparr>b_nonce := Some m\<rparr>, Inr ()))"

text \<open>The optional \<open>now\<close> argument defaults to the clock.\<close>

definition now_or_clock :: "jsnum \<Rightarrow> jsnum option \<Rightarrow> jsnum" where
  "now_or_clock date_now now = (case now of Some n \<Rightarrow> n | None \<Rightarrow> nowSeconds date_now)"

definition setDeadline ::
  "jsnum \<Rightarrow> jsnum \<Rightarrow> jsnum option \<Rightarrow> intent_builder \<Rightarrow> intent_builder \<times> unit result" where
  "setDeadline date_now secondsFromNow now b =
     (if \<not> is_integer secondsFromNow \<or> js_leq secondsFromNow (Fin 0) then
        (b, Inl (IntentValidationError ''secondsFromNow must be a positive integer''))
      else (b\<lparr>b_deadline := Some (js_add (now_or_clock date_now now) secondsFromNow)\<rparr>, Inr ()))"

definition setDeadlineTimestamp :: "jsnum \<Rightarrow> intent_builder \<Rightarrow> intent_builder \<times> unit result" where
  "setDeadlineTimestamp d b = (b\<lparr>b_deadline := Some d\<rparr>, Inr ())"

definition required :: "'a option \<Rightarrow> string \<Rightarrow> 'a result" where
  "required x field = from_option (IntentValidationError (field @ '' is required'')) x"

definition build ::
  "(string \<Rightarrow> bool) \<Rightarrow> jsnum \<Rightarrow> jsnum option \<Rightarrow> intent_builder \<Rightarrow> trader_intent result" where
  "build is_address date_now now b = (let t = now_or_clock date_now now in
     rbind (required (b_trader b) ''trader'') (\<lambda>tr.
     rbind (required (b_sellToken b) ''sellToken'') (\<lambda>st.
     rbind (required (b_buyToken b) ''buyToken'') (\<lambda>bt.
     rbind (required (b_sellAmount b) ''sellAmount'') (\<lambda>sa.
     rbind (required (b_minBuyAmount b) ''minBuyAmount'') (\<lambda>mb.
     rbind (required (b_maxSlippageBps b) ''maxSlippageBps'') (\<lambda>sl.
     rbind (case b_nonce b of Some n \<Rightarrow> Inr n | None \<Rightarrow> bigint_of_num date_now) (\<lambda>n.
     let i = \<lparr>trader = tr, sellToken = st, buyToken = bt, sellAmount = sa, minBuyAmount = mb,
              maxSlippageBps = sl,
              deadline = (case b_deadline b of Some d \<Rightarrow> d
                          | None \<Rightarrow> js_add t (Fin DEFAULT_INTENT_TTL_SECONDS)),
              nonce = n, solverFeeBps = b_solverFeeBps b\<rparr>
     in rbind (validateIntent is_address i) (\<lambda>_.
        if js_leq (deadline i) t then
          Inl (IntentValidationError ''deadline must be in the future'')
        else Inr i)))))))))"

text \<open>A chain of setters stops at the first throw.\<close>

fun chain :: "(intent_builder \<Rightarrow> intent_builder \<times> unit result) list \<Rightarrow> intent_builder
    \<Rightarrow> intent_builder \<times> unit result" where
  "chain [] b = (b, Inr ())"
| "chain (f # fs) b = (case f b of (b', Inl e) \<Rightarrow> (b', Inl e) | (b', Inr _) \<Rightarrow> chain fs b')"

lemmas setter_defs = setTrader_def setPair_def setAmounts_def setSlippageBps_def
  setSolverFeeBps_def setNonce_def setDeadline_def setDeadlineTimestamp_def

section \<open>What a valid intent is\<close>

text \<open>The specification: a conjunction, without order or messages.\<close>

definition bps_ok :: "jsnum \<Rightarrow> bool" where
  "bps_ok x \<longleftrightarrow> (\<exists>n::int. x = Fin (of_int n) \<and> 0 \<le> n \<and> n \<le> 10000)"

definition intent_valid :: "(string \<Rightarrow> bool) \<Rightarrow> trader_intent \<Rightarrow> bool" where
  "intent_valid is_address i \<longleftrightarrow>
     is_address (trader i) \<and> is_address (sellToken i) \<and> is_address (buyToken i) \<and>
     sellToken i \<noteq> buyToken i \<and> 0 < sellAmount i \<and> 0 < minBuyAmount i \<and>
     bps_ok (maxSlippageBps i) \<and> bps_ok (solverFeeBps i) \<and>
     (\<exists>d::int. deadline i = Fin (of_int d) \<and> 0 < d) \<and> 0 \<le> nonce i"

lemma is_integer_iff: "is_integer x \<longleftrightarrow> (\<exists>n::int. x = Fin (of_int n))"
proof (cases x)
  case (Fin q)
  then show ?thesis
    by (auto intro: exI [of _ "\<lfloor>q\<rfloor>"])
qed auto

lemma assertAddress_ok: "assertAddress a v f = Inr w \<longleftrightarrow> a v \<and> w = v"
  by (auto simp: assertAddress_def)

lemma assertBps_ok: "assertBps v f = Inr w \<longleftrightarrow> bps_ok v \<and> w = v"
  by (auto simp: assertBps_def is_integer_iff bps_ok_def BPS_DENOMINATOR_def not_less)

lemma deadline_ok_iff:
  "\<not> (\<not> is_integer x \<or> js_leq x (Fin 0)) \<longleftrightarrow> (\<exists>d::int. x = Fin (of_int d) \<and> 0 < d)"
  by (auto simp: is_integer_iff not_le)

lemma validate_ok: "validateIntent a i = Inr () \<longleftrightarrow> intent_valid a i"
  unfolding validateIntent_def intent_valid_def
  by (simp only: result_simps if_splits assertAddress_ok assertBps_ok)
     (auto simp: deadline_ok_iff [symmetric] assertAddress_ok assertBps_ok result_simps split: if_splits)

lemma validate_error:
  assumes "validateIntent a i = Inl e"
  shows "\<exists>m. e = IntentValidationError m"
  using assms unfolding validateIntent_def
  by (auto simp: result_simps assertAddress_def assertBps_def split: if_splits)

section \<open>Properties of validation\<close>

text \<open>(C21) \<open>validateIntent\<close> decides exactly the documented notion of a valid intent: it
  returns on valid intents, and on every other input it throws an
  \<open>IntentValidationError\<close>, never another error.\<close>

theorem validateIntent_decides:
  "case validateIntent A i of
     Inr _ \<Rightarrow> intent_valid A i
   | Inl e \<Rightarrow> \<not> intent_valid A i \<and> (\<exists>m. e = IntentValidationError m)"
  using validate_ok [of A i] validate_error [of A i] by (auto split: sum.split)

section \<open>Properties of the builder\<close>

text \<open>\<open>build\<close> returns exactly the intents assembled from the fields that were set (with
  the default deadline of 300 seconds from now and the clock in milliseconds as nonce),
  that are valid and whose deadline has not passed.\<close>

lemma build_returns_iff:
  "build A date_now now b = Inr i \<longleftrightarrow>
     b_trader b = Some (trader i) \<and> b_sellToken b = Some (sellToken i) \<and>
     b_buyToken b = Some (buyToken i) \<and> b_sellAmount b = Some (sellAmount i) \<and>
     b_minBuyAmount b = Some (minBuyAmount i) \<and>
     b_maxSlippageBps b = Some (maxSlippageBps i) \<and> b_solverFeeBps b = solverFeeBps i \<and>
     (case b_deadline b of
        Some d \<Rightarrow> deadline i = d
      | None \<Rightarrow> deadline i = js_add (now_or_clock date_now now) (Fin 300)) \<and>
     (case b_nonce b of
        Some n \<Rightarrow> nonce i = n
      | None \<Rightarrow> date_now = Fin (of_int (nonce i))) \<and>
     intent_valid A i \<and> \<not> js_leq (deadline i) (now_or_clock date_now now)"
proof -
  have clock: "bigint_of_num date_now = Inr n \<longleftrightarrow> date_now = Fin (of_int n)" for n
    by (cases date_now) (auto simp: is_integer_iff elim: Ints_cases)
  show ?thesis
    by (cases i)
       (auto simp: build_def required_def result_simps Let_def validate_ok clock
         DEFAULT_INTENT_TTL_SECONDS_def split: option.splits if_splits)
qed

text \<open>(C34) Every valid intent can be built: the chain of setters ends without a throw, a
  deadline a positive number of seconds ahead of the clock is computed exactly, and
  \<open>build\<close> at that time returns the intent itself.\<close>

theorem builder_builds_every_valid_intent:
  assumes "intent_valid A i" and "deadline i = Fin (of_int (n + s))"
    and "0 \<le> n" and "0 < s" and "n + s \<le> 2 ^ 53"
  shows "\<exists>b. chain
      [setTrader (trader i), setPair (sellToken i) (buyToken i),
       setAmounts (JBig (sellAmount i)) (JBig (minBuyAmount i)),
       setSlippageBps (maxSlippageBps i), setSolverFeeBps (solverFeeBps i),
       setNonce (JBig (nonce i)), setDeadline date_now (Fin (of_int s)) (Some (Fin (of_int n)))]
      new_builder = (b, Inr ()) \<and>
    build A date_now (Some (Fin (of_int n))) b = Inr i"
proof -
  have "js_add (Fin (of_int n)) (Fin (of_int s)) = deadline i"
    using assms round_double_of_int [of "n + s"] by simp
  moreover have "validateIntent A i = Inr ()"
    using assms by (simp add: validate_ok)
  ultimately show ?thesis
    using assms
    by (cases i)
       (simp add: setter_defs toBigInt_def now_or_clock_def build_def new_builder_def required_def
         Let_def)
qed

definition sample_intent :: trader_intent where
  "sample_intent = \<lparr>trader = ''T'', sellToken = ''A'', buyToken = ''B'', sellAmount = 1000,
     minBuyAmount = 990, maxSlippageBps = Fin (of_int 50), deadline = Fin (of_int 1300),
     nonce = 7, solverFeeBps = Fin (of_int 10)\<rparr>"

lemma sample_intent_valid: "intent_valid (\<lambda>a. a \<noteq> []) sample_intent"
  unfolding validate_ok [symmetric] by (simp add: sample_intent_def validateIntent_def
      assertAddress_def assertBps_def BPS_DENOMINATOR_def)

theorem builder_builds_every_valid_intent_witness:
  "\<exists>b. chain
      [setTrader (trader sample_intent), setPair (sellToken sample_intent) (buyToken sample_intent),
       setAmounts (JBig (sellAmount sample_intent)) (JBig (minBuyAmount sample_intent)),
       setSlippageBps (maxSlippageBps sample_intent), setSolverFeeBps (solverFeeBps sample_intent),
       setNonce (JBig (nonce sample_intent)),
       setDeadline (Fin 1000000) (Fin (of_int 300)) (Some (Fin (of_int 1000)))]
      new_builder = (b, Inr ()) \<and>
    build (\<lambda>a. a \<noteq> []) (Fin 1000000) (Some (Fin (of_int 1000))) b = Inr sample_intent"
  by (rule builder_builds_every_valid_intent [OF sample_intent_valid])
     (simp_all add: sample_intent_def)

end
