(* ===== verification/IntentCodec.thy ===== *)
theory IntentCodec
  imports Intent "HOL-Library.Char_ord" "HOL-Library.List_Lexorder"
begin

section \<open>Encoding, hashing and serializing intents\<close>

text \<open>
  The second half of packages/sdk/src/intent.ts.  What the Stellar SDK provides is a
  parameter, gathered in the record \<open>stellar_sdk\<close>: the \<open>Address\<close> constructor, the
  encoders behind \<open>toScVal\<close> and \<open>nativeToScVal\<close> (which may throw), the ScVal
  constructors, the XDR writer and SHA-256.  \<open>'sv\<close> is the type of ScVals.
\<close>

record 'sv stellar_sdk =
  address_ok :: "string \<Rightarrow> bool"
  address_scval :: "string \<Rightarrow> 'sv result"
  i128_scval :: "int \<Rightarrow> 'sv result"
  u64_scval :: "int \<Rightarrow> 'sv result"
  u32_scval :: "jsnum \<Rightarrow> 'sv result"
  symbol_scval :: "string \<Rightarrow> 'sv"
  map_scval :: "('sv \<times> 'sv) list \<Rightarrow> 'sv"
  to_xdr :: "'sv \<Rightarrow> string"
  sha256 :: "string \<Rightarrow> string"

subsection \<open>The canonical encoding\<close>

definition SCVAL_FIELD_ORDER :: "string list" where
  "SCVAL_FIELD_ORDER =
     [''buy_token'', ''deadline'', ''max_slippage_bps'', ''min_buy_amount'', ''nonce'',
      ''sell_amount'', ''sell_token'', ''solver_fee_bps'', ''trader'']"

text \<open>\<open>new Address(a).toScVal()\<close>: the constructor may throw.\<close>

definition addressScVal :: "('sv, 'x) stellar_sdk_scheme \<Rightarrow> string \<Rightarrow> 'sv result" where
  "addressScVal S a = address_scval S a"

definition i128ScVal :: "('sv, 'x) stellar_sdk_scheme \<Rightarrow> int \<Rightarrow> 'sv result" where
  "i128ScVal S n = i128_scval S n"

definition u64ScVal :: "('sv, 'x) stellar_sdk_scheme \<Rightarrow> int \<Rightarrow> 'sv result" where
  "u64ScVal S n = u64_scval S n"

definition u32ScVal :: "('sv, 'x) stellar_sdk_scheme \<Rightarrow> jsnum \<Rightarrow> 'sv result" where
  "u32ScVal S n = u32_scval S n"

definition symbolScVal :: "('sv, 'x) stellar_sdk_scheme \<Rightarrow> string \<Rightarrow> 'sv" where
  "symbolScVal S k = symbol_scval S k"

text \<open>The table \<open>byField\<close>, its fields encoded in the order the object literal lists them.\<close>

definition byField :: "('sv, 'x) stellar_sdk_scheme \<Rightarrow> trader_intent \<Rightarrow> (string \<times> 'sv) list result" where
  "byField S i =
     rbind (addressScVal S (buyToken i)) (\<lambda>bt.
     rbind (rbind (bigint_of_num (deadline i)) (u64ScVal S)) (\<lambda>dl.
     rbind (u32ScVal S (maxSlippageBps i)) (\<lambda>sl.
     rbind (i128ScVal S (minBuyAmount i)) (\<lambda>mb.
     rbind (u64ScVal S (nonce i)) (\<lambda>nc.
     rbind (i128ScVal S (sellAmount i)) (\<lambda>sa.
     rbind (addressScVal S (sellToken i)) (\<lambda>st.
     rbind (u32ScVal S (solverFeeBps i)) (\<lambda>sf.
     rbind (addressScVal S (trader i)) (\<lambda>tr.
     Inr [(''buy_token'', bt), (''deadline'', dl), (''max_slippage_bps'', sl),
          (''min_buy_amount'', mb), (''nonce'', nc), (''sell_amount'', sa), (''sell_token'', st),
          (''solver_fee_bps'', sf), (''trader'', tr)])))))))))"

definition intentToScVal :: "('sv, 'x) stellar_sdk_scheme \<Rightarrow> trader_intent \<Rightarrow> 'sv result" where
  "intentToScVal S i =
     rbind (byField S i) (\<lambda>fields.
       Inr (map_scval S (map (\<lambda>field. (symbolScVal S field, the (map_of fields field))) SCVAL_FIELD_ORDER)))"

definition intentDigest :: "('sv, 'x) stellar_sdk_scheme \<Rightarrow> trader_intent \<Rightarrow> string result" where
  "intentDigest S i = rbind (intentToScVal S i) (\<lambda>v. Inr (sha256 S (to_xdr S v)))"

text \<open>\<open>Buffer.toString("hex")\<close>.\<close>

definition to_hex :: "string \<Rightarrow> string" where
  "to_hex bytes = concat (map (\<lambda>c. [hex_digit (of_char c div 16), hex_digit (of_char c mod 16)]) bytes)"

definition hashIntent :: "('sv, 'x) stellar_sdk_scheme \<Rightarrow> trader_intent \<Rightarrow> string result" where
  "hashIntent S i = rbind (intentDigest S i) (\<lambda>d. Inr (to_hex d))"

subsection \<open>JSON\<close>

text \<open>The intent as the object \<open>JSON.stringify\<close> walks.\<close>

definition intent_object :: "trader_intent \<Rightarrow> jsval" where
  "intent_object i = JObj
     [(''trader'', JStr (trader i)), (''sellToken'', JStr (sellToken i)),
      (''buyToken'', JStr (buyToken i)), (''sellAmount'', JBig (sellAmount i)),
      (''minBuyAmount'', JBig (minBuyAmount i)), (''maxSlippageBps'', JNum (maxSlippageBps i)),
      (''deadline'', JNum (deadline i)), (''nonce'', JBig (nonce i)),
      (''solverFeeBps'', JNum (solverFeeBps i))]"

text \<open>The replacer turns every BigInt into its decimal string.\<close>

fun replace_bigints :: "jsval \<Rightarrow> jsval" where
  "replace_bigints (JBig n) = JStr (bigint_to_string n)"
| "replace_bigints (JArr vs) = JArr (map replace_bigints vs)"
| "replace_bigints (JObj kvs) = JObj (map (\<lambda>(k, v). (k, replace_bigints v)) kvs)"
| "replace_bigints v = v"

text \<open>The object is never \<open>undefined\<close> and has no BigInt left, so the text is always there.\<close>

definition serializeIntent :: "trader_intent \<Rightarrow> string" where
  "serializeIntent i = json_text (replace_bigints (intent_object i))"

definition deserializeIntent :: "(string \<Rightarrow> bool) \<Rightarrow> string \<Rightarrow> trader_intent result" where
  "deserializeIntent is_address json = (case json_parse json of
       None \<Rightarrow> Inl (IntentValidationError ''intent payload is not valid JSON'')
     | Some parsed \<Rightarrow>
         if \<not> is_js_object parsed then
           Inl (IntentValidationError ''intent payload must be a JSON object'')
         else
           rbind (rbind (js_get parsed ''trader'') js_to_string) (\<lambda>tr.
           rbind (rbind (js_get parsed ''sellToken'') js_to_string) (\<lambda>st.
           rbind (rbind (js_get parsed ''buyToken'') js_to_string) (\<lambda>bt.
           rbind (rbind (js_get parsed ''sellAmount'') (\<lambda>v. toBigInt v ''sellAmount'')) (\<lambda>sa.
           rbind (rbind (js_get parsed ''minBuyAmount'') (\<lambda>v. toBigInt v ''minBuyAmount'')) (\<lambda>mb.
           rbind (rbind (js_get parsed ''maxSlippageBps'') js_to_number) (\<lambda>sl.
           rbind (rbind (js_get parsed ''deadline'') js_to_number) (\<lambda>dl.
           rbind (rbind (js_get parsed ''nonce'') (\<lambda>v. toBigInt v ''nonce'')) (\<lambda>nc.
           rbind (rbind (js_get parsed ''solverFeeBps'') js_to_number) (\<lambda>sf.
           let i = \<lparr>trader = tr, sellToken = st, buyToken = bt, sellAmount = sa,
                    minBuyAmount = mb, maxSlippageBps = sl, deadline = dl, nonce = nc,
                    solverFeeBps = sf\<rparr>
           in rbind (validateIntent is_address i) (\<lambda>_. Inr i)))))))))))"

section \<open>Facts\<close>

lemma u64ScVal_eta: "u64ScVal S = u64_scval S"
  by (simp add: fun_eq_iff u64ScVal_def)

lemmas scval_defs = u64ScVal_eta addressScVal_def i128ScVal_def u64ScVal_def u32ScVal_def symbolScVal_def

lemma serializeIntent_is_stringify:
  "json_stringify (replace_bigints (intent_object i)) = Inr (Some (serializeIntent i))"
  by (simp add: json_stringify_def serializeIntent_def intent_object_def)

text \<open>The object that reaches the printer, with its property order.\<close>

lemma serialized_object_wf:
  assumes "is_finite (maxSlippageBps i)" "is_double (maxSlippageBps i)"
    and "is_finite (deadline i)" "is_double (deadline i)"
    and "is_finite (solverFeeBps i)" "is_double (solverFeeBps i)"
  shows "json_wf (replace_bigints (intent_object i))"
  using assms
  by (simp add: intent_object_def obj_puts_def obj_put_def array_index_def all_digits_def is_digit_def)

lemma bps_ok_double: "bps_ok x \<Longrightarrow> is_finite x \<and> is_double x"
proof -
  assume "bps_ok x"
  then obtain n :: int where n: "x = Fin (of_int n)" "0 \<le> n" "n \<le> 10000"
    by (auto simp: bps_ok_def)
  then have "\<bar>n\<bar> \<le> 2 ^ 53" by simp
  with n show ?thesis
    by (simp add: is_double_of_int)
qed

lemma parse_serialized:
  assumes "intent_valid a i" and "is_double (deadline i)"
  shows "json_parse (serializeIntent i) = Some (replace_bigints (intent_object i))"
proof -
  have "json_wf (replace_bigints (intent_object i))"
    using assms bps_ok_double by (intro serialized_object_wf) (auto simp: intent_valid_def)
  then show ?thesis
    unfolding serializeIntent_def by (rule json_round_trip)
qed

lemma toBigInt_printed [simp]: "toBigInt (JStr (bigint_to_string n)) f = Inr n"
  by (simp add: toBigInt_def)

lemma deserialize_serialized:
  assumes "intent_valid a i" and "is_double (deadline i)"
  shows "deserializeIntent a (serializeIntent i) = Inr i"
  using assms validate_ok [of a i]
  by (simp add: deserializeIntent_def parse_serialized)
     (cases i, simp add: intent_object_def obj_lookup_def Let_def)

lemma deserialize_valid: "deserializeIntent a s = Inr i \<Longrightarrow> intent_valid a i"
  by (auto simp: deserializeIntent_def result_simps Let_def validate_ok split: option.splits if_splits)

lemma js_get_total: "is_js_object v \<Longrightarrow> js_get v k \<noteq> Inl e"
  by (cases v) simp_all

lemma js_to_number_error: "js_to_number v = Inl e \<Longrightarrow> e = no_primitive"
  by (cases v) (auto simp: result_simps dest: js_to_string_error split: if_splits)

lemma toBigInt_error: "toBigInt v f = Inl e \<Longrightarrow> e = no_primitive \<or> (\<exists>m. e = IntentValidationError m)"
  by (cases v) (auto simp: toBigInt_def result_simps is_integer_iff dest: js_to_string_error
      split: if_splits)

subsection \<open>The encoders\<close>

text \<open>What a successful encoding consists of: one entry per field, in \<open>SCVAL_FIELD_ORDER\<close>.\<close>

lemma byField_keys: "byField S i = Inr fs \<Longrightarrow> map fst fs = SCVAL_FIELD_ORDER"
  by (auto simp: byField_def result_simps SCVAL_FIELD_ORDER_def)

lemma intentToScVal_fields:
  assumes "byField S i = Inr fs"
  shows "intentToScVal S i = Inr (map_scval S (map (\<lambda>(k, v). (symbolScVal S k, v)) fs))"
proof -
  have keys: "map fst fs = SCVAL_FIELD_ORDER"
    using assms by (rule byField_keys)
  then have "distinct (map fst fs)"
    by (simp add: SCVAL_FIELD_ORDER_def)
  then have "map (\<lambda>k. (symbolScVal S k, the (map_of fs k))) (map fst fs)
      = map (\<lambda>(k, v). (symbolScVal S k, v)) fs"
    by (auto simp: map_of_eq_Some_iff [THEN iffD2])
  then show ?thesis
    using assms by (simp add: intentToScVal_def keys)
qed

text \<open>The encoders of the library are injective where they return.\<close>

definition encoders_injective :: "('sv, 'x) stellar_sdk_scheme \<Rightarrow> bool" where
  "encoders_injective S \<longleftrightarrow>
     (\<forall>a b v. address_scval S a = Inr v \<longrightarrow> address_scval S b = Inr v \<longrightarrow> a = b) \<and>
     (\<forall>m n v. i128_scval S m = Inr v \<longrightarrow> i128_scval S n = Inr v \<longrightarrow> m = n) \<and>
     (\<forall>m n v. u64_scval S m = Inr v \<longrightarrow> u64_scval S n = Inr v \<longrightarrow> m = n) \<and>
     (\<forall>x y v. u32_scval S x = Inr v \<longrightarrow> u32_scval S y = Inr v \<longrightarrow> x = y)"

text \<open>The entry of a field is the encoding of the intent's component.\<close>

lemma byField_entries:
  assumes "byField S i = Inr fs"
  shows "address_scval S (trader i) = Inr (the (map_of fs ''trader''))"
    and "address_scval S (sellToken i) = Inr (the (map_of fs ''sell_token''))"
    and "address_scval S (buyToken i) = Inr (the (map_of fs ''buy_token''))"
    and "i128_scval S (sellAmount i) = Inr (the (map_of fs ''sell_amount''))"
    and "i128_scval S (minBuyAmount i) = Inr (the (map_of fs ''min_buy_amount''))"
    and "u32_scval S (maxSlippageBps i) = Inr (the (map_of fs ''max_slippage_bps''))"
    and "u32_scval S (solverFeeBps i) = Inr (the (map_of fs ''solver_fee_bps''))"
    and "u64_scval S (nonce i) = Inr (the (map_of fs ''nonce''))"
    and "\<exists>d. deadline i = Fin (of_int d) \<and> u64_scval S d = Inr (the (map_of fs ''deadline''))"
proof -
  have "bigint_of_num x = Inr n \<Longrightarrow> x = Fin (of_int n)" for x n
    by (cases x) (auto split: if_splits)
  with assms show "\<exists>d. deadline i = Fin (of_int d) \<and> u64_scval S d = Inr (the (map_of fs ''deadline''))"
    by (force simp: byField_def result_simps scval_defs)
qed (use assms in \<open>auto simp: byField_def result_simps scval_defs\<close>)

lemma byField_injective:
  assumes "encoders_injective S" and "byField S i = Inr fs" and "byField S j = Inr fs"
  shows "i = j"
proof -
  note enc = assms(1) [unfolded encoders_injective_def]
  note ifs = byField_entries [OF assms(2)] and jfs = byField_entries [OF assms(3)]
  have "deadline i = deadline j"
    using ifs(9) jfs(9) enc by metis
  moreover have "trader i = trader j" "sellToken i = sellToken j" "buyToken i = buyToken j"
    using enc ifs(1-3) jfs(1-3) by blast+
  moreover have "sellAmount i = sellAmount j" "minBuyAmount i = minBuyAmount j" "nonce i = nonce j"
    using enc ifs(4,5,8) jfs(4,5,8) by blast+
  moreover have "maxSlippageBps i = maxSlippageBps j" "solverFeeBps i = solverFeeBps j"
    using enc ifs(6,7) jfs(6,7) by blast+
  ultimately show ?thesis
    by (cases i; cases j) simp
qed

lemma hex_digit_inj: "m < 16 \<Longrightarrow> n < 16 \<Longrightarrow> hex_digit m = hex_digit n \<Longrightarrow> m = n"
proof -
  have "list_all (\<lambda>m. list_all (\<lambda>n. hex_digit m = hex_digit n \<longrightarrow> m = n) [0..<16]) [0..<16]"
    by code_simp
  then show "m < 16 \<Longrightarrow> n < 16 \<Longrightarrow> hex_digit m = hex_digit n \<Longrightarrow> m = n"
    by (auto simp: list_all_iff)
qed

lemma to_hex_Cons:
  "to_hex (c # s) = hex_digit (of_char c div 16) # hex_digit (of_char c mod 16) # to_hex s"
  by (simp add: to_hex_def)

lemma to_hex_inj: "to_hex s = to_hex t \<Longrightarrow> s = t"
proof (induction s arbitrary: t)
  case Nil
  then show ?case
    by (cases t) (simp_all add: to_hex_def)
next
  case (Cons c s)
  then obtain d u where t: "t = d # u"
    by (cases t) (simp_all add: to_hex_def)
  have byte: "(of_char x :: nat) div 16 < 16" for x :: char
    by (simp add: of_char_def less_mult_imp_div_less)
  have eqs: "hex_digit (of_char c div 16) = hex_digit (of_char d div 16)"
    "hex_digit (of_char c mod 16) = hex_digit (of_char d mod 16)" "to_hex s = to_hex u"
    using Cons.prems by (simp_all add: t to_hex_Cons)
  have "(of_char c :: nat) div 16 = of_char d div 16" "(of_char c :: nat) mod 16 = of_char d mod 16"
    using eqs byte by (auto intro!: hex_digit_inj)
  then have "(of_char c :: nat) = of_char d"
    by (metis div_mult_mod_eq)
  then show ?case
    using Cons.IH [OF eqs(3)] by (simp add: t)
qed

text \<open>A reference instance of the parameter: net strings for the map, decimal text for the
  integers, and a hash that forgets everything but the length.\<close>

fun net_map :: "(string \<times> string) list \<Rightarrow> string" where
  "net_map [] = []"
| "net_map ((k, v) # kvs) =
     replicate (length k) CHR ''1'' @ CHR ''0'' # k @ replicate (length v) CHR ''1'' @ CHR ''0'' # v
       @ net_map kvs"

definition reference_sdk :: "string stellar_sdk" where
  "reference_sdk = \<lparr>address_ok = (\<lambda>a. a \<noteq> []), address_scval = Inr,
     i128_scval = (\<lambda>n. Inr (bigint_to_string n)), u64_scval = (\<lambda>n. Inr (bigint_to_string n)),
     u32_scval = (\<lambda>x. rbind (bigint_of_num x) (\<lambda>n. Inr (bigint_to_string n))),
     symbol_scval = (\<lambda>s. s), map_scval = net_map, to_xdr = (\<lambda>v. v),
     sha256 = (\<lambda>s. [char_of (length s mod 256)])\<rparr>"

lemma unary_prefix:
  assumes "replicate m CHR ''1'' @ CHR ''0'' # x = replicate n CHR ''1'' @ CHR ''0'' # y"
  shows "m = n \<and> x = y"
  using assms
proof (induction m arbitrary: n)
  case 0
  then show ?case by (cases n) simp_all
next
  case (Suc m)
  then show ?case by (cases n) auto
qed

lemma net_map_inj: "net_map xs = net_map ys \<Longrightarrow> xs = ys"
proof (induction xs arbitrary: ys rule: net_map.induct)
  case 1
  then show ?case by (cases ys rule: net_map.cases) simp_all
next
  case (2 k v kvs)
  then obtain k' v' kvs' where ys: "ys = (k', v') # kvs'"
    by (cases ys rule: net_map.cases) simp_all
  have "length k = length k' \<and> k @ replicate (length v) CHR ''1'' @ CHR ''0'' # v @ net_map kvs
      = k' @ replicate (length v') CHR ''1'' @ CHR ''0'' # v' @ net_map kvs'"
    using 2(2) unfolding ys net_map.simps by (rule unary_prefix)
  then have k: "k = k'" and "replicate (length v) CHR ''1'' @ CHR ''0'' # v @ net_map kvs
      = replicate (length v') CHR ''1'' @ CHR ''0'' # v' @ net_map kvs'"
    by (metis append_eq_append_conv)+
  then have "length v = length v' \<and> v @ net_map kvs = v' @ net_map kvs'"
    by (intro unary_prefix)
  then have "v = v'" "net_map kvs = net_map kvs'"
    by (metis append_eq_append_conv)+
  with 2(1) k show ?case
    by (simp add: ys)
qed

text \<open>So is the XDR of the maps the SDK makes: their keys are the field symbols, their values come
  from the encoders.\<close>

definition encoded_value :: "('sv, 'x) stellar_sdk_scheme \<Rightarrow> 'sv \<Rightarrow> bool" where
  "encoded_value S v \<longleftrightarrow> (\<exists>a. address_scval S a = Inr v) \<or> (\<exists>n. i128_scval S n = Inr v) \<or>
     (\<exists>n. u64_scval S n = Inr v) \<or> (\<exists>x. u32_scval S x = Inr v)"

definition intent_entries :: "('sv, 'x) stellar_sdk_scheme \<Rightarrow> ('sv \<times> 'sv) list \<Rightarrow> bool" where
  "intent_entries S kvs \<longleftrightarrow> map fst kvs = map (symbol_scval S) SCVAL_FIELD_ORDER \<and>
     (\<forall>v \<in> set (map snd kvs). encoded_value S v)"

definition xdr_injective :: "('sv, 'x) stellar_sdk_scheme \<Rightarrow> bool" where
  "xdr_injective S \<longleftrightarrow> (\<forall>xs ys. intent_entries S xs \<longrightarrow> intent_entries S ys \<longrightarrow>
     to_xdr S (map_scval S xs) = to_xdr S (map_scval S ys) \<longrightarrow> xs = ys)"

lemma byField_intent_entries:
  assumes "byField S i = Inr fs"
  shows "intent_entries S (map (\<lambda>(k, v). (symbolScVal S k, v)) fs)"
proof -
  have "map fst (map (\<lambda>(k, v). (symbolScVal S k, v)) fs) = map (symbol_scval S) (map fst fs)"
    by (simp add: symbolScVal_def split_def)
  moreover have "\<forall>v \<in> set (map snd fs). encoded_value S v"
    using assms by (auto simp: byField_def result_simps scval_defs encoded_value_def)
  ultimately show ?thesis
    by (auto simp: intent_entries_def byField_keys [OF assms] split_def)
qed

lemma bigint_to_string_inj: "bigint_to_string m = bigint_to_string n \<Longrightarrow> m = n"
  by (metis bigint_of_printed sum.inject(2))

lemma bigint_of_num_inj: "bigint_of_num x = Inr n \<Longrightarrow> bigint_of_num y = Inr n \<Longrightarrow> x = y"
  by (cases x; cases y) (auto split: if_splits)

lemma reference_sdk_injective: "encoders_injective reference_sdk" "xdr_injective reference_sdk"
  by (auto simp: encoders_injective_def xdr_injective_def reference_sdk_def result_simps
      dest!: bigint_to_string_inj dest: net_map_inj bigint_of_num_inj)

text \<open>Two intents with one hash are the same intent, or their encodings collide.\<close>

lemma hash_binds:
  assumes "encoders_injective S" and "xdr_injective S"
    and "hashIntent S i = Inr h" and "hashIntent S j = Inr h"
  shows "i = j \<or> (\<exists>v w. intentToScVal S i = Inr v \<and> intentToScVal S j = Inr w \<and>
    to_xdr S v \<noteq> to_xdr S w \<and> sha256 S (to_xdr S v) = sha256 S (to_xdr S w))"
proof -
  let ?entries = "map (\<lambda>(k, v). (symbolScVal S k, v))"
  obtain fs gs where fs: "byField S i = Inr fs" and gs: "byField S j = Inr gs"
    using assms(3,4) by (auto simp: hashIntent_def intentDigest_def intentToScVal_def result_simps)
  let ?v = "map_scval S (?entries fs)" and ?w = "map_scval S (?entries gs)"
  have enc: "intentToScVal S i = Inr ?v" "intentToScVal S j = Inr ?w"
    using intentToScVal_fields [OF fs] intentToScVal_fields [OF gs] .
  have "to_hex (sha256 S (to_xdr S ?v)) = to_hex (sha256 S (to_xdr S ?w))"
    using assms(3,4) by (simp add: hashIntent_def intentDigest_def enc)
  then have digest: "sha256 S (to_xdr S ?v) = sha256 S (to_xdr S ?w)"
    by (rule to_hex_inj)
  show ?thesis
  proof (cases "to_xdr S ?v = to_xdr S ?w")
    case True
    then have "?entries fs = ?entries gs"
      using assms(2) byField_intent_entries [OF fs] byField_intent_entries [OF gs]
      by (auto simp: xdr_injective_def)
    then have "map snd (?entries fs) = map snd (?entries gs)"
      by simp
    then have "map snd fs = map snd gs"
      by (simp add: split_def comp_def)
    then have "fs = gs"
      by (metis byField_keys [OF fs] byField_keys [OF gs] zip_map_fst_snd)
    then show ?thesis
      using byField_injective [OF assms(1) fs] gs by simp
  qed (use enc digest in blast)
qed

section \<open>Properties\<close>

text \<open>The encoding an intent is hashed from is canonical: it is the map with one entry per
  field, the keys strictly increasing (so none twice), each value the encoding of its own
  field.\<close>

lemma intentToScVal_canonical:
  assumes "byField S i = Inr fs"
  shows "intentToScVal S i = Inr (map_scval S (map (\<lambda>(k, v). (symbolScVal S k, v)) fs)) \<and>
    map fst fs = SCVAL_FIELD_ORDER \<and> sorted_wrt (<) SCVAL_FIELD_ORDER"
proof -
  have "sorted_wrt (<) SCVAL_FIELD_ORDER"
    by code_simp
  with assms show ?thesis
    by (simp add: intentToScVal_fields byField_keys)
qed

lemma intentToScVal_canonical_witness:
  "\<exists>fs. intentToScVal reference_sdk sample_intent
      = Inr (net_map (map (\<lambda>(k, v). (symbolScVal reference_sdk k, v)) fs)) \<and>
    map fst fs = SCVAL_FIELD_ORDER"
proof -
  obtain fs where "byField reference_sdk sample_intent = Inr fs"
    by (simp add: byField_def scval_defs reference_sdk_def sample_intent_def)
  from intentToScVal_canonical [OF this] show ?thesis
    by (auto simp: reference_sdk_def)
qed

text \<open>(C20) The hash binds the intent: two intents with the same hash are the same intent, or
  the bytes they are encoded as are themselves a collision of SHA-256.\<close>

theorem hashIntent_binding:
  assumes "encoders_injective S" and "xdr_injective S"
    and "hashIntent S i = Inr h" and "hashIntent S j = Inr h"
  shows "i = j \<or> (\<exists>v w. intentToScVal S i = Inr v \<and> intentToScVal S j = Inr w \<and>
    to_xdr S v \<noteq> to_xdr S w \<and> sha256 S (to_xdr S v) = sha256 S (to_xdr S w))"
  using assms by (rule hash_binds)

text \<open>The sample intent and its twin with another nonce collide under the reference hash, which
  sees the length only.\<close>

theorem hashIntent_binding_witness:
  "\<exists>v w. intentToScVal reference_sdk sample_intent = Inr v \<and>
     intentToScVal reference_sdk (sample_intent\<lparr>nonce := 8\<rparr>) = Inr w \<and>
     to_xdr reference_sdk v \<noteq> to_xdr reference_sdk w \<and>
     sha256 reference_sdk (to_xdr reference_sdk v) = sha256 reference_sdk (to_xdr reference_sdk w)"
proof -
  have same_length: "length (bigint_to_string 7) = length (bigint_to_string 8)"
    by code_simp
  obtain h where h: "hashIntent reference_sdk sample_intent = Inr h"
    and "hashIntent reference_sdk (sample_intent\<lparr>nonce := 8\<rparr>) = Inr h"
    by (simp add: hashIntent_def intentDigest_def intentToScVal_def byField_def scval_defs
        reference_sdk_def sample_intent_def SCVAL_FIELD_ORDER_def same_length)
  moreover have "sample_intent \<noteq> sample_intent\<lparr>nonce := 8\<rparr>"
    by (simp add: sample_intent_def)
  ultimately show ?thesis
    using hashIntent_binding [OF reference_sdk_injective] by blast
qed

text \<open>(C18) Parsing what \<open>serializeIntent\<close> wrote returns the very intent, amounts and deadline
  to the last digit, and the text is JSON that \<open>JSON.stringify\<close> produces without throwing.\<close>

theorem serialize_round_trip:
  assumes "intent_valid A i" and "is_double (deadline i)"
  shows "deserializeIntent A (serializeIntent i) = Inr i \<and>
    json_stringify (replace_bigints (intent_object i)) = Inr (Some (serializeIntent i))"
  using assms by (simp add: deserialize_serialized serializeIntent_is_stringify)

theorem serialize_round_trip_witness:
  "deserializeIntent (\<lambda>a. a \<noteq> []) (serializeIntent sample_intent) = Inr sample_intent"
proof -
  have "is_double (deadline sample_intent)"
    by (simp only: sample_intent_def trader_intent.simps) (rule is_double_of_int, simp)
  from serialize_round_trip [OF sample_intent_valid this] show ?thesis ..
qed

text \<open>(C35) Whatever the text, \<open>deserializeIntent\<close> returns a valid intent or throws an
  \<open>IntentValidationError\<close> or the TypeError of a failed conversion: no unchecked intent and
  no other error escapes.\<close>

theorem deserializeIntent_outcomes:
  "case deserializeIntent A s of
     Inr i \<Rightarrow> intent_valid A i
   | Inl e \<Rightarrow> (\<exists>m. e = IntentValidationError m) \<or> e = no_primitive"
proof (cases "deserializeIntent A s")
  case (Inl e)
  have "(\<exists>m. e = IntentValidationError m) \<or> e = no_primitive"
    using Inl unfolding deserializeIntent_def
    by (auto simp: result_simps Let_def js_get_total split: option.splits if_splits
        dest!: toBigInt_error js_to_string_error(1) js_to_number_error validate_error)
  then show ?thesis
    by (simp add: Inl)
qed (simp add: deserialize_valid)

text \<open>The TypeError does happen: a field that is an object with its own \<open>toString\<close>
  property makes \<open>String\<close> throw before any check runs.\<close>

lemma deserializeIntent_type_error:
  "deserializeIntent A ''{\"trader\":{\"toString\":null}}'' = Inl no_primitive"
proof -
  have "json_parse ''{\"trader\":{\"toString\":null}}''
      = Some (JObj [(''trader'', JObj [(''toString'', JNull)])])"
    by code_simp
  then show ?thesis
    by (simp add: deserializeIntent_def obj_lookup_def)
qed

end
