(* ===== verification/Effects.thy ===== *)
theory Effects
  imports Prelude
begin

section \<open>Effects on a world\<close>

text \<open>
  The asynchronous code of the packages talks to an RPC server, a clock, a feed and a log.
  An action takes the world and returns its outcome (a value or a throw) and the world
  afterwards; a throw keeps the effects that came before it.  Sequencing is written out with
  \<open>abind\<close>, and \<open>try ... catch\<close> is \<open>acatch\<close>.  The contracts use the same sequencing with
  their own failures in place of \<open>js_error\<close>.
\<close>

type_synonym ('w, 'a) action = "'w \<Rightarrow> 'a result \<times> 'w"

named_theorems action_simps \<open>running actions\<close>

definition aret :: "'a \<Rightarrow> 'w \<Rightarrow> ('e + 'a) \<times> 'w" where
  "aret x = (\<lambda>w. (Inr x, w))"

definition alift :: "('e + 'a) \<Rightarrow> 'w \<Rightarrow> ('e + 'a) \<times> 'w" where
  "alift r = (\<lambda>w. (r, w))"

definition abind ::
  "('w \<Rightarrow> ('e + 'a) \<times> 'w) \<Rightarrow> ('a \<Rightarrow> 'w \<Rightarrow> ('e + 'b) \<times> 'w) \<Rightarrow> 'w \<Rightarrow> ('e + 'b) \<times> 'w" where
  "abind m f = (\<lambda>w. case m w of (Inl e, w') \<Rightarrow> (Inl e, w') | (Inr x, w') \<Rightarrow> f x w')"

definition acatch :: "('w, 'a) action \<Rightarrow> (js_error \<Rightarrow> ('w, 'a) action) \<Rightarrow> ('w, 'a) action" where
  "acatch m h = (\<lambda>w. case m w of (Inl e, w') \<Rightarrow> h e w' | (Inr x, w') \<Rightarrow> (Inr x, w'))"

lemma aret_run [action_simps]: "aret x w = (Inr x, w)"
  by (simp add: aret_def)

lemma alift_run [action_simps]: "alift r w = (r, w)"
  by (simp add: alift_def)

lemma abind_run [action_simps]:
  "m w = (Inl e, w') \<Longrightarrow> abind m f w = (Inl e, w')"
  "m w = (Inr x, w') \<Longrightarrow> abind m f w = f x w'"
  by (simp_all add: abind_def)

lemma acatch_run [action_simps]:
  "m w = (Inl e, w') \<Longrightarrow> acatch m h w = h e w'"
  "m w = (Inr x, w') \<Longrightarrow> acatch m h w = (Inr x, w')"
  by (simp_all add: acatch_def)

lemma abind_eq_Inr:
  "abind m f w = (Inr y, w2) \<longleftrightarrow> (\<exists>x w1. m w = (Inr x, w1) \<and> f x w1 = (Inr y, w2))"
  by (auto simp: abind_def split: prod.splits sum.splits)

lemma abind_eq_Inl:
  "abind m f w = (Inl e, w2) \<longleftrightarrow>
     m w = (Inl e, w2) \<or> (\<exists>x w1. m w = (Inr x, w1) \<and> f x w1 = (Inl e, w2))"
  by (auto simp: abind_def split: prod.splits sum.splits)

lemma aret_eq: "aret x w = (r, w2) \<longleftrightarrow> r = Inr x \<and> w2 = w"
  by (auto simp: aret_def)

lemma alift_eq: "alift r' w = (r, w2) \<longleftrightarrow> r' = r \<and> w2 = w"
  by (auto simp: alift_def)

lemma abind_assoc: "abind (abind m f) g = abind m (\<lambda>x. abind (f x) g)"
  by (auto simp: abind_def fun_eq_iff split: prod.split sum.split)

lemmas action_eqs = abind_eq_Inr abind_eq_Inl aret_eq alift_eq

text \<open>\<open>for (const x of xs) await f(x)\<close>: the first throw ends the loop.\<close>

fun afor :: "'a list \<Rightarrow> ('a \<Rightarrow> ('w, unit) action) \<Rightarrow> ('w, unit) action" where
  "afor [] f = aret ()"
| "afor (x # xs) f = abind (f x) (\<lambda>_. afor xs f)"

text \<open>Lifting to a world with a component in front of it.\<close>

definition on_world :: "('w, 'a) action \<Rightarrow> ('w \<times> 's, 'a) action" where
  "on_world m = (\<lambda>(w, s). let (r, w') = m w in (r, (w', s)))"

text \<open>
  An observation \<open>p\<close> of the world (a counter, a clock, a component) and an order on what is
  observed: an action that keeps to the order never moves the observation against it, and
  composed actions keep to it because the order is reflexive and transitive.
\<close>

locale effect_order =
  fixes le :: "'k \<Rightarrow> 'k \<Rightarrow> bool"
  assumes refl: "le k k"
    and trans: "le i j \<Longrightarrow> le j k \<Longrightarrow> le i k"
begin

definition keeps :: "('w \<Rightarrow> 'k) \<Rightarrow> ('w \<Rightarrow> 'r \<times> 'w) \<Rightarrow> bool" where
  "keeps p m \<longleftrightarrow> (\<forall>w. le (p w) (p (snd (m w))))"

lemma keepsI: "(\<And>w. le (p w) (p (snd (m w)))) \<Longrightarrow> keeps p m"
  by (simp add: keeps_def)

lemma keepsD: "keeps p m \<Longrightarrow> m w = (r, w') \<Longrightarrow> le (p w) (p w')"
  by (metis keeps_def snd_conv)

lemma keeps_ret: "keeps p (aret x)" "keeps p (alift r)"
  by (simp_all add: keeps_def aret_def alift_def refl)

lemma keeps_bind:
  assumes "keeps p m" and "\<And>x. keeps p (f x)"
  shows "keeps p (abind m f)"
proof (rule keepsI)
  fix w
  obtain r w1 where m: "m w = (r, w1)"
    by (cases "m w")
  show "le (p w) (p (snd (abind m f w)))"
    using keepsD [OF assms(1) m] assms(2) m
    by (cases r) (auto simp: abind_def keeps_def intro: trans)
qed

lemma keeps_catch:
  assumes "keeps p m" and "\<And>e. keeps p (h e)"
  shows "keeps p (acatch m h)"
proof (rule keepsI)
  fix w
  obtain r w1 where m: "m w = (r, w1)"
    by (cases "m w")
  show "le (p w) (p (snd (acatch m h w)))"
    using keepsD [OF assms(1) m] assms(2) m
    by (cases r) (auto simp: acatch_def keeps_def intro: trans)
qed

lemma keeps_for:
  assumes "\<And>x. keeps p (f x)"
  shows "keeps p (afor xs f)"
  using assms by (induction xs) (auto intro: keeps_bind keeps_ret)

lemma keeps_on_world:
  assumes "keeps p m"
  shows "keeps (\<lambda>st. p (fst st)) (on_world m)"
  using assms by (auto simp: keeps_def on_world_def split: prod.split)
     (metis snd_conv)

lemma keeps_beside: "keeps (\<lambda>st. q (snd st)) (on_world m)"
  by (auto simp: keeps_def on_world_def refl split: prod.split)

end

section \<open>Processes: actions that may never return\<close>

text \<open>
  Polling a transaction and the main loop may run forever; a process returns \<open>None\<close> then.
\<close>

type_synonym ('w, 'a) process = "'w \<Rightarrow> ('a result \<times> 'w) option"

definition prun :: "('w, 'a) action \<Rightarrow> ('w, 'a) process" where
  "prun m = (\<lambda>w. Some (m w))"

definition pbind :: "('w, 'a) process \<Rightarrow> ('a \<Rightarrow> ('w, 'b) process) \<Rightarrow> ('w, 'b) process" where
  "pbind m f = (\<lambda>w. case m w of
       None \<Rightarrow> None
     | Some (Inl e, w') \<Rightarrow> Some (Inl e, w')
     | Some (Inr x, w') \<Rightarrow> f x w')"

definition pcatch :: "('w, 'a) process \<Rightarrow> (js_error \<Rightarrow> ('w, 'a) process) \<Rightarrow> ('w, 'a) process" where
  "pcatch m h = (\<lambda>w. case m w of
       None \<Rightarrow> None
     | Some (Inl e, w') \<Rightarrow> h e w'
     | Some (Inr x, w') \<Rightarrow> Some (Inr x, w'))"

lemma prun_eq [action_simps]: "prun m w = Some (m w)"
  by (simp add: prun_def)

lemma pbind_run [action_simps]:
  "m w = None \<Longrightarrow> pbind m f w = None"
  "m w = Some (Inl e, w') \<Longrightarrow> pbind m f w = Some (Inl e, w')"
  "m w = Some (Inr x, w') \<Longrightarrow> pbind m f w = f x w'"
  by (simp_all add: pbind_def)

lemma pcatch_run [action_simps]:
  "m w = None \<Longrightarrow> pcatch m h w = None"
  "m w = Some (Inl e, w') \<Longrightarrow> pcatch m h w = h e w'"
  "m w = Some (Inr x, w') \<Longrightarrow> pcatch m h w = Some (Inr x, w')"
  by (simp_all add: pcatch_def)

lemma pbind_eq_Some:
  "pbind m f w = Some (r, w2) \<longleftrightarrow>
     (\<exists>e. m w = Some (Inl e, w2) \<and> r = Inl e) \<or>
     (\<exists>x w1. m w = Some (Inr x, w1) \<and> f x w1 = Some (r, w2))"
  by (auto simp: pbind_def split: option.splits prod.splits sum.splits)

lemma pcatch_eq_Some:
  "pcatch m h w = Some (r, w2) \<longleftrightarrow>
     (\<exists>x. m w = Some (Inr x, w2) \<and> r = Inr x) \<or>
     (\<exists>e w1. m w = Some (Inl e, w1) \<and> h e w1 = Some (r, w2))"
  by (auto simp: pcatch_def split: option.splits prod.splits sum.splits)

text \<open>A process that returns from every world.\<close>

definition returns :: "('w, 'a) process \<Rightarrow> bool" where
  "returns m \<longleftrightarrow> (\<forall>w. m w \<noteq> None)"

lemma returns_run: "returns (prun m)"
  by (simp add: returns_def prun_def)

lemma returns_bind: "returns m \<Longrightarrow> (\<And>x. returns (f x)) \<Longrightarrow> returns (pbind m f)"
  by (auto simp: returns_def pbind_def split: option.split sum.split)

definition pon_world :: "('w, 'a) process \<Rightarrow> ('w \<times> 's, 'a) process" where
  "pon_world m = (\<lambda>(w, s). case m w of None \<Rightarrow> None | Some (r, w') \<Rightarrow> Some (r, (w', s)))"

lemma returns_on_world: "returns m \<Longrightarrow> returns (pon_world m)"
  by (auto simp: returns_def pon_world_def split: option.split)

context effect_order
begin

definition pkeeps :: "('w \<Rightarrow> 'k) \<Rightarrow> ('w \<Rightarrow> ('r \<times> 'w) option) \<Rightarrow> bool" where
  "pkeeps p m \<longleftrightarrow> (\<forall>w r w'. m w = Some (r, w') \<longrightarrow> le (p w) (p w'))"

lemma pkeepsD: "pkeeps p m \<Longrightarrow> m w = Some (r, w') \<Longrightarrow> le (p w) (p w')"
  by (simp add: pkeeps_def)

lemma pkeeps_run: "keeps p m \<Longrightarrow> pkeeps p (prun m)"
  by (auto simp: pkeeps_def prun_def dest: keepsD)

lemma pkeeps_bind: "pkeeps p m \<Longrightarrow> (\<And>x. pkeeps p (f x)) \<Longrightarrow> pkeeps p (pbind m f)"
  by (fastforce simp: pkeeps_def pbind_eq_Some intro: trans)

lemma pkeeps_catch: "pkeeps p m \<Longrightarrow> (\<And>e. pkeeps p (h e)) \<Longrightarrow> pkeeps p (pcatch m h)"
  by (fastforce simp: pkeeps_def pcatch_eq_Some intro: trans)

lemma pkeeps_on_world:
  assumes "pkeeps p m"
  shows "pkeeps (\<lambda>st. p (fst st)) (pon_world m)"
  using assms by (auto simp: pkeeps_def pon_world_def split: option.splits prod.splits)

end

text \<open>Two orders: an observation that stays as it is, and a clock that does not run back.\<close>

interpretation stays: effect_order "(=)"
  by unfold_locales auto

interpretation grows: effect_order "(\<le>) :: nat \<Rightarrow> nat \<Rightarrow> bool"
  by unfold_locales auto

lemma staysD: "stays.keeps p m \<Longrightarrow> m w = (r, w') \<Longrightarrow> p w' = p w"
  using stays.keepsD [of p m w r w'] by simp

lemma stays_pD: "stays.pkeeps p m \<Longrightarrow> m w = Some (r, w') \<Longrightarrow> p w' = p w"
  using stays.pkeepsD [of p m w r w'] by simp

end
