(* ===== verification/Client.thy ===== *)
theory Client
  imports IntentCodec Effects
begin

section \<open>The contract client\<close>

text \<open>
  packages/sdk/src/client.ts.  The Stellar SDK (operation and transaction builders, signing,
  assembly) and the RPC server are the parameter record \<open>chain_api\<close>, which extends the
  encoders of \<open>stellar_sdk\<close>; server calls are actions on the world \<open>'w\<close>, which also holds
  the clock.  A simulation is either an error or a success whose parts the code does not
  look at (\<open>sim_rest\<close>) are carried along.
\<close>

record keypair =
  kp_publicKey :: string
  kp_secret :: string

record ('sv, 'au) sim_result =
  sim_retval :: "'sv option"
  sim_auth :: "'au list"

datatype ('sv, 'au, 'rest) simulation =
    SimulationError string
  | SimulationSuccess (sim_of: "('sv, 'au) sim_result option") (sim_rest: 'rest)

record send_response =
  se_status :: string
  se_hash :: string
  se_error_json :: string

record tx_response =
  tr_status :: string
  tr_ledger :: "jsnum option"

record ('sv, 'op, 'acct, 'tx, 'au, 'rest, 'w) chain_api = "'sv stellar_sdk" +
  new_server :: "string \<Rightarrow> bool \<Rightarrow> unit result"
  new_contract :: "string \<Rightarrow> unit result"
  contract_call :: "string \<Rightarrow> string \<Rightarrow> 'sv list \<Rightarrow> 'op"
  bytes_scval :: "string \<Rightarrow> 'sv"
  scval_type :: "'sv \<Rightarrow> string"
  scval_bytes :: "'sv \<Rightarrow> string"
  scval_u32 :: "'sv \<Rightarrow> nat"
  base_fee :: string
  build_tx :: "'acct \<Rightarrow> string \<Rightarrow> string \<Rightarrow> 'op \<Rightarrow> nat \<Rightarrow> 'tx result"
  assemble_tx :: "'tx \<Rightarrow> ('sv, 'au, 'rest) simulation \<Rightarrow> 'tx result"
  sign_tx :: "keypair \<Rightarrow> 'tx \<Rightarrow> 'tx"
  date_now :: "'w \<Rightarrow> jsnum"
  wait_ms :: "jsnum \<Rightarrow> 'w \<Rightarrow> 'w"
  get_account :: "string \<Rightarrow> ('w, 'acct) action"
  simulate_tx :: "'tx \<Rightarrow> ('w, ('sv, 'au, 'rest) simulation) action"
  send_tx :: "'tx \<Rightarrow> ('w, send_response) action"
  get_tx :: "string \<Rightarrow> ('w, tx_response) action"

definition DEFAULT_TIMEOUT_MS :: jsnum where
  "DEFAULT_TIMEOUT_MS = Fin 30000"

definition POLL_INTERVAL_MS :: jsnum where
  "POLL_INTERVAL_MS = Fin 1000"

definition delay ::
  "('sv, 'op, 'acct, 'tx, 'au, 'rest, 'w, 'x) chain_api_scheme \<Rightarrow> jsnum \<Rightarrow> 'w \<Rightarrow> 'w" where
  "delay C ms w = wait_ms C ms w"

subsection \<open>Construction and operations\<close>

record slipguard_client =
  cl_contractId :: string
  cl_networkPassphrase :: string
  cl_publicKey :: "string option"

definition new_client ::
  "('sv, 'op, 'acct, 'tx, 'au, 'rest, 'w, 'x) chain_api_scheme \<Rightarrow> client_options
     \<Rightarrow> slipguard_client result" where
  "new_client C opts =
     rbind (new_server C (opt_rpcUrl opts)
         (case opt_allowHttp opts of Some b \<Rightarrow> b | None \<Rightarrow> False)) (\<lambda>_.
     rbind (new_contract C (opt_contractId opts)) (\<lambda>_.
     Inr \<lparr>cl_contractId = opt_contractId opts,
          cl_networkPassphrase = opt_networkPassphrase opts,
          cl_publicKey = opt_publicKey opts\<rparr>))"

text \<open>The method \<open>hashIntent\<close> of the class.\<close>

definition client_hashIntent ::
  "('sv, 'op, 'acct, 'tx, 'au, 'rest, 'w, 'x) chain_api_scheme \<Rightarrow> slipguard_client
     \<Rightarrow> trader_intent \<Rightarrow> string result" where
  "client_hashIntent C cl i = hashIntent C i"

definition buildExecuteIntentOperation ::
  "('sv, 'op, 'acct, 'tx, 'au, 'rest, 'w, 'x) chain_api_scheme \<Rightarrow> slipguard_client \<Rightarrow> string
     \<Rightarrow> trader_intent \<Rightarrow> int \<Rightarrow> 'op result" where
  "buildExecuteIntentOperation C cl solver i actualBuyAmount =
     rbind (address_scval C solver) (\<lambda>s.
     rbind (intentToScVal C i) (\<lambda>v.
     rbind (i128_scval C actualBuyAmount) (\<lambda>a.
     Inr (contract_call C (cl_contractId cl) ''execute_intent'' [s, v, a]))))"

definition buildCancelIntentOperation ::
  "('sv, 'op, 'acct, 'tx, 'au, 'rest, 'w, 'x) chain_api_scheme \<Rightarrow> slipguard_client
     \<Rightarrow> trader_intent \<Rightarrow> 'op result" where
  "buildCancelIntentOperation C cl i =
     rbind (intentToScVal C i) (\<lambda>v. Inr (contract_call C (cl_contractId cl) ''cancel_intent'' [v]))"

definition buildGetIntentHashOperation ::
  "('sv, 'op, 'acct, 'tx, 'au, 'rest, 'w, 'x) chain_api_scheme \<Rightarrow> slipguard_client
     \<Rightarrow> trader_intent \<Rightarrow> 'op result" where
  "buildGetIntentHashOperation C cl i =
     rbind (intentToScVal C i) (\<lambda>v. Inr (contract_call C (cl_contractId cl) ''get_intent_hash'' [v]))"

text \<open>\<open>/^[0-9a-fA-F]{64}$/\<close>, then \<open>Buffer.from(hex, "hex")\<close>.\<close>

definition hex_char :: "char \<Rightarrow> bool" where
  "hex_char c \<longleftrightarrow> radix_digit c \<noteq> None"

fun from_hex :: "string \<Rightarrow> string" where
  "from_hex (a # b # s) =
     char_of (16 * the (radix_digit a) + the (radix_digit b)) # from_hex s"
| "from_hex _ = []"

definition bytesNScVal ::
  "('sv, 'op, 'acct, 'tx, 'au, 'rest, 'w, 'x) chain_api_scheme \<Rightarrow> string \<Rightarrow> string \<Rightarrow> 'sv result" where
  "bytesNScVal C hex field =
     (if \<not> (length hex = 64 \<and> list_all hex_char hex) then
        Inl (PlainError (field @ '' must be a 32-byte hex string''))
      else Inr (bytes_scval C (from_hex hex)))"

definition buildGetIntentStatusOperation ::
  "('sv, 'op, 'acct, 'tx, 'au, 'rest, 'w, 'x) chain_api_scheme \<Rightarrow> slipguard_client
     \<Rightarrow> string \<Rightarrow> 'op result" where
  "buildGetIntentStatusOperation C cl intentHash =
     rbind (bytesNScVal C intentHash ''intentHash'')
       (\<lambda>v. Inr (contract_call C (cl_contractId cl) ''get_intent_status'' [v]))"

definition buildTransaction ::
  "('sv, 'op, 'acct, 'tx, 'au, 'rest, 'w, 'x) chain_api_scheme \<Rightarrow> slipguard_client \<Rightarrow> 'acct
     \<Rightarrow> 'op \<Rightarrow> string \<Rightarrow> 'tx result" where
  "buildTransaction C cl source op fee = build_tx C source fee (cl_networkPassphrase cl) op 60"

text \<open>An empty key is as good as none: \<open>!key\<close>.\<close>

definition sourceAccount ::
  "('sv, 'op, 'acct, 'tx, 'au, 'rest, 'w, 'x) chain_api_scheme \<Rightarrow> slipguard_client
     \<Rightarrow> string option \<Rightarrow> ('w, 'acct) action" where
  "sourceAccount C cl publicKey =
     (let key = (case publicKey of Some k \<Rightarrow> Some k | None \<Rightarrow> cl_publicKey cl) in
      case key of
        None \<Rightarrow> alift (Inl (PlainError ''a publicKey is required to build or simulate a transaction''))
      | Some k \<Rightarrow>
          if k = [] then alift (Inl (PlainError ''a publicKey is required to build or simulate a transaction''))
          else get_account C k)"

subsection \<open>Reading\<close>

definition simulateRead ::
  "('sv, 'op, 'acct, 'tx, 'au, 'rest, 'w, 'x) chain_api_scheme \<Rightarrow> slipguard_client \<Rightarrow> 'op
     \<Rightarrow> string option \<Rightarrow> ('w, 'sv) action" where
  "simulateRead C cl operation publicKey =
     abind (sourceAccount C cl publicKey) (\<lambda>source.
     abind (alift (buildTransaction C cl source operation (base_fee C))) (\<lambda>tx.
     abind (simulate_tx C tx) (\<lambda>sim.
     case sim of
       SimulationError e \<Rightarrow> alift (Inl (PlainError (''simulation failed: '' @ e)))
     | SimulationSuccess res _ \<Rightarrow>
         (case res of
            None \<Rightarrow> alift (Inl (PlainError ''simulation returned no value''))
          | Some r \<Rightarrow> alift (from_option (PlainError ''simulation returned no value'') (sim_retval r))))))"

definition getIntentHash ::
  "('sv, 'op, 'acct, 'tx, 'au, 'rest, 'w, 'x) chain_api_scheme \<Rightarrow> slipguard_client \<Rightarrow> trader_intent
     \<Rightarrow> string option \<Rightarrow> ('w, string) action" where
  "getIntentHash C cl i publicKey =
     abind (alift (buildGetIntentHashOperation C cl i)) (\<lambda>operation.
     abind (simulateRead C cl operation publicKey) (\<lambda>retval.
     if scval_type C retval \<noteq> ''scvBytes'' then
       alift (Inl (PlainError (''get_intent_hash returned '' @ scval_type C retval @ '', expected scvBytes'')))
     else aret (to_hex (scval_bytes C retval))))"

text \<open>The status is the number the contract returned; nothing checks that it is one of the four.\<close>

definition getIntentStatus ::
  "('sv, 'op, 'acct, 'tx, 'au, 'rest, 'w, 'x) chain_api_scheme \<Rightarrow> slipguard_client \<Rightarrow> trader_intent
     \<Rightarrow> string option \<Rightarrow> ('w, nat) action" where
  "getIntentStatus C cl i publicKey =
     abind (alift (rbind (hashIntent C i) (buildGetIntentStatusOperation C cl))) (\<lambda>operation.
     abind (simulateRead C cl operation publicKey) (\<lambda>retval.
     if scval_type C retval \<noteq> ''scvU32'' then
       alift (Inl (PlainError (''get_intent_status returned '' @ scval_type C retval @ '', expected scvU32'')))
     else aret (scval_u32 C retval)))"

subsection \<open>Writing\<close>

definition withAuth ::
  "'au list option \<Rightarrow> ('sv, 'au, 'rest) simulation \<Rightarrow> ('sv, 'au, 'rest) simulation" where
  "withAuth authEntries sim = (case authEntries of
       None \<Rightarrow> sim
     | Some entries \<Rightarrow>
         if entries = [] then sim
         else (case sim of
           SimulationSuccess (Some r) rest \<Rightarrow> SimulationSuccess (Some (r\<lparr>sim_auth := entries\<rparr>)) rest
         | _ \<Rightarrow> sim))"

record 'au execute_params =
  ep_solver :: keypair
  ep_intent :: trader_intent
  ep_actualBuyAmount :: int
  ep_fee :: "string option"
  ep_authEntries :: "'au list option"

definition prepareExecuteIntent ::
  "('sv, 'op, 'acct, 'tx, 'au, 'rest, 'w, 'x) chain_api_scheme \<Rightarrow> slipguard_client
     \<Rightarrow> 'au execute_params \<Rightarrow> ('w, 'tx) action" where
  "prepareExecuteIntent C cl p =
     abind (get_account C (kp_publicKey (ep_solver p))) (\<lambda>source.
     abind (alift (buildExecuteIntentOperation C cl (kp_publicKey (ep_solver p)) (ep_intent p)
         (ep_actualBuyAmount p))) (\<lambda>operation.
     abind (alift (buildTransaction C cl source operation
         (case ep_fee p of Some f \<Rightarrow> f | None \<Rightarrow> base_fee C))) (\<lambda>tx.
     abind (simulate_tx C tx) (\<lambda>sim.
     case sim of
       SimulationError e \<Rightarrow> alift (Inl (PlainError (''execute_intent simulation failed: '' @ e)))
     | SimulationSuccess _ _ \<Rightarrow>
         abind (alift (assemble_tx C tx (withAuth (ep_authEntries p) sim))) (\<lambda>prepared.
         aret (sign_tx C (ep_solver p) prepared))))))"

text \<open>The loop of \<open>poll\<close>; \<open>None\<close> is a call that never returns.\<close>

partial_function (option) poll_loop ::
  "('sv, 'op, 'acct, 'tx, 'au, 'rest, 'w, 'x) chain_api_scheme \<Rightarrow> string \<Rightarrow> jsnum \<Rightarrow> 'w
     \<Rightarrow> (submit_result result \<times> 'w) option" where
  "poll_loop C hash dl w =
     (if \<not> js_less (date_now C w) dl then
        Some (Inr \<lparr>sr_hash = hash, sr_status = NOT_FOUND, sr_ledger = None\<rparr>, w)
      else (case get_tx C hash w of
          (Inl e, w1) \<Rightarrow> Some (Inl e, w1)
        | (Inr r, w1) \<Rightarrow>
            if tr_status r = ''SUCCESS'' then
              Some (Inr \<lparr>sr_hash = hash, sr_status = SUCCESS, sr_ledger = tr_ledger r\<rparr>, w1)
            else if tr_status r = ''FAILED'' then
              Some (Inr \<lparr>sr_hash = hash, sr_status = FAILED, sr_ledger = tr_ledger r\<rparr>, w1)
            else poll_loop C hash dl (delay C POLL_INTERVAL_MS w1)))"

definition poll ::
  "('sv, 'op, 'acct, 'tx, 'au, 'rest, 'w, 'x) chain_api_scheme \<Rightarrow> string \<Rightarrow> jsnum option \<Rightarrow> 'w
     \<Rightarrow> (submit_result result \<times> 'w) option" where
  "poll C hash timeoutMs w =
     poll_loop C hash (js_add (date_now C w)
       (case timeoutMs of Some t \<Rightarrow> t | None \<Rightarrow> DEFAULT_TIMEOUT_MS)) w"

definition submitTransaction ::
  "('sv, 'op, 'acct, 'tx, 'au, 'rest, 'w, 'x) chain_api_scheme \<Rightarrow> 'tx \<Rightarrow> jsnum option \<Rightarrow> 'w
     \<Rightarrow> (submit_result result \<times> 'w) option" where
  "submitTransaction C tx timeoutMs w = (case send_tx C tx w of
       (Inl e, w1) \<Rightarrow> Some (Inl e, w1)
     | (Inr sent, w1) \<Rightarrow>
         if se_status sent = ''ERROR'' then
           Some (Inl (PlainError (''transaction rejected: '' @ se_error_json sent)), w1)
         else poll C (se_hash sent) timeoutMs w1)"

section \<open>Hexadecimal text reads back\<close>

lemma byte_digits: "(of_char c :: nat) div 16 < 16"
  by (simp add: of_char_def less_mult_imp_div_less)

lemma from_to_hex: "from_hex (to_hex s) = s"
proof (induction s)
  case (Cons c s)
  have "char_of (16 * ((of_char c :: nat) div 16) + of_char c mod 16) = c"
    by simp
  then show ?case
    using Cons byte_digits [of c] by (simp add: to_hex_Cons radix_digit_hex)
qed (simp add: to_hex_def)

lemma hex_char_digit: "n < 16 \<Longrightarrow> hex_char (hex_digit n)"
  by (simp add: hex_char_def radix_digit_hex)

lemma to_hex_hex: "list_all hex_char (to_hex s)" "length (to_hex s) = 2 * length s"
  by (induction s) (simp_all add: to_hex_Cons hex_char_digit byte_digits, simp_all add: to_hex_def)

interpretation hex_text: codec to_hex "\<lambda>s. Some (from_hex s)" "\<lambda>_. True"
  by unfold_locales (simp add: from_to_hex)

lemma bytesNScVal_hex: "length d = 32 \<Longrightarrow> bytesNScVal C (to_hex d) f = Inr (bytes_scval C d)"
  by (simp add: bytesNScVal_def to_hex_hex from_to_hex)

section \<open>The polling loop\<close>

text \<open>One round: the loop ends with an outcome (\<open>Inl\<close>) or goes on in a later world (\<open>Inr\<close>).\<close>

definition poll_step ::
  "('sv, 'op, 'acct, 'tx, 'au, 'rest, 'w, 'x) chain_api_scheme \<Rightarrow> string \<Rightarrow> jsnum \<Rightarrow> 'w
     \<Rightarrow> (submit_result result \<times> 'w) + 'w" where
  "poll_step C hash dl w =
     (if \<not> js_less (date_now C w) dl then
        Inl (Inr \<lparr>sr_hash = hash, sr_status = NOT_FOUND, sr_ledger = None\<rparr>, w)
      else (case get_tx C hash w of
          (Inl e, w1) \<Rightarrow> Inl (Inl e, w1)
        | (Inr r, w1) \<Rightarrow>
            if tr_status r = ''SUCCESS'' then
              Inl (Inr \<lparr>sr_hash = hash, sr_status = SUCCESS, sr_ledger = tr_ledger r\<rparr>, w1)
            else if tr_status r = ''FAILED'' then
              Inl (Inr \<lparr>sr_hash = hash, sr_status = FAILED, sr_ledger = tr_ledger r\<rparr>, w1)
            else Inr (delay C POLL_INTERVAL_MS w1)))"

lemma poll_loop_step:
  "poll_loop C hash dl w =
     (case poll_step C hash dl w of Inl y \<Rightarrow> Some y | Inr w' \<Rightarrow> poll_loop C hash dl w')"
  by (subst poll_loop.simps) (auto simp: poll_step_def split: prod.split sum.split)

text \<open>The same with a bound on the number of rounds.\<close>

fun poll_rounds ::
  "nat \<Rightarrow> ('sv, 'op, 'acct, 'tx, 'au, 'rest, 'w, 'x) chain_api_scheme \<Rightarrow> string \<Rightarrow> jsnum \<Rightarrow> 'w
     \<Rightarrow> (submit_result result \<times> 'w) option" where
  "poll_rounds 0 C hash dl w = None"
| "poll_rounds (Suc n) C hash dl w = (case poll_step C hash dl w of
       Inl y \<Rightarrow> Some y | Inr w' \<Rightarrow> poll_rounds n C hash dl w')"

lemma poll_rounds_loop: "poll_rounds n C hash dl w = Some y \<Longrightarrow> poll_loop C hash dl w = Some y"
proof (induction n arbitrary: w)
  case (Suc n)
  then show ?case
    by (subst poll_loop_step) (simp split: sum.splits)
qed simp

text \<open>What the loop relies on: \<open>setTimeout\<close> waits at least the time it is given, and a query
  does not turn the clock back.\<close>

definition clock_advances ::
  "('sv, 'op, 'acct, 'tx, 'au, 'rest, 'w, 'x) chain_api_scheme \<Rightarrow> string \<Rightarrow> bool" where
  "clock_advances C hash \<longleftrightarrow>
     (\<forall>w t r w1. date_now C w = Fin t \<longrightarrow> get_tx C hash w = (Inr r, w1) \<longrightarrow>
        (\<exists>t'. date_now C (delay C POLL_INTERVAL_MS w1) = Fin t' \<and> t + 1000 \<le> t'))"

lemma poll_step_goes_on:
  assumes "clock_advances C hash" and "date_now C w = Fin t"
    and "poll_step C hash (Fin d) w = Inr w'"
  shows "t < d \<and> (\<exists>t'. date_now C w' = Fin t' \<and> t + 1000 \<le> t')"
  using assms unfolding clock_advances_def poll_step_def
  by (auto split: if_splits prod.splits sum.splits)

lemma poll_rounds_end:
  assumes "clock_advances C hash" and "date_now C w = Fin t" and "d - t \<le> of_nat n * 1000"
  shows "\<exists>y. poll_rounds (Suc n) C hash (Fin d) w = Some y"
  using assms(2,3)
proof (induction n arbitrary: w t)
  case 0
  then show ?case
    by (simp add: poll_step_def)
next
  case (Suc n)
  show ?case
  proof (cases "poll_step C hash (Fin d) w")
    case (Inr w')
    then obtain t' where "date_now C w' = Fin t'" "t + 1000 \<le> t'"
      using poll_step_goes_on [OF assms(1) Suc.prems(1)] by blast
    then have "\<exists>y. poll_rounds (Suc n) C hash (Fin d) w' = Some y"
      using Suc.prems(2) by (intro Suc.IH) (auto simp: algebra_simps)
    then show ?thesis
      unfolding poll_rounds.simps(2) [of "Suc n"] by (simp only: Inr sum.case)
  qed simp
qed

text \<open>What the last round saw.\<close>

lemma poll_step_done:
  assumes "poll_step C hash dl w = Inl (Inr r, w')"
  shows "sr_hash r = hash \<and>
    (case sr_status r of
       NOT_FOUND \<Rightarrow> sr_ledger r = None \<and> \<not> js_less (date_now C w') dl
     | s \<Rightarrow> \<exists>resp. get_tx C hash w = (Inr resp, w') \<and> sr_ledger r = tr_ledger resp \<and>
         tr_status resp = (if s = SUCCESS then ''SUCCESS'' else ''FAILED''))"
  using assms by (auto simp: poll_step_def split: if_splits prod.splits sum.splits)

lemma poll_rounds_done:
  "poll_rounds n C hash dl w = Some (Inr r, w') \<Longrightarrow> \<exists>v. poll_step C hash dl v = Inl (Inr r, w')"
proof (induction n arbitrary: w)
  case (Suc n)
  then show ?case
    by (auto split: sum.splits)
qed simp

text \<open>A small world to evaluate the loop in: a clock in milliseconds, and the time at which
  the transaction is included.\<close>

type_synonym clock_world = "nat \<times> nat"

definition clock_api ::
  "(string, string, string, string, string, unit, clock_world) chain_api" where
  "clock_api = stellar_sdk.extend reference_sdk
    \<lparr>new_server = (\<lambda>_ _. Inr ()), new_contract = (\<lambda>_. Inr ()),
     contract_call = (\<lambda>c m vs. c @ CHR ''.'' # m @ concat vs), bytes_scval = (\<lambda>s. s),
     scval_type = (\<lambda>_. ''scvBytes''), scval_bytes = (\<lambda>s. s), scval_u32 = length,
     base_fee = ''100'', build_tx = (\<lambda>a f p op t. Inr (a @ op)),
     assemble_tx = (\<lambda>tx sim. Inr (tx @ concat (case sim_of sim of None \<Rightarrow> [] | Some r \<Rightarrow> sim_auth r))),
     sign_tx = (\<lambda>k tx. tx @ kp_secret k), date_now = (\<lambda>(t, _). Fin (of_nat t)),
     wait_ms = (\<lambda>ms (t, u). (t + (case ms of Fin q \<Rightarrow> nat \<lceil>q\<rceil> | _ \<Rightarrow> 0), u)), get_account = aret,
     simulate_tx = (\<lambda>tx. aret (SimulationSuccess (Some \<lparr>sim_retval = Some tx, sim_auth = []\<rparr>) ())),
     send_tx = (\<lambda>tx. aret \<lparr>se_status = ''PENDING'', se_hash = tx, se_error_json = []\<rparr>),
     get_tx = (\<lambda>h (t, u). (Inr (if u \<le> t then \<lparr>tr_status = ''SUCCESS'', tr_ledger = Some (Fin 9)\<rparr>
       else \<lparr>tr_status = ''NOT_FOUND'', tr_ledger = None\<rparr>), (t, u)))\<rparr>"

lemma clock_api_advances: "clock_advances clock_api h"
  by (auto simp: clock_advances_def clock_api_def stellar_sdk.defs reference_sdk_def delay_def
      POLL_INTERVAL_MS_def)

text \<open>The trader's entries replace the simulated ones, and nothing else changes.\<close>

lemma withAuth_success:
  "withAuth auth (SimulationSuccess res rest) = SimulationSuccess
     (case auth of Some (e # es) \<Rightarrow> map_option (\<lambda>r. r\<lparr>sim_auth := e # es\<rparr>) res | _ \<Rightarrow> res) rest"
  by (auto simp: withAuth_def split: option.split list.split)

text \<open>Real time.  \<open>Date.now()\<close> tells it in milliseconds up to the last time value of ECMAScript, and
  nothing lower after that; a timer takes some time, and an answer of the server does not turn
  the clock back.\<close>

definition MAX_TIME :: nat where
  "MAX_TIME = 8640000000000000"

definition tells_time ::
  "('w \<Rightarrow> nat) \<Rightarrow> ('sv, 'op, 'acct, 'tx, 'au, 'rest, 'w, 'x) chain_api_scheme \<Rightarrow> bool" where
  "tells_time clock C \<longleftrightarrow>
     (\<forall>w. clock w \<le> MAX_TIME \<longrightarrow> date_now C w = Fin (of_nat (clock w))) \<and>
     (\<forall>w. MAX_TIME < clock w \<longrightarrow> \<not> js_less (date_now C w) (Fin (of_nat MAX_TIME))) \<and>
     (\<forall>ms w. 0 < ms \<longrightarrow> clock w < clock (wait_ms C (Fin ms) w)) \<and>
     (\<forall>h w. clock w \<le> clock (snd (get_tx C h w)))"

lemma tells_time_passed:
  assumes "tells_time clock C" and "d \<le> MAX_TIME" and "d \<le> clock w"
  shows "\<not> js_less (date_now C w) (Fin (of_nat d))"
proof (cases "clock w \<le> MAX_TIME")
  case True
  then show ?thesis
    using assms by (simp add: tells_time_def)
next
  case False
  then have "\<not> js_less (date_now C w) (Fin (of_nat MAX_TIME))"
    using assms(1) by (simp add: tells_time_def)
  moreover have "(of_nat d :: rat) \<le> of_nat MAX_TIME"
    using assms(2) by simp
  ultimately show ?thesis
    by (cases "date_now C w") auto
qed

text \<open>A deadline that can be told ends the loop, whatever the server answers.\<close>

lemma timed_poll_returns:
  assumes "tells_time clock C" and "d \<le> MAX_TIME"
  shows "\<exists>y. poll_loop C hash (Fin (of_nat d)) w = Some y"
proof (induction "d - clock w" arbitrary: w rule: less_induct)
  case less
  show ?case
  proof (cases "poll_step C hash (Fin (of_nat d)) w")
    case (Inl y)
    then show ?thesis
      by (simp add: poll_loop_step [of C hash _ w])
  next
    case (Inr w')
    obtain r w1 where g: "get_tx C hash w = (r, w1)"
      by (rule prod.exhaust)
    have "js_less (date_now C w) (Fin (of_nat d))" and w': "w' = wait_ms C (Fin 1000) w1"
      using Inr g by (auto simp: poll_step_def delay_def POLL_INTERVAL_MS_def split: if_splits sum.splits)
    then have "clock w < d"
      using tells_time_passed [OF assms] not_le by blast
    moreover have "clock w \<le> clock w1" "clock w1 < clock w'"
      using assms(1) g by (simp_all add: tells_time_def w') (metis snd_conv)
    ultimately have "d - clock w' < d - clock w"
      by linarith
    from less [OF this] show ?thesis
      using Inr by (simp add: poll_loop_step [of C hash _ w])
  qed
qed

lemma timed_submit_returns:
  assumes "tells_time clock C" and "clock (snd (send_tx C tx w)) + m \<le> MAX_TIME"
  shows "submitTransaction C tx (Some (Fin (of_nat m))) w \<noteq> None"
proof -
  obtain r w1 where s: "send_tx C tx w = (r, w1)"
    by (rule prod.exhaust)
  then have time: "clock w1 + m \<le> MAX_TIME"
    using assms(2) by simp
  then have "js_add (Fin (of_nat (clock w1))) (Fin (of_nat m)) = Fin (of_nat (clock w1 + m))"
    using round_double_of_int [of "int (clock w1 + m)"] by (simp add: MAX_TIME_def)
  moreover have "date_now C w1 = Fin (of_nat (clock w1))"
    using assms(1) time by (simp add: tells_time_def)
  ultimately have "poll C h (Some (Fin (of_nat m))) w1 \<noteq> None" for h
    using timed_poll_returns [OF assms(1) time, of h w1] by (auto simp: poll_def simp del: js_add.simps)
  then show ?thesis
    using s by (cases r) (auto simp: submitTransaction_def)
qed

section \<open>Properties\<close>

text \<open>(C28) \<open>poll\<close> always returns: with a clock that moves by the interval it waits, it ends after
  at most one query per second of the timeout and a last look at the clock.\<close>

theorem poll_returns:
  assumes "clock_advances C hash" and "date_now C w = Fin t"
    and "js_add (Fin t) ms = Fin d" and "d - t \<le> of_nat n * 1000"
  shows "\<exists>y. poll C hash (Some ms) w = Some y \<and> poll_rounds (Suc n) C hash (Fin d) w = Some y"
  using poll_rounds_end [OF assms(1,2,4)] poll_rounds_loop assms(2,3)
  by (fastforce simp: poll_def)

theorem poll_returns_witness:
  "\<exists>y. poll clock_api ''h'' (Some (Fin 3000)) (0, 1500) = Some y \<and>
     poll_rounds 4 clock_api ''h'' (Fin 3000) (0, 1500) = Some y"
proof -
  have add: "js_add (Fin 0) (Fin 3000) = Fin 3000"
    using round_double_of_int [of 3000] by simp
  have now: "date_now clock_api (0, 1500) = Fin 0"
    by (simp add: clock_api_def stellar_sdk.defs)
  show ?thesis
    using poll_returns [OF clock_api_advances now add, where n = 3]
    by (simp add: numeral_nat)
qed

text \<open>(C29) What the outcome of \<open>poll\<close> means: success and failure are the last answer of the
  server, with its ledger; NOT_FOUND is reported only when the deadline has passed.\<close>

theorem poll_outcome:
  assumes "clock_advances C hash" and "date_now C w = Fin t" and "js_add (Fin t) ms = Fin d"
    and "poll C hash (Some ms) w = Some (Inr r, w')"
  shows "sr_hash r = hash \<and>
    (case sr_status r of
       NOT_FOUND \<Rightarrow> sr_ledger r = None \<and> \<not> js_less (date_now C w') (Fin d)
     | s \<Rightarrow> \<exists>v resp. get_tx C hash v = (Inr resp, w') \<and> sr_ledger r = tr_ledger resp \<and>
         tr_status resp = (if s = SUCCESS then ''SUCCESS'' else ''FAILED''))"
proof -
  define n where "n = nat \<lceil>(d - t) / 1000\<rceil>"
  have "(d - t) / 1000 \<le> of_nat n"
    unfolding n_def by linarith
  then have "d - t \<le> of_nat n * 1000"
    by simp
  then obtain y where "poll_rounds (Suc n) C hash (Fin d) w = Some y"
    using poll_rounds_end [OF assms(1,2)] by blast
  moreover from this have "poll_loop C hash (Fin d) w = Some y"
    by (rule poll_rounds_loop)
  ultimately have "poll_rounds (Suc n) C hash (Fin d) w = Some (Inr r, w')"
    using assms(2-4) by (simp add: poll_def)
  then obtain v where "poll_step C hash (Fin d) v = Inl (Inr r, w')"
    using poll_rounds_done [of "Suc n" C hash "Fin d" w r w'] by blast
  from poll_step_done [OF this] show ?thesis
    by (auto split: submit_status.splits)
qed

theorem poll_outcome_witness:
  "\<exists>r w'. poll clock_api ''h'' (Some (Fin 3000)) (0, 1500) = Some (Inr r, w') \<and> sr_hash r = ''h''"
proof -
  have add: "js_add (Fin 0) (Fin 3000) = Fin 3000"
    using round_double_of_int [of 3000] by simp
  have now: "date_now clock_api (0, 1500) = Fin 0"
    by (simp add: clock_api_def stellar_sdk.defs)
  have "poll_rounds 4 clock_api ''h'' (Fin 3000) (0, 1500)
      = Some (Inr \<lparr>sr_hash = ''h'', sr_status = SUCCESS, sr_ledger = Some (Fin 9)\<rparr>, (2000, 1500))"
    by (simp add: numeral_nat poll_step_def clock_api_def stellar_sdk.defs delay_def POLL_INTERVAL_MS_def)
  then have "poll clock_api ''h'' (Some (Fin 3000)) (0, 1500)
      = Some (Inr \<lparr>sr_hash = ''h'', sr_status = SUCCESS, sr_ledger = Some (Fin 9)\<rparr>, (2000, 1500))"
    using poll_rounds_loop [of 4 clock_api "''h''" "Fin 3000" "(0, 1500)"]
    by (simp add: poll_def now add [simplified])
  with poll_outcome [OF clock_api_advances now add this] show ?thesis
    by blast
qed

text \<open>A prepared fill is the transaction the parameters ask for: it calls
  \<open>execute_intent\<close> with solver, intent and amount, at the given fee, is assembled from its
  own simulation with the trader's authorization entries in place of the simulated ones when
  there are any, and is signed by the solver.\<close>

lemma prepareExecuteIntent_result:
  assumes "prepareExecuteIntent C cl p w = (Inr tx, w')"
  shows "\<exists>s v a source raw res rest prepared w1.
    address_scval C (kp_publicKey (ep_solver p)) = Inr s \<and> intentToScVal C (ep_intent p) = Inr v \<and>
    i128_scval C (ep_actualBuyAmount p) = Inr a \<and>
    get_account C (kp_publicKey (ep_solver p)) w = (Inr source, w1) \<and>
    build_tx C source (case ep_fee p of Some f \<Rightarrow> f | None \<Rightarrow> base_fee C) (cl_networkPassphrase cl)
      (contract_call C (cl_contractId cl) ''execute_intent'' [s, v, a]) 60 = Inr raw \<and>
    simulate_tx C raw w1 = (Inr (SimulationSuccess res rest), w') \<and>
    assemble_tx C raw (SimulationSuccess
      (case ep_authEntries p of
         Some (e # es) \<Rightarrow> map_option (\<lambda>r. r\<lparr>sim_auth := e # es\<rparr>) res
       | _ \<Rightarrow> res) rest) = Inr prepared \<and>
    tx = sign_tx C (ep_solver p) prepared"
proof -
  let ?finish = "\<lambda>raw sim. case sim of
      SimulationError e \<Rightarrow> alift (Inl (PlainError (''execute_intent simulation failed: '' @ e)))
    | SimulationSuccess _ _ \<Rightarrow>
        abind (alift (assemble_tx C raw (withAuth (ep_authEntries p) sim)))
          (\<lambda>prepared. aret (sign_tx C (ep_solver p) prepared))"
  obtain source w1 operation raw sim w2 where
    source: "get_account C (kp_publicKey (ep_solver p)) w = (Inr source, w1)" and
    operation: "buildExecuteIntentOperation C cl (kp_publicKey (ep_solver p)) (ep_intent p)
      (ep_actualBuyAmount p) = Inr operation" and
    raw: "buildTransaction C cl source operation
      (case ep_fee p of Some f \<Rightarrow> f | None \<Rightarrow> base_fee C) = Inr raw" and
    sim: "simulate_tx C raw w1 = (Inr sim, w2)" and
    finish: "?finish raw sim w2 = (Inr tx, w')"
    using assms unfolding prepareExecuteIntent_def abind_eq_Inr alift_eq by blast
  from finish have w2: "w2 = w'" and
    rest: "\<exists>res rest prepared. sim = SimulationSuccess res rest \<and>
      assemble_tx C raw (withAuth (ep_authEntries p) sim) = Inr prepared \<and>
      tx = sign_tx C (ep_solver p) prepared"
    by (cases sim; auto simp: action_eqs)+
  obtain s v a where "address_scval C (kp_publicKey (ep_solver p)) = Inr s"
    "intentToScVal C (ep_intent p) = Inr v" "i128_scval C (ep_actualBuyAmount p) = Inr a"
    "operation = contract_call C (cl_contractId cl) ''execute_intent'' [s, v, a]"
    using operation by (auto simp: buildExecuteIntentOperation_def result_simps)
  with source raw sim w2 rest show ?thesis
    by (fastforce simp: buildTransaction_def withAuth_success)
qed

definition sample_client :: slipguard_client where
  "sample_client = \<lparr>cl_contractId = ''R'', cl_networkPassphrase = ''N'', cl_publicKey = None\<rparr>"

text \<open>A fill with one entry given.\<close>

definition sample_params :: "string execute_params" where
  "sample_params = \<lparr>ep_solver = \<lparr>kp_publicKey = ''S'', kp_secret = ''K''\<rparr>, ep_intent = sample_intent,
     ep_actualBuyAmount = 990, ep_fee = None, ep_authEntries = Some [''A'']\<rparr>"

lemma sample_prepared: "\<exists>tx. prepareExecuteIntent clock_api sample_client sample_params (0, 0) = (Inr tx, (0, 0))"
  by (simp add: prepareExecuteIntent_def buildExecuteIntentOperation_def intentToScVal_def
      byField_def scval_defs buildTransaction_def clock_api_def stellar_sdk.defs
      reference_sdk_def sample_params_def sample_intent_def action_simps abind_def)

text \<open>The status query sends the intent's digest: the hexadecimal hash is always accepted and
  decoded to the very bytes that were hashed to.\<close>

lemma status_query_sends_digest:
  assumes "\<forall>x. length (sha256 C x) = 32" and "intentDigest C i = Inr d"
  shows "rbind (hashIntent C i) (buildGetIntentStatusOperation C cl) =
    Inr (contract_call C (cl_contractId cl) ''get_intent_status'' [bytes_scval C d])"
proof -
  have "length d = 32"
    using assms by (auto simp: intentDigest_def result_simps)
  then show ?thesis
    using assms(2) by (simp add: hashIntent_def buildGetIntentStatusOperation_def bytesNScVal_hex)
qed

end
