(* ===== verification/Logger.thy ===== *)
theory Logger
  imports JsConvert
begin

section \<open>The JSON-line logger\<close>

text \<open>
  packages/solver-bot/src/logger.ts.  A logger is the closure \<open>createLogger\<close> returns: its
  threshold and its bindings.  A call yields the lines handed to the sink (none or one), or
  the TypeError of \<open>JSON.stringify\<close> on a BigInt; \<open>ts\<close> is the text of
  \<open>new Date().toISOString()\<close>.
\<close>

datatype log_level = Debug | Info | Warn | Error

fun LEVEL_RANK :: "log_level \<Rightarrow> nat" where
  "LEVEL_RANK Debug = 10"
| "LEVEL_RANK Info = 20"
| "LEVEL_RANK Warn = 30"
| "LEVEL_RANK Error = 40"

fun level_name :: "log_level \<Rightarrow> string" where
  "level_name Debug = ''debug''"
| "level_name Info = ''info''"
| "level_name Warn = ''warn''"
| "level_name Error = ''error''"

type_synonym meta = "(string \<times> jsval) list"

record logger =
  log_threshold :: log_level
  log_bindings :: meta

definition createLogger :: "log_level \<Rightarrow> meta \<Rightarrow> logger" where
  "createLogger level bindings = \<lparr>log_threshold = level, log_bindings = bindings\<rparr>"

text \<open>The object literal: three properties, then the two spreads.\<close>

definition log_entry :: "logger \<Rightarrow> string \<Rightarrow> log_level \<Rightarrow> string \<Rightarrow> meta \<Rightarrow> meta" where
  "log_entry lg ts level msg meta =
     obj_puts meta (obj_puts (log_bindings lg)
       [(''ts'', JStr ts), (''level'', JStr (level_name level)), (''msg'', JStr msg)])"

definition emit :: "logger \<Rightarrow> string \<Rightarrow> log_level \<Rightarrow> string \<Rightarrow> meta \<Rightarrow> string list result" where
  "emit lg ts level msg meta =
     (if LEVEL_RANK level < LEVEL_RANK (log_threshold lg) then Inr []
      else rbind (json_stringify (JObj (log_entry lg ts level msg meta)))
        (\<lambda>line. Inr (case line of None \<Rightarrow> [] | Some s \<Rightarrow> [s])))"

text \<open>The methods of the object \<open>createLogger\<close> returns, beside \<open>child\<close>.\<close>

definition log_methods :: "logger \<Rightarrow> string \<Rightarrow> (string \<times> (string \<Rightarrow> meta \<Rightarrow> string list result)) list" where
  "log_methods lg ts = [(''debug'', emit lg ts Debug), (''info'', emit lg ts Info),
     (''warn'', emit lg ts Warn), (''error'', emit lg ts Error)]"

text \<open>Each method is named after the level it writes.\<close>

lemma log_method_level: "map_of (log_methods lg ts) (level_name level) = Some (emit lg ts level)"
  by (cases level) (simp_all add: log_methods_def)

definition child :: "logger \<Rightarrow> meta \<Rightarrow> logger" where
  "child lg bindings = createLogger (log_threshold lg) (obj_puts bindings (log_bindings lg))"

text \<open>\<open>value?.trim().toLowerCase()\<close>: \<open>None\<close> is \<open>undefined\<close>.\<close>

definition parseLogLevel :: "string option \<Rightarrow> log_level" where
  "parseLogLevel v = (case v of
       None \<Rightarrow> Info
     | Some s \<Rightarrow>
         let normalized = to_lower (js_trim s) in
         if normalized = ''debug'' then Debug
         else if normalized = ''info'' then Info
         else if normalized = ''warn'' then Warn
         else if normalized = ''error'' then Error else Info)"

section \<open>Facts about objects\<close>

text \<open>The library's objects obey the laws of a map: what was stored last is read back.\<close>

lemma map_of_insert_index:
  "k \<notin> fst ` set kvs \<Longrightarrow> map_of (insert_index n (k, v) kvs) = (map_of kvs)(k \<mapsto> v)"
  by (induction kvs) (auto simp: fun_eq_iff split: option.split)

lemma map_of_overwrite:
  "map_of (map (\<lambda>(l, w). if l = k then (l, v) else (l, w)) kvs) =
     (if k \<in> fst ` set kvs then (map_of kvs)(k \<mapsto> v) else map_of kvs)"
  by (induction kvs) (auto simp: fun_eq_iff)

lemma map_of_obj_put: "map_of (obj_put k v kvs) = (map_of kvs)(k \<mapsto> v)"
  by (auto simp: obj_put_def map_of_overwrite map_of_insert_index fun_eq_iff map_add_def map_of_eq_None_iff [THEN iffD2]
      split: option.split)

interpretation js_object: property_map obj_put map_of
  by unfold_locales (rule map_of_obj_put)

lemma map_of_obj_puts:
  "map_of (obj_puts new kvs) k = (case map_of (rev new) k of Some v \<Rightarrow> Some v | None \<Rightarrow> map_of kvs k)"
  unfolding obj_puts_def by (rule js_object.look_spread)

text \<open>Keys stay distinct, and the objects are those maps that the spreads combine.\<close>

lemma set_insert_index: "set (insert_index n e kvs) = insert e (set kvs)"
  by (induction kvs) (auto split: option.split)

lemma distinct_insert_index:
  "k \<notin> fst ` set kvs \<Longrightarrow> distinct (map fst kvs) \<Longrightarrow> distinct (map fst (insert_index n (k, v) kvs))"
  by (induction kvs) (auto simp: set_insert_index split: option.split)

lemma distinct_obj_put: "distinct (map fst kvs) \<Longrightarrow> distinct (map fst (obj_put k v kvs))"
proof -
  have "map fst (map (\<lambda>(l, w). if l = k then (l, v) else (l, w)) kvs) = map fst kvs"
    by auto
  then show "distinct (map fst kvs) \<Longrightarrow> distinct (map fst (obj_put k v kvs))"
    by (simp add: obj_put_def distinct_insert_index del: map_map split: option.split)
qed

lemma distinct_obj_puts: "distinct (map fst kvs) \<Longrightarrow> distinct (map fst (obj_puts new kvs))"
  unfolding obj_puts_def by (induction new arbitrary: kvs) (auto simp: distinct_obj_put)

lemma map_of_obj_puts_distinct:
  assumes "distinct (map fst new)"
  shows "map_of (obj_puts new kvs) = map_of kvs ++ map_of new"
proof -
  have "map_of (rev new) k = map_of new k" for k
  proof (cases "map_of new k")
    case None
    then have "map_of (rev new) k = None"
      by (simp add: map_of_eq_None_iff)
    with None show ?thesis
      by simp
  next
    case (Some v)
    then have "(k, v) \<in> set (rev new)"
      by (simp add: map_of_SomeD)
    then show ?thesis
      using assms Some by (simp add: map_of_is_SomeI rev_map [symmetric])
  qed
  then show ?thesis
    by (auto simp: fun_eq_iff map_of_obj_puts map_add_def split: option.split)
qed

text \<open>\<open>has_bigint\<close> of an object looks at the values that stay reachable.\<close>

lemma set_obj_put: "set (obj_put k v kvs) \<subseteq> insert (k, v) (set kvs)"
  by (auto simp: obj_put_def set_insert_index split: option.splits if_splits)

lemma set_obj_puts: "set (obj_puts new kvs) \<subseteq> set new \<union> set kvs"
  unfolding obj_puts_def
proof (induction new arbitrary: kvs)
  case (Cons e new)
  show ?case
    using Cons [of "obj_put (fst e) (snd e) kvs"] set_obj_put [of "fst e" "snd e" kvs]
    by (auto simp: split_beta)
qed simp

definition no_bigints :: "meta \<Rightarrow> bool" where
  "no_bigints kvs \<longleftrightarrow> list_all (\<lambda>(k, v). \<not> has_bigint v) kvs"

lemma has_bigint_obj: "has_bigint (JObj kvs) \<longleftrightarrow> \<not> no_bigints kvs"
  by (auto simp: no_bigints_def list_all_iff list_ex_iff)

lemma no_bigints_puts: "no_bigints new \<Longrightarrow> no_bigints kvs \<Longrightarrow> no_bigints (obj_puts new kvs)"
  using set_obj_puts [of new kvs] by (fastforce simp: no_bigints_def list_all_iff)

lemma emit_ok:
  assumes "no_bigints (log_bindings lg)" and "no_bigints meta"
  shows "emit lg ts level msg meta =
    Inr (if LEVEL_RANK level < LEVEL_RANK (log_threshold lg) then []
         else [json_text (JObj (log_entry lg ts level msg meta))])"
proof -
  have "no_bigints (log_entry lg ts level msg meta)"
    unfolding log_entry_def using assms
    by (intro no_bigints_puts) (simp_all add: no_bigints_def)
  then have "\<not> has_bigint (JObj (log_entry lg ts level msg meta))"
    by (simp only: has_bigint_obj not_not)
  then show ?thesis
    by (simp add: emit_def json_stringify_def del: json_text.simps has_bigint.simps)
qed

section \<open>Properties\<close>

text \<open>(C36) A log call without BigInts never throws; below the threshold it writes nothing, and
  otherwise exactly one entry without a line break, so the stream is one JSON text per line.\<close>

theorem emit_one_line:
  assumes "no_bigints (log_bindings lg)" and "no_bigints meta"
  shows "case emit lg ts level msg meta of
      Inl e \<Rightarrow> False
    | Inr out \<Rightarrow>
        if LEVEL_RANK level < LEVEL_RANK (log_threshold lg) then out = []
        else out = [json_text (JObj (log_entry lg ts level msg meta))] \<and>
          CHR 0x0A \<notin> set (concat out)"
  using assms by (simp add: emit_ok json_text_one_line del: json_text.simps)

theorem emit_one_line_witness:
  "emit (createLogger Info [(''service'', JStr ''s'')]) ''t'' Debug ''m'' [] = Inr []"
  using emit_one_line [where lg = "createLogger Info [(''service'', JStr ''s'')]" and meta = "[]"
      and ts = "''t''" and level = Debug and msg = "''m''"]
  by (simp add: createLogger_def no_bigints_def split: sum.splits)

text \<open>What an entry says: a property given with the call wins over the bindings, which win
  over the time, level and message; a child logger keeps the threshold and adds its own
  bindings over its parent's.\<close>

lemma log_entry_precedence:
  assumes "distinct (map fst meta)" and "distinct (map fst bs)"
    and "distinct (map fst (log_bindings lg))"
  shows "map_of (log_entry (child lg bs) ts level msg meta) =
      map_of [(''ts'', JStr ts), (''level'', JStr (level_name level)), (''msg'', JStr msg)]
        ++ map_of (log_bindings lg) ++ map_of bs ++ map_of meta \<and>
    log_threshold (child lg bs) = log_threshold lg"
  using assms
  by (simp add: log_entry_def child_def createLogger_def map_of_obj_puts_distinct distinct_obj_puts)

lemma log_entry_precedence_witness:
  "map_of (log_entry (child (createLogger Info [(''service'', JStr ''s'')]) [(''msg'', JNull)])
      ''t'' Info ''m'' [(''level'', JBool True)]) ''msg'' = Some JNull"
  using log_entry_precedence [where meta = "[(''level'', JBool True)]" and bs = "[(''msg'', JNull)]"
      and lg = "createLogger Info [(''service'', JStr ''s'')]" and ts = "''t''" and level = Info
      and msg = "''m''"]
  by (simp add: createLogger_def)

end
