(* ===== verification/FillRule.thy ===== *)
theory FillRule
  imports JsNumber
begin

section \<open>The fee and slippage rule\<close>

text \<open>
  The contract that the router's \<open>mul_bps\<close> and the solver bot's \<open>bpsOf\<close> share: a share of
  an amount in basis points, rounded down.  Everything the protocol promises about fees,
  net proceeds and tolerated shortfall follows from it; both implementations interpret the
  locale.  \<open>fee a b\<close> is only constrained on \<open>ok\<close> inputs (no throw, no overflow).
\<close>

definition bps_share :: "int \<Rightarrow> int \<Rightarrow> int" where
  "bps_share a b = a * b div 10000"

text \<open>The shortfall of the proceeds \<open>p\<close> below the minimum \<open>m\<close>, in whole basis points.\<close>

definition shortfall_bps :: "int \<Rightarrow> int \<Rightarrow> int" where
  "shortfall_bps m p = (if p < m then (m - p) * 10000 div m else 0)"

text \<open>The decision the protocol documents, for a fill of \<open>a\<close>.\<close>

definition fill_within_terms :: "int \<Rightarrow> int \<Rightarrow> int \<Rightarrow> int \<Rightarrow> bool" where
  "fill_within_terms m max_slip fee_bps a \<longleftrightarrow>
     m \<le> a \<and> shortfall_bps m (a - bps_share a fee_bps) \<le> max_slip"

locale bps_fee =
  fixes fee :: "int \<Rightarrow> int \<Rightarrow> int"
    and ok :: "int \<Rightarrow> int \<Rightarrow> bool"
  assumes fee_lower: "ok a b \<Longrightarrow> 0 \<le> a \<Longrightarrow> 0 \<le> b \<Longrightarrow> fee a b * 10000 \<le> a * b"
    and fee_upper: "ok a b \<Longrightarrow> 0 \<le> a \<Longrightarrow> 0 \<le> b \<Longrightarrow> a * b < (fee a b + 1) * 10000"
begin

lemma fee_eq: "ok a b \<Longrightarrow> 0 \<le> a \<Longrightarrow> 0 \<le> b \<Longrightarrow> fee a b = bps_share a b"
  unfolding bps_share_def
  by (rule int_div_pos_eq [symmetric, where r = "a * b - fee a b * 10000"])
     (use fee_lower [of a b] fee_upper [of a b] in \<open>simp_all add: algebra_simps\<close>)

lemma fee_nonneg: "ok a b \<Longrightarrow> 0 \<le> a \<Longrightarrow> 0 \<le> b \<Longrightarrow> 0 \<le> fee a b"
  by (simp add: fee_eq bps_share_def pos_imp_zdiv_nonneg_iff)

lemma fee_le_amount:
  assumes "ok a b" and "0 \<le> a" and "0 \<le> b" and "b \<le> 10000"
  shows "fee a b \<le> a"
proof -
  have "fee a b * 10000 \<le> a * b"
    using assms by (intro fee_lower)
  also have "\<dots> \<le> a * 10000"
    using assms by (intro mult_left_mono) simp_all
  finally show ?thesis by simp
qed

text \<open>The two parts of a fill add up, and neither is negative.\<close>

lemma split_conserves:
  assumes "ok a b" "0 \<le> a" "0 \<le> b" "b \<le> 10000"
  shows "(a - fee a b) + fee a b = a" and "0 \<le> a - fee a b" and "0 \<le> fee a b"
  using fee_le_amount [OF assms] fee_nonneg [OF assms(1-3)] by simp_all

end

section \<open>Consequences for the trader\<close>

lemma bps_share_bounds:
  assumes "0 \<le> a" and "0 \<le> b" and "b \<le> 10000"
  shows "0 \<le> bps_share a b" and "bps_share a b \<le> a"
proof -
  show "0 \<le> bps_share a b"
    using assms by (simp add: bps_share_def pos_imp_zdiv_nonneg_iff)
  have "a * b div 10000 \<le> a * 10000 div 10000"
    using assms by (intro zdiv_mono1 mult_left_mono) simp_all
  then show "bps_share a b \<le> a"
    by (simp add: bps_share_def)
qed

lemma bps_share_mono: "a \<le> a' \<Longrightarrow> 0 \<le> b \<Longrightarrow> bps_share a b \<le> bps_share a' b"
  by (simp add: bps_share_def zdiv_mono1 mult_right_mono)

lemma shortfall_bps_nonneg: "0 < m \<Longrightarrow> 0 \<le> shortfall_bps m p"
  by (simp add: shortfall_bps_def pos_imp_zdiv_nonneg_iff)

lemma le_zdiv_iff:
  assumes "0 < (m :: int)"
  shows "t \<le> x div m \<longleftrightarrow> t * m \<le> x"
proof
  assume "t \<le> x div m"
  then have "t * m \<le> x div m * m"
    using assms by (intro mult_right_mono) simp_all
  also have "\<dots> \<le> x"
    using assms by (simp add: minus_mod_eq_div_mult [symmetric])
  finally show "t * m \<le> x" .
next
  assume "t * m \<le> x"
  then have "t * m div m \<le> x div m"
    using assms by (rule zdiv_mono1)
  then show "t \<le> x div m"
    using assms by simp
qed

text \<open>An accepted shortfall stays below the tolerance plus one basis point.\<close>

lemma shortfall_le_iff:
  assumes "0 < m" and "0 \<le> t"
  shows "shortfall_bps m p \<le> t \<longleftrightarrow> (m - p) * 10000 < (t + 1) * m"
proof (cases "p < m")
  case True
  then show ?thesis
    using le_zdiv_iff [OF assms(1), of "t + 1" "(m - p) * 10000"]
    by (auto simp: shortfall_bps_def)
next
  case False
  then have "(m - p) * 10000 \<le> 0"
    by simp
  moreover have "0 < (t + 1) * m"
    using assms by (intro mult_pos_pos) simp_all
  ultimately show ?thesis
    using False assms(2) by (simp add: shortfall_bps_def)
qed

text \<open>More proceeds, less shortfall.\<close>

lemma shortfall_antimono:
  assumes "0 < m" and "p \<le> p'"
  shows "shortfall_bps m p' \<le> shortfall_bps m p"
proof (cases "p' < m")
  case True
  then show ?thesis
    using assms by (simp add: shortfall_bps_def zdiv_mono1)
next
  case False
  then show ?thesis
    using shortfall_bps_nonneg [OF assms(1)] by (simp add: shortfall_bps_def)
qed

text \<open>A fill of exactly the minimum falls short by no more than the fee rate.\<close>

lemma shortfall_at_minimum:
  assumes "0 < m" and "0 \<le> b"
  shows "shortfall_bps m (m - bps_share m b) \<le> b"
proof -
  have "bps_share m b * 10000 \<le> m * b"
    by (simp add: bps_share_def)
  also have "m * b < (b + 1) * m"
    using assms by (simp add: algebra_simps)
  finally show ?thesis
    using assms by (simp add: shortfall_le_iff)
qed

text \<open>Net proceeds grow with the fill.\<close>

lemma proceeds_mono:
  assumes "0 \<le> b" and "b \<le> 10000" and "a \<le> a'"
  shows "a - bps_share a b \<le> a' - bps_share a' b"
proof -
  have "a' * b \<le> a * b + (a' - a) * 10000"
    using assms mult_left_mono [of b 10000 "a' - a"] by (simp add: algebra_simps)
  then have "a' * b div 10000 \<le> (a * b + (a' - a) * 10000) div 10000"
    by (rule zdiv_mono1) simp
  then show ?thesis
    by (simp add: bps_share_def)
qed

lemma fill_within_terms_mono:
  assumes "0 < m" "0 \<le> b" "b \<le> 10000" and "fill_within_terms m t b a" and "a \<le> a'"
  shows "fill_within_terms m t b a'"
  using assms shortfall_antimono [OF assms(1) proceeds_mono [OF assms(2,3,5)]]
  by (simp add: fill_within_terms_def)

end
