(* ===== verification/Evaluator.thy ===== *)
theory Evaluator
  imports IntentCodec FillRule
begin

section \<open>The solver's evaluator\<close>

text \<open>
  packages/solver-bot/src/evaluator.ts: the mirror of the router's checks
  (\<open>checkFillAgainstIntent\<close>), the profit estimate (\<open>evaluateIntent\<close>) and the valuation
  from USD prices (\<open>marketValueInQuote\<close>, \<open>evaluateFromPrices\<close>).  All of them may throw:
  \<open>BigInt(x)\<close> of a fraction, a BigInt division by zero, the RangeErrors of the code.
\<close>

definition BPS_DENOMINATOR_BIG :: int where
  "BPS_DENOMINATOR_BIG = 10000"

definition PRICE_SCALE :: int where
  "PRICE_SCALE = 1000000"

record fill_check =
  fc_ok :: bool
  fc_reason :: string
  fc_solverFee :: int
  fc_traderProceeds :: int
  fc_shortfallBps :: int

record evaluation_input =
  ei_intent :: trader_intent
  ei_fillAmount :: int
  ei_marketValueOfSell :: int
  ei_txCost :: int
  ei_minProfit :: int
  ei_now :: "jsnum option"

record evaluation_result =
  er_profitable :: bool
  er_reason :: string
  er_fillAmount :: int
  er_solverFee :: int
  er_traderProceeds :: int
  er_marketValueOfSell :: int
  er_txCost :: int
  er_netProfit :: int

definition bpsOf :: "int \<Rightarrow> jsnum \<Rightarrow> int result" where
  "bpsOf amount bps =
     (if \<not> is_integer bps \<or> js_less bps (Fin 0) then
        Inl (RangeError ''bps must be a non-negative integer'')
      else rbind (bigint_of_num bps) (\<lambda>b. bigint_div (amount * b) BPS_DENOMINATOR_BIG))"

text \<open>\<open>{ ...base, reason }\<close>.\<close>

definition rejected :: "string \<Rightarrow> fill_check" where
  "rejected r = \<lparr>fc_ok = False, fc_reason = r, fc_solverFee = 0, fc_traderProceeds = 0,
     fc_shortfallBps = 0\<rparr>"

definition checkFillAgainstIntent :: "trader_intent \<Rightarrow> int \<Rightarrow> jsnum \<Rightarrow> fill_check result" where
  "checkFillAgainstIntent i fillAmount now =
     (if sellAmount i \<le> 0 \<or> minBuyAmount i \<le> 0 then
        Inr (rejected ''intent amounts must be positive'')
      else if js_less (Fin 10000) (maxSlippageBps i) \<or> js_less (Fin 10000) (solverFeeBps i) then
        Inr (rejected ''intent basis points out of range'')
      else if fillAmount < 0 then
        Inr (rejected ''fill amount must not be negative'')
      else if js_less (deadline i) now then
        Inr (rejected ''intent expired'')
      else if fillAmount < minBuyAmount i then
        Inr (rejected (''fill below the trader'' @ [CHR 0x27] @ ''s minimum buy amount''))
      else
        rbind (bpsOf fillAmount (solverFeeBps i)) (\<lambda>solverFee.
        let traderProceeds = fillAmount - solverFee in
        if traderProceeds < minBuyAmount i then
          let shortfall = minBuyAmount i - traderProceeds in
          rbind (bigint_div (shortfall * BPS_DENOMINATOR_BIG) (minBuyAmount i)) (\<lambda>shortfallBps.
          rbind (bigint_of_num (maxSlippageBps i)) (\<lambda>maxSlip.
          if shortfallBps > maxSlip then
            Inr \<lparr>fc_ok = False, fc_reason = ''trader slippage tolerance exceeded'',
                 fc_solverFee = solverFee, fc_traderProceeds = traderProceeds,
                 fc_shortfallBps = shortfallBps\<rparr>
          else
            Inr \<lparr>fc_ok = True, fc_reason = ''fill accepted'', fc_solverFee = solverFee,
                 fc_traderProceeds = traderProceeds, fc_shortfallBps = shortfallBps\<rparr>))
        else
          Inr \<lparr>fc_ok = True, fc_reason = ''fill accepted'', fc_solverFee = solverFee,
               fc_traderProceeds = traderProceeds, fc_shortfallBps = 0\<rparr>))"

definition evaluateIntent :: "jsnum \<Rightarrow> evaluation_input \<Rightarrow> evaluation_result result" where
  "evaluateIntent date_now input =
     (let now = now_or_clock date_now (ei_now input) in
      rbind (checkFillAgainstIntent (ei_intent input) (ei_fillAmount input) now) (\<lambda>check.
      if \<not> fc_ok check then
        Inr \<lparr>er_profitable = False, er_reason = fc_reason check,
             er_fillAmount = ei_fillAmount input, er_solverFee = fc_solverFee check,
             er_traderProceeds = fc_traderProceeds check,
             er_marketValueOfSell = ei_marketValueOfSell input, er_txCost = ei_txCost input,
             er_netProfit = 0\<rparr>
      else
        let netProfit = ei_marketValueOfSell input + fc_solverFee check
              - ei_fillAmount input - ei_txCost input;
            profitable = (netProfit \<ge> ei_minProfit input)
        in Inr \<lparr>er_profitable = profitable,
             er_reason = (if profitable then ''profitable''
                          else ''net profit below the configured minimum''),
             er_fillAmount = ei_fillAmount input, er_solverFee = fc_solverFee check,
             er_traderProceeds = fc_traderProceeds check,
             er_marketValueOfSell = ei_marketValueOfSell input, er_txCost = ei_txCost input,
             er_netProfit = netProfit\<rparr>))"

definition scale_price :: "jsnum \<Rightarrow> int result" where
  "scale_price p = bigint_of_num (js_round (js_mult_fin p (of_int PRICE_SCALE)))"

definition marketValueInQuote :: "int \<Rightarrow> jsnum \<Rightarrow> jsnum \<Rightarrow> int result" where
  "marketValueInQuote amount sellPriceUsd buyPriceUsd =
     (if \<not> js_less (Fin 0) sellPriceUsd \<or> \<not> js_less (Fin 0) buyPriceUsd then
        Inl (RangeError ''prices must be positive'')
      else
        rbind (scale_price sellPriceUsd) (\<lambda>sellScaled.
        rbind (scale_price buyPriceUsd) (\<lambda>buyScaled.
        bigint_div (amount * sellScaled) buyScaled)))"

text \<open>A price table is the list of its entries; a token without one has price \<open>undefined\<close>.\<close>

type_synonym price_table = "(string \<times> jsnum) list"

definition evaluateFromPrices ::
  "jsnum \<Rightarrow> trader_intent \<Rightarrow> int \<Rightarrow> price_table \<Rightarrow> int \<Rightarrow> int \<Rightarrow> jsnum option
     \<Rightarrow> evaluation_result result" where
  "evaluateFromPrices date_now i fillAmount prices txCost minProfit now =
     (case (map_of prices (sellToken i), map_of prices (buyToken i)) of
        (Some sellPrice, Some buyPrice) \<Rightarrow>
          rbind (marketValueInQuote (sellAmount i) sellPrice buyPrice) (\<lambda>v.
          evaluateIntent date_now
            \<lparr>ei_intent = i, ei_fillAmount = fillAmount, ei_marketValueOfSell = v,
             ei_txCost = txCost, ei_minProfit = minProfit, ei_now = now\<rparr>)
      | _ \<Rightarrow>
          Inr \<lparr>er_profitable = False, er_reason = ''missing price for sell or buy token'',
               er_fillAmount = fillAmount, er_solverFee = 0, er_traderProceeds = 0,
               er_marketValueOfSell = 0, er_txCost = txCost, er_netProfit = 0\<rparr>)"

section \<open>The fee rule\<close>

text \<open>The BigInt value of an integral number.\<close>

definition num_int :: "jsnum \<Rightarrow> int" where
  "num_int x = (case x of Fin q \<Rightarrow> \<lfloor>q\<rfloor> | _ \<Rightarrow> 0)"

lemma num_int_of_int [simp]: "num_int (Fin (of_int n)) = n"
  by (simp add: num_int_def)

lemma bpsOf_of_int:
  assumes "0 \<le> b"
  shows "bpsOf a (Fin (of_int b)) = Inr (trunc_div (a * b) 10000)"
  using assms by (simp add: bpsOf_def bigint_div_def BPS_DENOMINATOR_BIG_def)

lemma bpsOf_share: "0 \<le> a \<Longrightarrow> 0 \<le> b \<Longrightarrow> bpsOf a (Fin (of_int b)) = Inr (bps_share a b)"
  by (simp add: bpsOf_of_int bps_share_def trunc_div_nonneg)

text \<open>\<open>bpsOf\<close> as a total function: the value where it returns.\<close>

definition bps_fee_of :: "int \<Rightarrow> int \<Rightarrow> int" where
  "bps_fee_of a b = (case bpsOf a (Fin (of_int b)) of Inr v \<Rightarrow> v | Inl _ \<Rightarrow> 0)"

interpretation solver_fee: bps_fee bps_fee_of "\<lambda>_ _. True"
  by unfold_locales
     (use trunc_div_bounds [where b = 10000] in \<open>simp_all add: bps_fee_of_def bpsOf_of_int mult_nonneg_nonneg\<close>)

section \<open>What the check decides\<close>

text \<open>An intent that passed \<open>validateIntent\<close>: its numbers are integers in range.\<close>

lemma intent_valid_numbers:
  assumes "intent_valid A i"
  obtains t b d where "maxSlippageBps i = Fin (of_int t)" "0 \<le> t" "t \<le> 10000"
    "solverFeeBps i = Fin (of_int b)" "0 \<le> b" "b \<le> 10000" "deadline i = Fin (of_int d)" "0 < d"
    "0 < sellAmount i" "0 < minBuyAmount i"
  using assms by (auto simp: intent_valid_def bps_ok_def)

lemma check_valid:
  assumes "maxSlippageBps i = Fin (of_int t)" "0 \<le> t" "t \<le> 10000"
    and "solverFeeBps i = Fin (of_int b)" "0 \<le> b" "b \<le> 10000"
    and "0 < sellAmount i" "0 < minBuyAmount i"
    and "\<not> js_less (deadline i) now" and "minBuyAmount i \<le> a"
  shows "checkFillAgainstIntent i a now =
     (let fee = bps_share a b; p = a - fee; s = shortfall_bps (minBuyAmount i) p in
      Inr \<lparr>fc_ok = (s \<le> t),
           fc_reason = (if s \<le> t then ''fill accepted'' else ''trader slippage tolerance exceeded''),
           fc_solverFee = fee, fc_traderProceeds = p, fc_shortfallBps = s\<rparr>)"
proof -
  have "0 \<le> a"
    using assms(8,10) by simp
  then have fee: "bpsOf a (Fin (of_int b)) = Inr (bps_share a b)"
    using assms(5) by (rule bpsOf_share)
  show ?thesis
    using assms \<open>0 \<le> a\<close>
    by (simp add: checkFillAgainstIntent_def fee Let_def shortfall_bps_def bigint_div_def
        BPS_DENOMINATOR_BIG_def trunc_div_nonneg not_less)
qed

text \<open>On a valid intent the check always returns, and its verdict is the documented rule.\<close>

lemma check_of_valid:
  assumes "intent_valid A i"
  obtains c where "checkFillAgainstIntent i a now = Inr c"
    "fc_ok c \<longleftrightarrow> \<not> js_less (deadline i) now \<and>
       fill_within_terms (minBuyAmount i) (num_int (maxSlippageBps i)) (num_int (solverFeeBps i)) a"
    "fc_ok c \<Longrightarrow> fc_solverFee c = bps_share a (num_int (solverFeeBps i))"
    "fc_ok c \<Longrightarrow> fc_traderProceeds c = a - bps_share a (num_int (solverFeeBps i))"
proof -
  obtain t b d where n: "maxSlippageBps i = Fin (of_int t)" "0 \<le> t" "t \<le> 10000"
    "solverFeeBps i = Fin (of_int b)" "0 \<le> b" "b \<le> 10000" "deadline i = Fin (of_int d)"
    "0 < sellAmount i" "0 < minBuyAmount i"
    using intent_valid_numbers [OF assms] by metis
  show thesis
  proof (cases "\<not> js_less (deadline i) now \<and> minBuyAmount i \<le> a")
    case True
    then show thesis
      using that check_valid [OF n(1-6,8,9)] n by (simp add: Let_def fill_within_terms_def)
  next
    case False
    then have "\<exists>r. checkFillAgainstIntent i a now = Inr (rejected r)"
      using n by (auto simp: checkFillAgainstIntent_def)
    then show thesis
      using that False by (auto simp: rejected_def fill_within_terms_def not_le)
  qed
qed

text \<open>The sample intent is filled at its minimum.\<close>

lemma sample_accepted:
  obtains c where "checkFillAgainstIntent sample_intent 990 (Fin 1000) = Inr c" "fc_ok c"
proof -
  obtain c where c: "checkFillAgainstIntent sample_intent 990 (Fin 1000) = Inr c"
    "fc_ok c \<longleftrightarrow> \<not> js_less (deadline sample_intent) (Fin 1000) \<and>
       fill_within_terms (minBuyAmount sample_intent) (num_int (maxSlippageBps sample_intent))
         (num_int (solverFeeBps sample_intent)) 990"
    using check_of_valid [OF sample_intent_valid] by metis
  have "fc_ok c"
    unfolding c(2) by (simp add: sample_intent_def num_int_def fill_within_terms_def
        shortfall_bps_def bps_share_def)
  with that c(1) show thesis .
qed

section \<open>Properties\<close>

text \<open>(C12) On a valid intent the check never throws, and it accepts a fill exactly when the
  deadline has not passed, the fill is at least the minimum, and the shortfall left by the
  fee is within the trader's tolerance.\<close>

theorem check_decides:
  assumes "intent_valid A i"
  shows "\<exists>c. checkFillAgainstIntent i a now = Inr c \<and>
    (fc_ok c \<longleftrightarrow> \<not> js_less (deadline i) now \<and>
       fill_within_terms (minBuyAmount i) (num_int (maxSlippageBps i)) (num_int (solverFeeBps i)) a)"
  using check_of_valid [OF assms] by metis

theorem check_decides_witness:
  "\<exists>c. checkFillAgainstIntent sample_intent 990 (Fin 1000) = Inr c \<and>
    (fc_ok c \<longleftrightarrow> \<not> js_less (deadline sample_intent) (Fin 1000) \<and>
       fill_within_terms 990 50 10 990)"
  using check_decides [OF sample_intent_valid, of 990 "Fin 1000"]
  by (simp add: sample_intent_def num_int_def)

text \<open>(C13) What an accepted fill guarantees the trader: fee and proceeds are non-negative and
  add up to the fill, the fee is at most its rate, and the proceeds fall short of the
  minimum by less than one basis point beyond the tolerance.\<close>

theorem accepted_fill_protects_trader:
  assumes "intent_valid A i" and "checkFillAgainstIntent i a now = Inr c" and "fc_ok c"
  shows "fc_solverFee c + fc_traderProceeds c = a \<and> 0 \<le> fc_solverFee c \<and>
    fc_solverFee c * 10000 \<le> a * num_int (solverFeeBps i) \<and>
    minBuyAmount i * (10000 - (num_int (maxSlippageBps i) + 1)) < fc_traderProceeds c * 10000"
proof -
  obtain t b d where n: "maxSlippageBps i = Fin (of_int t)" "0 \<le> t"
    "solverFeeBps i = Fin (of_int b)" "0 \<le> b" "b \<le> 10000" "0 < minBuyAmount i"
    using intent_valid_numbers [OF assms(1)] by metis
  have c: "fill_within_terms (minBuyAmount i) t b a" "fc_solverFee c = bps_share a b"
    "fc_traderProceeds c = a - bps_share a b"
    using check_of_valid [OF assms(1), of a now] assms(2,3) n by auto
  then have a: "0 \<le> a" and "shortfall_bps (minBuyAmount i) (fc_traderProceeds c) \<le> t"
    using n(6) by (simp_all add: fill_within_terms_def)
  then have "(minBuyAmount i - fc_traderProceeds c) * 10000 < (t + 1) * minBuyAmount i"
    using n by (simp add: shortfall_le_iff)
  moreover have "bps_share a b * 10000 \<le> a * b"
    by (simp add: bps_share_def)
  ultimately show ?thesis
    using bps_share_bounds(1) [OF a n(4,5)] n by (simp add: c algebra_simps)
qed

theorem accepted_fill_protects_trader_witness:
  "\<exists>c. checkFillAgainstIntent sample_intent 990 (Fin 1000) = Inr c \<and>
    fc_solverFee c + fc_traderProceeds c = 990"
proof (rule sample_accepted)
  fix c assume c: "checkFillAgainstIntent sample_intent 990 (Fin 1000) = Inr c" "fc_ok c"
  from accepted_fill_protects_trader [OF sample_intent_valid c] c(1) show ?thesis
    by blast
qed

text \<open>An intent whose fee rate is within its tolerance can always be filled: every fill
  from the minimum up is accepted until the deadline.\<close>

lemma fillable_at_minimum:
  assumes "intent_valid A i" and "js_leq (solverFeeBps i) (maxSlippageBps i)"
    and "minBuyAmount i \<le> a" and "\<not> js_less (deadline i) now"
  shows "\<exists>c. checkFillAgainstIntent i a now = Inr c \<and> fc_ok c"
proof -
  obtain t b d where n: "maxSlippageBps i = Fin (of_int t)" "0 \<le> t"
    "solverFeeBps i = Fin (of_int b)" "0 \<le> b" "b \<le> 10000" "0 < minBuyAmount i"
    using intent_valid_numbers [OF assms(1)] by metis
  have "fill_within_terms (minBuyAmount i) t b (minBuyAmount i)"
    using shortfall_at_minimum [OF n(6,4)] assms(2) n by (simp add: fill_within_terms_def)
  then have "fill_within_terms (minBuyAmount i) t b a"
    using n assms(3) fill_within_terms_mono by blast
  then show ?thesis
    using check_of_valid [OF assms(1), of a now] assms(4) n by (metis num_int_of_int)
qed

lemma fillable_at_minimum_witness:
  "\<exists>c. checkFillAgainstIntent sample_intent 990 (Fin 1000) = Inr c \<and> fc_ok c"
  by (rule fillable_at_minimum [OF sample_intent_valid]) (simp_all add: sample_intent_def)

text \<open>The tolerance is rounded: a trader who allows no slippage at all can still receive
  less than the minimum, because the shortfall is floored to whole basis points.\<close>

lemma zero_tolerance_shortfall:
  "checkFillAgainstIntent
     (sample_intent\<lparr>minBuyAmount := 1000000, maxSlippageBps := Fin (of_int 0),
        solverFeeBps := Fin (of_int 1)\<rparr>) 1000050 (Fin 1000)
   = Inr \<lparr>fc_ok = True, fc_reason = ''fill accepted'', fc_solverFee = 100,
       fc_traderProceeds = 999950, fc_shortfallBps = 0\<rparr>"
  by (subst check_valid [where t = 0 and b = 1])
     (simp_all add: sample_intent_def Let_def shortfall_bps_def bps_share_def)

text \<open>(C25) \<open>evaluateIntent\<close> calls a fill profitable exactly when the router's terms hold and the
  market value of the sell amount covers what the trader nets, the transaction cost and the
  minimum profit.\<close>

theorem evaluateIntent_profitable_iff:
  assumes "intent_valid A (ei_intent x)"
  shows "\<exists>r. evaluateIntent date_now x = Inr r \<and> er_fillAmount r = ei_fillAmount x \<and>
    (er_profitable r \<longleftrightarrow>
       \<not> js_less (deadline (ei_intent x)) (now_or_clock date_now (ei_now x)) \<and>
       fill_within_terms (minBuyAmount (ei_intent x)) (num_int (maxSlippageBps (ei_intent x)))
         (num_int (solverFeeBps (ei_intent x))) (ei_fillAmount x) \<and>
       ei_minProfit x \<le> ei_marketValueOfSell x
         - (ei_fillAmount x - bps_share (ei_fillAmount x) (num_int (solverFeeBps (ei_intent x))))
         - ei_txCost x)"
proof -
  obtain c where c:
    "checkFillAgainstIntent (ei_intent x) (ei_fillAmount x) (now_or_clock date_now (ei_now x)) = Inr c"
    "fc_ok c \<longleftrightarrow> \<not> js_less (deadline (ei_intent x)) (now_or_clock date_now (ei_now x)) \<and>
       fill_within_terms (minBuyAmount (ei_intent x)) (num_int (maxSlippageBps (ei_intent x)))
         (num_int (solverFeeBps (ei_intent x))) (ei_fillAmount x)"
    "fc_ok c \<Longrightarrow> fc_solverFee c =
       bps_share (ei_fillAmount x) (num_int (solverFeeBps (ei_intent x)))"
    "fc_ok c \<Longrightarrow> fc_traderProceeds c =
       ei_fillAmount x - bps_share (ei_fillAmount x) (num_int (solverFeeBps (ei_intent x)))"
    using check_of_valid [OF assms, of "ei_fillAmount x"] by metis
  show ?thesis
    using c by (cases "fc_ok c") (auto simp: evaluateIntent_def Let_def)
qed

definition sample_input :: evaluation_input where
  "sample_input = \<lparr>ei_intent = sample_intent, ei_fillAmount = 990, ei_marketValueOfSell = 1010,
     ei_txCost = 3, ei_minProfit = 5, ei_now = Some (Fin 1000)\<rparr>"

theorem evaluateIntent_profitable_iff_witness:
  "\<exists>r. evaluateIntent (Fin 0) sample_input = Inr r \<and> er_fillAmount r = 990"
proof -
  have "intent_valid (\<lambda>a. a \<noteq> []) (ei_intent sample_input)"
    using sample_intent_valid by (simp add: sample_input_def)
  from evaluateIntent_profitable_iff [OF this, of "Fin 0"] show ?thesis
    by (auto simp: sample_input_def)
qed

subsection \<open>Prices\<close>

text \<open>A price written with six decimals survives the float multiplication: two roundings of
  one part in \<open>2 ^ 53\<close> stay below one half for prices up to \<open>2 ^ 50\<close> millionths.\<close>

lemma price_close:
  assumes "0 < n" and "n \<le> 2 ^ 50"
  obtains y where "round_double (of_int n / 10 ^ 6) = Fin y" "\<bar>y * 10 ^ 6 - of_int n\<bar> \<le> of_int n / 2 ^ 53"
proof -
  have n: "1 \<le> (of_int n :: rat)" "(of_int n :: rat) \<le> 2 ^ 50"
    using assms by simp_all
  then have "1 / 2 ^ 100 \<le> (of_int n / 10 ^ 6 :: rat)" "(of_int n / 10 ^ 6 :: rat) \<le> 2 ^ 100"
    by simp_all
  then obtain y where y: "round_double (of_int n / 10 ^ 6) = Fin y"
    "\<bar>y - of_int n / 10 ^ 6\<bar> \<le> of_int n / 10 ^ 6 / 2 ^ 53"
    using round_double_relative by blast
  have "\<bar>y * 10 ^ 6 - of_int n\<bar> = \<bar>y - of_int n / 10 ^ 6\<bar> * 10 ^ 6"
    by (simp add: abs_if field_simps)
  with y that show thesis
    by (simp add: field_simps)
qed

lemma scale_price_exact:
  assumes "0 < n" and "n \<le> 2 ^ 50"
  shows "scale_price (round_double (of_int n / 10 ^ 6)) = Inr n"
proof -
  define r :: rat where "r = of_int n"
  have r: "1 \<le> r" "r \<le> 2 ^ 50"
    using assms by (simp_all add: r_def)
  obtain y where y: "round_double (r / 10 ^ 6) = Fin y" and z: "\<bar>y * 10 ^ 6 - r\<bar> \<le> r / 2 ^ 53"
    using price_close [OF assms] by (auto simp: r_def)
  from abs_le_D1 [OF z] abs_le_D2 [OF z] r
  have "1 / 2 ^ 100 \<le> y * 10 ^ 6" "y * 10 ^ 6 \<le> 2 ^ 100" and le: "y * 10 ^ 6 \<le> 2 * r"
    by simp_all
  then obtain w where w: "round_double (y * 10 ^ 6) = Fin w"
    "\<bar>w - y * 10 ^ 6\<bar> \<le> y * 10 ^ 6 / 2 ^ 53"
    using round_double_relative by blast
  have "y * 10 ^ 6 / 2 ^ 53 \<le> 2 * r / 2 ^ 53"
    using le by (rule divide_right_mono) simp
  then have "\<bar>w - r\<bar> \<le> 3 * r / 2 ^ 53"
    using z w(2) unfolding abs_le_iff by linarith
  also have "\<dots> < 1 / 2"
    using r(2) by simp
  finally have "\<lfloor>w + 1 / 2\<rfloor> = n"
    unfolding r_def abs_less_iff floor_eq_iff by (auto simp: field_simps)
  then show ?thesis
    using y w(1) by (simp add: scale_price_def PRICE_SCALE_def r_def)
qed

lemma round_price_pos:
  assumes "0 < n" and "n \<le> 2 ^ 50"
  shows "js_less (Fin 0) (round_double (of_int n / 10 ^ 6))"
proof -
  obtain y :: rat where y: "round_double (of_int n / 10 ^ 6) = Fin y"
    "\<bar>y * 10 ^ 6 - of_int n\<bar> \<le> of_int n / 2 ^ 53"
    using price_close [OF assms] .
  have "1 \<le> (of_int n :: rat)"
    using assms by simp
  with abs_le_D2 [OF y(2)] have "0 < y"
    by simp
  with y(1) show ?thesis
    by simp
qed

lemma market_value_prices:
  assumes "0 \<le> amount" and "0 < p" "p \<le> 2 ^ 50" and "0 < q" "q \<le> 2 ^ 50"
  shows "marketValueInQuote amount (round_double (of_int p / 10 ^ 6))
      (round_double (of_int q / 10 ^ 6)) = Inr (amount * p div q)"
  using assms
  by (simp only: marketValueInQuote_def scale_price_exact round_price_pos)
     (simp add: bigint_div_def trunc_div_nonneg)

lemma tiny_price_valuation:
  "marketValueInQuote amount (Fin 1) (Fin (1 / 2 ^ 22)) = Inl (RangeError ''Division by zero'')"
proof -
  have "1 / 2 ^ 100 \<le> (10 ^ 6 / 2 ^ 22 :: rat)" "(10 ^ 6 / 2 ^ 22 :: rat) \<le> 2 ^ 100"
    by simp_all
  then obtain y where y: "round_double (10 ^ 6 / 2 ^ 22) = Fin y"
    "\<bar>y - 10 ^ 6 / 2 ^ 22\<bar> \<le> 10 ^ 6 / 2 ^ 22 / 2 ^ 53"
    using round_double_relative by blast
  have "\<lfloor>y + 1 / 2\<rfloor> = 0"
    using abs_le_D1 [OF y(2)] abs_le_D2 [OF y(2)] by (simp add: floor_eq_iff)
  then have "scale_price (Fin (1 / 2 ^ 22)) = Inr 0"
    using y(1) by (simp add: scale_price_def PRICE_SCALE_def)
  moreover have "scale_price (Fin 1) = Inr 1000000"
    using round_double_of_int [of 1000000] by (simp add: scale_price_def PRICE_SCALE_def floor_eq_iff)
  ultimately show ?thesis
    by (simp add: marketValueInQuote_def bigint_div_def)
qed

lemma profitable_details:
  assumes "intent_valid A i"
    and "evaluateFromPrices date_now i a prices txCost minProfit now = Inr r"
    and "er_profitable r"
  shows "\<exists>p q v. map_of prices (sellToken i) = Some p \<and> map_of prices (buyToken i) = Some q \<and>
    js_less (Fin 0) p \<and> js_less (Fin 0) q \<and> marketValueInQuote (sellAmount i) p q = Inr v \<and>
    fill_within_terms (minBuyAmount i) (num_int (maxSlippageBps i)) (num_int (solverFeeBps i)) a \<and>
    minProfit \<le> er_netProfit r \<and> er_netProfit r = v + er_solverFee r - a - txCost"
proof -
  obtain p q where pq: "map_of prices (sellToken i) = Some p" "map_of prices (buyToken i) = Some q"
    using assms(2,3) by (auto simp: evaluateFromPrices_def split: option.splits)
  then obtain v where v: "marketValueInQuote (sellAmount i) p q = Inr v"
    and r: "evaluateIntent date_now \<lparr>ei_intent = i, ei_fillAmount = a, ei_marketValueOfSell = v,
      ei_txCost = txCost, ei_minProfit = minProfit, ei_now = now\<rparr> = Inr r"
    using assms(2) by (auto simp: evaluateFromPrices_def result_simps)
  have "js_less (Fin 0) p \<and> js_less (Fin 0) q"
    using v by (simp add: marketValueInQuote_def split: if_splits)
  moreover obtain c where "checkFillAgainstIntent i a (now_or_clock date_now now) = Inr c"
    "fc_ok c \<Longrightarrow>
      fill_within_terms (minBuyAmount i) (num_int (maxSlippageBps i)) (num_int (solverFeeBps i)) a"
    using check_of_valid [OF assms(1), of a "now_or_clock date_now now"] by metis
  ultimately show ?thesis
    using r assms(3) pq v by (auto simp: evaluateIntent_def Let_def split: if_splits)
qed

lemma profitable_terms:
  assumes "intent_valid A i"
    and "evaluateFromPrices date_now i a prices txCost minProfit now = Inr r"
    and "er_profitable r"
  shows "fill_within_terms (minBuyAmount i) (num_int (maxSlippageBps i)) (num_int (solverFeeBps i)) a \<and>
    minProfit \<le> er_netProfit r"
  using profitable_details [OF assms] by blast

text \<open>(C26) Valuation is exact on prices with six decimals: for \<open>p\<close> and \<open>q\<close> millionths of a
  dollar the market value is \<open>amount * p / q\<close> rounded down, with no trace of the floats.\<close>

theorem marketValue_exact:
  assumes "0 \<le> amount" and "0 < p" "p \<le> 2 ^ 50" and "0 < q" "q \<le> 2 ^ 50"
  shows "marketValueInQuote amount (round_double (of_int p / 10 ^ 6))
      (round_double (of_int q / 10 ^ 6)) = Inr (amount * p div q)"
  using assms by (rule market_value_prices)

theorem marketValue_exact_witness:
  "marketValueInQuote 1000 (round_double (of_int 1100000 / 10 ^ 6))
      (round_double (of_int 1000001 / 10 ^ 6)) = Inr 1099"
  using marketValue_exact [of 1000 1100000 1000001] by simp

text \<open>A positive price can be scaled to zero: a buy price of \<open>2 ^ -22\<close> dollars passes the
  check for positive prices and the valuation throws a division by zero.\<close>

lemma tiny_price_divides_by_zero:
  "marketValueInQuote amount (Fin 1) (Fin (1 / 2 ^ 22)) = Inl (RangeError ''Division by zero'')"
  by (rule tiny_price_valuation)

end
