(* ===== verification/Config.thy ===== *)
theory Config
  imports Logger Evaluator
begin

section \<open>Configuration from the environment\<close>

text \<open>
  packages/solver-bot/src/config.ts.  The environment maps variable names to their values.
  Every reader returns its value or throws; \<open>loadConfig\<close> composes them in the order of the
  code.
\<close>

type_synonym environment = "string \<Rightarrow> string option"

record solver_config =
  cfg_rpcUrl :: string
  cfg_networkPassphrase :: string
  cfg_routerContractId :: string
  cfg_solverSecretKey :: string
  cfg_intentFeedUrl :: "string option"
  cfg_pollIntervalMs :: jsnum
  cfg_startLedger :: "jsnum option"
  cfg_minProfit :: int
  cfg_txCost :: int
  cfg_maxFeeStroops :: string
  cfg_txTimeoutMs :: jsnum
  cfg_tokenPrices :: price_table
  cfg_logLevel :: log_level
  cfg_dryRun :: bool
  cfg_allowHttp :: bool

definition readString :: "environment \<Rightarrow> string \<Rightarrow> string option \<Rightarrow> string option" where
  "readString env key fallback = (case env key of
       None \<Rightarrow> fallback
     | Some raw \<Rightarrow> if js_trim raw = [] then fallback else Some (js_trim raw))"

definition readRequired :: "environment \<Rightarrow> string \<Rightarrow> string result" where
  "readRequired env key = from_option (ConfigError (key @ '' is required'')) (readString env key None)"

definition readInteger :: "environment \<Rightarrow> string \<Rightarrow> jsnum \<Rightarrow> jsnum result" where
  "readInteger env key fallback = (case readString env key None of
       None \<Rightarrow> Inr fallback
     | Some v \<Rightarrow>
         let parsed = string_to_number v in
         if \<not> is_integer parsed \<or> js_leq parsed (Fin 0) then
           Inl (ConfigError (key @ '' must be a positive integer''))
         else Inr parsed)"

definition readBigInt :: "environment \<Rightarrow> string \<Rightarrow> int \<Rightarrow> int result" where
  "readBigInt env key fallback = (case readString env key None of
       None \<Rightarrow> Inr fallback
     | Some v \<Rightarrow> rcatch (bigint_of_string v) (\<lambda>_. Inl (ConfigError (key @ '' must be an integer''))))"

definition readBoolean :: "environment \<Rightarrow> string \<Rightarrow> bool \<Rightarrow> bool result" where
  "readBoolean env key fallback = (case map_option to_lower (readString env key None) of
       None \<Rightarrow> Inr fallback
     | Some v \<Rightarrow>
         if v = ''true'' \<or> v = ''1'' \<or> v = ''yes'' then Inr True
         else if v = ''false'' \<or> v = ''0'' \<or> v = ''no'' then Inr False
         else Inl (ConfigError (key @ '' must be a boolean'')))"

text \<open>\<open>prices[token] = price\<close>: a number stored under \<open>__proto__\<close> is ignored.\<close>

definition price_put :: "string \<Rightarrow> jsnum \<Rightarrow> price_table \<Rightarrow> price_table" where
  "price_put token price prices =
     (if token = ''__proto__'' then prices else obj_put token price prices)"

fun read_prices :: "(string \<times> jsval) list \<Rightarrow> price_table \<Rightarrow> price_table result" where
  "read_prices [] prices = Inr prices"
| "read_prices ((token, v) # rest) prices = (case v of
       JNum price \<Rightarrow>
         if \<not> is_finite price \<or> js_leq price (Fin 0) then
           Inl (ConfigError (''TOKEN_PRICES entry for '' @ token @ '' must be a positive number''))
         else read_prices rest (price_put token price prices)
     | _ \<Rightarrow> Inl (ConfigError (''TOKEN_PRICES entry for '' @ token @ '' must be a positive number'')))"

definition readTokenPrices :: "environment \<Rightarrow> price_table result" where
  "readTokenPrices env = (case readString env ''TOKEN_PRICES'' None of
       None \<Rightarrow> Inr []
     | Some v \<Rightarrow> (case json_parse v of
         Some (JObj kvs) \<Rightarrow> read_prices kvs []
       | _ \<Rightarrow> Inl (ConfigError ''TOKEN_PRICES must be a JSON object of token id to price'')))"

text \<open>The pattern \<open>/^X[A-Z2-7]{55}$/\<close>.\<close>

definition base32_char :: "char \<Rightarrow> bool" where
  "base32_char c \<longleftrightarrow> (let n = of_char c :: nat in 65 \<le> n \<and> n \<le> 90 \<or> 50 \<le> n \<and> n \<le> 55)"

definition strkey_format :: "char \<Rightarrow> string \<Rightarrow> bool" where
  "strkey_format c s \<longleftrightarrow> s \<noteq> [] \<and> hd s = c \<and> length (tl s) = 55 \<and> list_all base32_char (tl s)"

definition network_preset :: "string option \<Rightarrow> network option" where
  "network_preset name = (case name of
       None \<Rightarrow> None
     | Some n \<Rightarrow>
         if n = ''testnet'' then Some (NETWORKS Testnet)
         else if n = ''futurenet'' then Some (NETWORKS Futurenet)
         else if n = ''mainnet'' then Some (NETWORKS Mainnet) else None)"

definition loadConfig :: "environment \<Rightarrow> solver_config result" where
  "loadConfig env =
     (let networkName = map_option to_lower (readString env ''STELLAR_NETWORK'' None);
          preset = network_preset networkName
      in if networkName \<noteq> None \<and> preset = None then
           Inl (ConfigError ''STELLAR_NETWORK must be one of testnet, futurenet, mainnet'')
         else
      rbind (from_option (ConfigError ''SOROBAN_RPC_URL is required when STELLAR_NETWORK is not set'')
         (readString env ''SOROBAN_RPC_URL'' (map_option net_rpcUrl preset))) (\<lambda>rpcUrl.
      rbind (from_option (ConfigError ''NETWORK_PASSPHRASE is required when STELLAR_NETWORK is not set'')
         (readString env ''NETWORK_PASSPHRASE'' (map_option net_passphrase preset))) (\<lambda>passphrase.
      rbind (readRequired env ''ROUTER_CONTRACT_ID'') (\<lambda>router.
      if \<not> strkey_format CHR ''C'' router then
        Inl (ConfigError ''ROUTER_CONTRACT_ID must be a Stellar contract id (C...)'')
      else
      rbind (readRequired env ''SOLVER_SECRET_KEY'') (\<lambda>secret.
      if \<not> strkey_format CHR ''S'' secret then
        Inl (ConfigError ''SOLVER_SECRET_KEY must be a Stellar secret key (S...)'')
      else
      rbind (readInteger env ''POLL_INTERVAL_MS'' (Fin 5000)) (\<lambda>pollIntervalMs.
      rbind (readBigInt env ''MIN_PROFIT'' 0) (\<lambda>minProfit.
      rbind (readBigInt env ''TX_COST'' 0) (\<lambda>txCost.
      rbind (readInteger env ''TX_TIMEOUT_MS'' (Fin 60000)) (\<lambda>txTimeoutMs.
      rbind (readTokenPrices env) (\<lambda>tokenPrices.
      rbind (readBoolean env ''DRY_RUN'' False) (\<lambda>dryRun.
      rbind (readBoolean env ''ALLOW_HTTP'' False) (\<lambda>allowHttp.
      Inr \<lparr>cfg_rpcUrl = rpcUrl, cfg_networkPassphrase = passphrase,
           cfg_routerContractId = router, cfg_solverSecretKey = secret,
           cfg_intentFeedUrl = readString env ''INTENT_FEED_URL'' None,
           cfg_pollIntervalMs = pollIntervalMs,
           cfg_startLedger = map_option parse_int10 (readString env ''START_LEDGER'' None),
           cfg_minProfit = minProfit, cfg_txCost = txCost,
           cfg_maxFeeStroops = the (readString env ''MAX_FEE_STROOPS'' (Some ''100000'')),
           cfg_txTimeoutMs = txTimeoutMs, cfg_tokenPrices = tokenPrices,
           cfg_logLevel = parseLogLevel (readString env ''LOG_LEVEL'' None),
           cfg_dryRun = dryRun, cfg_allowHttp = allowHttp\<rparr>))))))))))))"

section \<open>What a loaded configuration satisfies\<close>

definition positive_integer :: "jsnum \<Rightarrow> bool" where
  "positive_integer x \<longleftrightarrow> (\<exists>n::int. x = Fin (of_int n) \<and> 0 < n)"

definition prices_ok :: "price_table \<Rightarrow> bool" where
  "prices_ok ps \<longleftrightarrow> distinct (map fst ps) \<and> (\<forall>(t, p) \<in> set ps. is_finite p \<and> js_less (Fin 0) p)"

definition config_ok :: "solver_config \<Rightarrow> bool" where
  "config_ok c \<longleftrightarrow>
     cfg_rpcUrl c \<noteq> [] \<and> cfg_networkPassphrase c \<noteq> [] \<and>
     strkey_format CHR ''C'' (cfg_routerContractId c) \<and>
     strkey_format CHR ''S'' (cfg_solverSecretKey c) \<and>
     positive_integer (cfg_pollIntervalMs c) \<and> positive_integer (cfg_txTimeoutMs c) \<and>
     prices_ok (cfg_tokenPrices c) \<and> cfg_maxFeeStroops c \<noteq> []"

lemma readString_nonempty: "readString env key None = Some s \<Longrightarrow> s \<noteq> []"
  by (auto simp: readString_def split: option.splits if_splits)

lemma readString_nonempty_fallback:
  "readString env key (Some d) = Some s \<Longrightarrow> d \<noteq> [] \<Longrightarrow> s \<noteq> []"
  by (auto simp: readString_def split: option.splits if_splits)

lemma readString_some: "\<exists>s. readString env key (Some d) = Some s"
  by (auto simp: readString_def split: option.splits)

lemma readInteger_ok:
  "readInteger env key d = Inr x \<Longrightarrow> positive_integer d \<Longrightarrow> positive_integer x"
  by (auto simp: readInteger_def positive_integer_def is_integer_iff Let_def split: option.splits if_splits)

lemma prices_ok_put:
  assumes "prices_ok ps" and "is_finite p" and "js_less (Fin 0) p"
  shows "prices_ok (price_put t p ps)"
  using assms set_obj_put [of t p ps]
  by (fastforce simp: prices_ok_def price_put_def distinct_obj_put)

lemma finite_positive: "is_finite p \<Longrightarrow> js_leq p (Fin 0) \<longleftrightarrow> \<not> js_less (Fin 0) p"
  by (cases p) auto

lemma read_prices_ok: "read_prices kvs ps = Inr qs \<Longrightarrow> prices_ok ps \<Longrightarrow> prices_ok qs"
  by (induction kvs ps arbitrary: qs rule: read_prices.induct)
     (auto simp: finite_positive intro!: prices_ok_put split: jsval.splits if_splits)

lemma readTokenPrices_ok: "readTokenPrices env = Inr qs \<Longrightarrow> prices_ok qs"
  using read_prices_ok [of _ "[]" qs]
  by (auto simp: readTokenPrices_def prices_ok_def split: option.splits jsval.splits)

lemma preset_nonempty: "network_preset n = Some p \<Longrightarrow> net_rpcUrl p \<noteq> [] \<and> net_passphrase p \<noteq> []"
  by (auto simp: network_preset_def split: option.splits if_splits)

lemma preset_read_nonempty:
  "readString env key (map_option f (network_preset n)) = Some s \<Longrightarrow>
    (\<And>p. network_preset n = Some p \<Longrightarrow> f p \<noteq> []) \<Longrightarrow> s \<noteq> []"
  by (cases "network_preset n") (auto dest: readString_nonempty readString_nonempty_fallback)

lemma from_option_nonempty: "from_option e x = Inr s \<Longrightarrow> x = Some s"
  by (cases x) simp_all

lemma readInteger_error: "readInteger env key d = Inl e \<Longrightarrow> \<exists>m. e = ConfigError m"
  by (auto simp: readInteger_def Let_def split: option.splits if_splits)

lemma readBigInt_error: "readBigInt env key d = Inl e \<Longrightarrow> \<exists>m. e = ConfigError m"
  by (auto simp: readBigInt_def result_simps split: option.splits)

lemma readBoolean_error: "readBoolean env key d = Inl e \<Longrightarrow> \<exists>m. e = ConfigError m"
  by (auto simp: readBoolean_def split: option.splits if_splits)

lemma read_prices_error: "read_prices kvs ps = Inl e \<Longrightarrow> \<exists>m. e = ConfigError m"
  by (induction kvs ps rule: read_prices.induct) (auto split: jsval.splits if_splits)

lemma readTokenPrices_error: "readTokenPrices env = Inl e \<Longrightarrow> \<exists>m. e = ConfigError m"
  by (auto simp: readTokenPrices_def dest: read_prices_error split: option.splits jsval.splits)

lemmas reader_errors = readInteger_error readBigInt_error readBoolean_error readTokenPrices_error

lemma loadConfig_error: "loadConfig env = Inl e \<Longrightarrow> \<exists>m. e = ConfigError m"
  unfolding loadConfig_def readRequired_def Let_def
  by (auto simp: result_simps dest: reader_errors split: if_splits)

lemma loadConfig_ok:
  assumes "loadConfig env = Inr c"
  shows "config_ok c"
proof -
  let ?preset = "network_preset (map_option to_lower (readString env ''STELLAR_NETWORK'' None))"
  have c: "readString env ''SOROBAN_RPC_URL'' (map_option net_rpcUrl ?preset) = Some (cfg_rpcUrl c)"
    "readString env ''NETWORK_PASSPHRASE'' (map_option net_passphrase ?preset)
      = Some (cfg_networkPassphrase c)"
    "strkey_format CHR ''C'' (cfg_routerContractId c)"
    "strkey_format CHR ''S'' (cfg_solverSecretKey c)"
    "readInteger env ''POLL_INTERVAL_MS'' (Fin 5000) = Inr (cfg_pollIntervalMs c)"
    "readInteger env ''TX_TIMEOUT_MS'' (Fin 60000) = Inr (cfg_txTimeoutMs c)"
    "readTokenPrices env = Inr (cfg_tokenPrices c)"
    "cfg_maxFeeStroops c = the (readString env ''MAX_FEE_STROOPS'' (Some ''100000''))"
    using assms by (auto simp: loadConfig_def Let_def result_simps split: if_splits)
  have "positive_integer (Fin 5000)" "positive_integer (Fin 60000)"
    by (auto simp: positive_integer_def intro: exI [of _ 5000] exI [of _ 60000])
  moreover have "cfg_rpcUrl c \<noteq> []" "cfg_networkPassphrase c \<noteq> []"
    using preset_read_nonempty [OF c(1)] preset_read_nonempty [OF c(2)]
    by (simp_all add: preset_nonempty)
  moreover have "cfg_maxFeeStroops c \<noteq> []"
    using readString_some [of env "''MAX_FEE_STROOPS''" "''100000''"] c(8)
    by (auto dest: readString_nonempty_fallback)
  ultimately show ?thesis
    using c(3,4) readInteger_ok [OF c(5)] readInteger_ok [OF c(6)] readTokenPrices_ok [OF c(7)]
    by (simp add: config_ok_def)
qed

definition minimal_env :: environment where
  "minimal_env = [''STELLAR_NETWORK'' \<mapsto> ''testnet'', ''ROUTER_CONTRACT_ID'' \<mapsto> CHR ''C'' # replicate 55 CHR ''A'',
     ''SOLVER_SECRET_KEY'' \<mapsto> CHR ''S'' # replicate 55 CHR ''A'']"

text \<open>The test network, the two keys and nothing else.\<close>

definition default_config :: solver_config where
  "default_config = \<lparr>cfg_rpcUrl = ''https://soroban-testnet.stellar.org'',
       cfg_networkPassphrase = ''Test SDF Network ; September 2015'',
       cfg_routerContractId = CHR ''C'' # replicate 55 CHR ''A'',
       cfg_solverSecretKey = CHR ''S'' # replicate 55 CHR ''A'', cfg_intentFeedUrl = None,
       cfg_pollIntervalMs = Fin 5000, cfg_startLedger = None, cfg_minProfit = 0, cfg_txCost = 0,
       cfg_maxFeeStroops = ''100000'', cfg_txTimeoutMs = Fin 60000, cfg_tokenPrices = [],
       cfg_logLevel = Info, cfg_dryRun = False, cfg_allowHttp = False\<rparr>"

lemma minimal_env_loads: "loadConfig minimal_env = Inr default_config"
proof -
  have set_keys: "readString minimal_env ''STELLAR_NETWORK'' None = Some ''testnet''"
    "readString minimal_env ''ROUTER_CONTRACT_ID'' None = Some (CHR ''C'' # replicate 55 CHR ''A'')"
    "readString minimal_env ''SOLVER_SECRET_KEY'' None = Some (CHR ''S'' # replicate 55 CHR ''A'')"
    by code_simp+
  have unset: "readString minimal_env k d = d"
    if "k \<notin> {''STELLAR_NETWORK'', ''ROUTER_CONTRACT_ID'', ''SOLVER_SECRET_KEY''}" for k d
    using that by (simp add: readString_def minimal_env_def)
  have preset: "network_preset (Some (to_lower ''testnet'')) = Some (NETWORKS Testnet)"
    by code_simp
  have keys: "strkey_format CHR ''C'' (CHR ''C'' # replicate 55 CHR ''A'')"
    "strkey_format CHR ''S'' (CHR ''S'' # replicate 55 CHR ''A'')"
    by code_simp+
  show ?thesis
    by (simp add: default_config_def loadConfig_def readRequired_def readInteger_def readBigInt_def readBoolean_def
        readTokenPrices_def parseLogLevel_def set_keys unset preset keys
        del: to_lower_def replicate.simps)
qed

section \<open>Properties\<close>

text \<open>(C31) Loading either throws a \<open>ConfigError\<close>, and no other error, or returns a configuration
  in which the keys have the strkey shape, the intervals are positive integers and every
  price is a positive finite number.\<close>

theorem loadConfig_outcomes:
  "case loadConfig env of
     Inr c \<Rightarrow> config_ok c
   | Inl e \<Rightarrow> \<exists>m. e = ConfigError m"
  using loadConfig_ok [of env] loadConfig_error [of env] by (auto split: sum.split)

text \<open>An explicit endpoint or passphrase overrides the network preset, and the preset is used
  only where the variable is absent or blank.\<close>

lemma loadConfig_overrides:
  assumes "loadConfig env = Inr c"
  shows "cfg_rpcUrl c = (case readString env ''SOROBAN_RPC_URL'' None of
      Some url \<Rightarrow> url
    | None \<Rightarrow> net_rpcUrl (the (network_preset
        (map_option to_lower (readString env ''STELLAR_NETWORK'' None))))) \<and>
    cfg_networkPassphrase c = (case readString env ''NETWORK_PASSPHRASE'' None of
      Some p \<Rightarrow> p
    | None \<Rightarrow> net_passphrase (the (network_preset
        (map_option to_lower (readString env ''STELLAR_NETWORK'' None)))))"
proof -
  have fallback: "readString env key d = Some s \<Longrightarrow>
      s = (case readString env key None of Some u \<Rightarrow> u | None \<Rightarrow> the d)" for key d s
    by (auto simp: readString_def split: option.splits if_splits)
  let ?preset = "network_preset (map_option to_lower (readString env ''STELLAR_NETWORK'' None))"
  have c: "readString env ''SOROBAN_RPC_URL'' (map_option net_rpcUrl ?preset) = Some (cfg_rpcUrl c)"
    "readString env ''NETWORK_PASSPHRASE'' (map_option net_passphrase ?preset)
      = Some (cfg_networkPassphrase c)"
    using assms by (auto simp: loadConfig_def Let_def result_simps split: if_splits)
  show ?thesis
    using fallback [OF c(1)] fallback [OF c(2)] c
    by (cases ?preset) (auto split: option.splits)
qed

lemma loadConfig_overrides_witness:
  "\<exists>c. loadConfig minimal_env = Inr c \<and> cfg_rpcUrl c = ''https://soroban-testnet.stellar.org''"
proof -
  have set_keys: "readString minimal_env ''STELLAR_NETWORK'' None = Some ''testnet''"
    "readString minimal_env ''SOROBAN_RPC_URL'' None = None"
    "network_preset (Some (to_lower ''testnet'')) = Some (NETWORKS Testnet)"
    by code_simp+
  show ?thesis
    using loadConfig_overrides [OF minimal_env_loads] minimal_env_loads
    by (simp add: set_keys)
qed

text \<open>The documented defaults: with a test network, the two keys and nothing else, every other
  setting has the value the documentation lists.\<close>

lemma loadConfig_defaults: "loadConfig minimal_env = Inr default_config"
  by (rule minimal_env_loads)

lemma readString_other: "k \<noteq> key \<Longrightarrow> readString (env(k \<mapsto> s)) key d = readString env key d"
  by (simp add: readString_def)

text \<open>\<open>START_LEDGER\<close> is never validated: whatever its text, loading succeeds as before, and a
  text without leading digits becomes the ledger NaN.\<close>

lemma start_ledger_unchecked:
  assumes "loadConfig env = Inr c"
  shows "loadConfig (env(''START_LEDGER'' \<mapsto> s)) = Inr (c\<lparr>cfg_startLedger :=
      (if js_trim s = [] then None else Some (parse_int10 (js_trim s)))\<rparr>) \<and>
    parse_int10 ''soon'' = NaN"
proof -
  let ?env = "env(''START_LEDGER'' \<mapsto> s)"
  have same: "readString ?env k d = readString env k d" if "k \<noteq> ''START_LEDGER''" for k d
    using that by (intro readString_other) simp
  have ledger: "map_option parse_int10 (readString ?env ''START_LEDGER'' None)
      = (if js_trim s = [] then None else Some (parse_int10 (js_trim s)))"
    by (simp add: readString_def)
  have "parse_int10 ''soon'' = NaN"
    by code_simp
  moreover have "loadConfig ?env = Inr (c\<lparr>cfg_startLedger :=
      map_option parse_int10 (readString ?env ''START_LEDGER'' None)\<rparr>)"
  proof -
    have readers: "k \<noteq> ''START_LEDGER'' \<Longrightarrow> readRequired ?env k = readRequired env k"
      "k \<noteq> ''START_LEDGER'' \<Longrightarrow> readInteger ?env k d = readInteger env k d"
      "k \<noteq> ''START_LEDGER'' \<Longrightarrow> readBigInt ?env k n = readBigInt env k n"
      "k \<noteq> ''START_LEDGER'' \<Longrightarrow> readBoolean ?env k b = readBoolean env k b"
      "readTokenPrices ?env = readTokenPrices env" for k d n b
      by (simp_all add: readRequired_def readInteger_def readBigInt_def readBoolean_def
          readTokenPrices_def same)
    show ?thesis
      using assms by (auto simp: loadConfig_def Let_def readers same dest!: iffD1 [OF rbind_eq_Inr]
          split: if_splits)
  qed
  ultimately show ?thesis
    by (simp only: ledger)
qed

lemma start_ledger_unchecked_witness:
  "\<exists>c. loadConfig (minimal_env(''START_LEDGER'' \<mapsto> ''soon'')) = Inr c \<and> cfg_startLedger c = Some NaN"
proof -
  obtain c where "loadConfig minimal_env = Inr c"
    using minimal_env_loads by blast
  moreover have "js_trim ''soon'' = ''soon''"
    by code_simp
  ultimately show ?thesis
    using start_ledger_unchecked [of minimal_env c "''soon''"] by simp
qed

end
