(* ===== verification/Watcher.thy ===== *)
theory Watcher
  imports Client Config
begin

section \<open>The intent watcher\<close>

text \<open>
  packages/solver-bot/src/watcher.ts.  The record \<open>bot_api\<close> adds to the client's parameters
  what the bot itself calls: the log sink, the event queries, \<open>fetch\<close> and the decoding of
  keys and authorization entries.  The watcher's own state is the set of seen hashes and the
  ledger cursor; its methods are actions on the pair of the world and that state.
\<close>

record 'sv router_event =
  ev_ledger :: jsnum
  ev_topic :: "'sv list"
  ev_txHash :: string

record 'sv events_response =
  evr_events :: "'sv router_event list"
  evr_latestLedger :: jsnum

record http_response =
  http_ok :: bool
  http_status :: jsnum
  http_json :: "jsval result"

record ('sv, 'op, 'acct, 'tx, 'au, 'rest, 'w) bot_api =
  "('sv, 'op, 'acct, 'tx, 'au, 'rest, 'w) chain_api" +
  iso_time :: "'w \<Rightarrow> string"
  sink :: "string \<Rightarrow> 'w \<Rightarrow> 'w"
  scval_sym :: "'sv \<Rightarrow> string"
  latest_ledger :: "('w, jsnum) action"
  get_events :: "jsnum \<Rightarrow> string \<Rightarrow> nat \<Rightarrow> ('w, 'sv events_response) action"
  fetch_url :: "string \<Rightarrow> ('w, http_response) action"
  keypair_from_secret :: "string \<Rightarrow> keypair result"
  auth_from_xdr :: "string \<Rightarrow> 'au result"

text \<open>A log call: format the entry, then hand its line to the sink.\<close>

definition log_msg ::
  "('sv, 'op, 'acct, 'tx, 'au, 'rest, 'w, 'x) bot_api_scheme \<Rightarrow> logger \<Rightarrow> log_level \<Rightarrow> string
     \<Rightarrow> meta \<Rightarrow> ('w, unit) action" where
  "log_msg B lg level msg meta = (\<lambda>w. case emit lg (iso_time B w) level msg meta of
       Inl e \<Rightarrow> (Inl e, w)
     | Inr lines \<Rightarrow> (Inr (), fold (sink B) lines w))"

text \<open>\<open>String(error)\<close> and \<open>error.message\<close>.\<close>

fun error_message :: "js_error \<Rightarrow> string" where
  "error_message (IntentValidationError m) = m"
| "error_message (ConfigError m) = m"
| "error_message (RangeError m) = m"
| "error_message (TypeError m) = m"
| "error_message (SyntaxError m) = m"
| "error_message (PlainError m) = m"

fun error_name :: "js_error \<Rightarrow> string" where
  "error_name (IntentValidationError m) = ''IntentValidationError''"
| "error_name (ConfigError m) = ''ConfigError''"
| "error_name (RangeError m) = ''RangeError''"
| "error_name (TypeError m) = ''TypeError''"
| "error_name (SyntaxError m) = ''SyntaxError''"
| "error_name (PlainError m) = ''Error''"

definition error_string :: "js_error \<Rightarrow> string" where
  "error_string e =
     (if error_message e = [] then error_name e else error_name e @ '': '' @ error_message e)"

datatype candidate_source = Feed | Chain

fun source_name :: "candidate_source \<Rightarrow> string" where
  "source_name Feed = ''feed''"
| "source_name Chain = ''chain''"

record candidate_intent =
  ca_hash :: string
  ca_source :: candidate_source
  ca_intent :: trader_intent
  ca_traderAuthEntry :: "string option"

record router_event_summary =
  es_ledger :: jsnum
  es_name :: string
  es_txHash :: string

record watcher =
  w_seen :: "string set"
  w_cursor :: jsnum

definition new_watcher ::
  "('sv, 'op, 'acct, 'tx, 'au, 'rest, 'w, 'x) bot_api_scheme \<Rightarrow> solver_config \<Rightarrow> watcher result" where
  "new_watcher B cfg =
     rbind (new_server B (cfg_rpcUrl cfg) (cfg_allowHttp cfg)) (\<lambda>_.
     Inr \<lparr>w_seen = {},
          w_cursor = (case cfg_startLedger cfg of Some l \<Rightarrow> l | None \<Rightarrow> Fin 0)\<rparr>)"

text \<open>Access to the watcher's fields.\<close>

definition get_watcher :: "('w \<times> watcher, watcher) action" where
  "get_watcher = (\<lambda>(w, s). (Inr s, (w, s)))"

definition modify_watcher :: "(watcher \<Rightarrow> watcher) \<Rightarrow> ('w \<times> watcher, unit) action" where
  "modify_watcher f = (\<lambda>(w, s). (Inr (), (w, f s)))"

subsection \<open>The feed\<close>

fun extractEntries :: "jsval \<Rightarrow> jsval list" where
  "extractEntries (JArr vs) = vs"
| "extractEntries (JObj kvs) = (case obj_lookup kvs ''intents'' of JArr vs \<Rightarrow> vs | _ \<Rightarrow> [])"
| "extractEntries _ = []"

text \<open>\<open>a ?? b\<close>.\<close>

definition nullish_or :: "jsval \<Rightarrow> jsval \<Rightarrow> jsval" where
  "nullish_or a b = (if a = JUndef \<or> a = JNull then b else a)"

text \<open>The \<open>try\<close> block of the loop in \<open>parseFeed\<close>: one entry to one candidate.\<close>

definition decode_entry ::
  "('sv, 'x) stellar_sdk_scheme \<Rightarrow> jsval \<Rightarrow> candidate_intent result" where
  "decode_entry S entry =
     rbind (js_get entry ''intent'') (\<lambda>field.
     let rawIntent = nullish_or field entry in
     rbind (case rawIntent of
         JStr s \<Rightarrow> Inr s
       | _ \<Rightarrow> rbind (json_stringify rawIntent)
           (\<lambda>t. Inr (case t of Some s \<Rightarrow> s | None \<Rightarrow> ''undefined''))) (\<lambda>json.
     rbind (deserializeIntent (address_ok S) json) (\<lambda>intent.
     rbind (js_get entry ''traderAuthEntry'') (\<lambda>auth.
     rbind (hashIntent S intent) (\<lambda>hash.
     Inr \<lparr>ca_hash = hash, ca_source = Feed, ca_intent = intent,
          ca_traderAuthEntry = (case auth of JStr s \<Rightarrow> Some s | _ \<Rightarrow> None)\<rparr>)))))"

fun parse_entries ::
  "('sv, 'op, 'acct, 'tx, 'au, 'rest, 'w, 'x) bot_api_scheme \<Rightarrow> logger \<Rightarrow> jsval list
     \<Rightarrow> ('w, candidate_intent list) action" where
  "parse_entries B lg [] = aret []"
| "parse_entries B lg (entry # entries) =
     abind (acatch (alift (rbind (decode_entry B entry) (\<lambda>c. Inr [c])))
         (\<lambda>e. abind (log_msg B lg Warn ''skipping malformed feed entry''
            [(''error'', JStr (error_string e))]) (\<lambda>_. aret []))) (\<lambda>cs.
     abind (parse_entries B lg entries) (\<lambda>rest. aret (cs @ rest)))"

definition parseFeed ::
  "('sv, 'op, 'acct, 'tx, 'au, 'rest, 'w, 'x) bot_api_scheme \<Rightarrow> logger \<Rightarrow> jsval
     \<Rightarrow> ('w, candidate_intent list) action" where
  "parseFeed B lg payload = parse_entries B lg (extractEntries payload)"

definition pollFeed ::
  "('sv, 'op, 'acct, 'tx, 'au, 'rest, 'w, 'x) bot_api_scheme \<Rightarrow> solver_config \<Rightarrow> logger
     \<Rightarrow> ('w, candidate_intent list) action" where
  "pollFeed B cfg lg = (case cfg_intentFeedUrl cfg of
       None \<Rightarrow> aret []
     | Some url \<Rightarrow>
         acatch
           (abind (fetch_url B url) (\<lambda>response.
            if \<not> http_ok response then
              abind (log_msg B lg Warn ''intent feed returned an error''
                [(''url'', JStr url), (''status'', JNum (http_status response))]) (\<lambda>_. aret [])
            else
              abind (alift (http_json response)) (\<lambda>payload. parseFeed B lg payload)))
           (\<lambda>e. abind (log_msg B lg Warn ''intent feed unreachable''
              [(''url'', JStr url), (''error'', JStr (error_string e))]) (\<lambda>_. aret [])))"

subsection \<open>Router events\<close>

definition decodeEventName ::
  "('sv, 'op, 'acct, 'tx, 'au, 'rest, 'w, 'x) bot_api_scheme \<Rightarrow> 'sv list \<Rightarrow> string" where
  "decodeEventName B topics = (case topics of
       [] \<Rightarrow> ''unknown''
     | first # _ \<Rightarrow> if scval_type B first = ''scvSymbol'' then scval_sym B first else scval_type B first)"

definition pollEvents ::
  "('sv, 'op, 'acct, 'tx, 'au, 'rest, 'w, 'x) bot_api_scheme \<Rightarrow> solver_config
     \<Rightarrow> ('w \<times> watcher, router_event_summary list) action" where
  "pollEvents B cfg =
     abind get_watcher (\<lambda>s.
     abind (if w_cursor s = Fin 0 then
          abind (on_world (latest_ledger B)) (\<lambda>sequence.
          modify_watcher (\<lambda>s. s\<lparr>w_cursor := js_max (Fin 1) sequence\<rparr>))
        else aret ()) (\<lambda>_.
     abind get_watcher (\<lambda>s.
     abind (on_world (get_events B (w_cursor s) (cfg_routerContractId cfg) 100)) (\<lambda>response.
     abind (if js_less (Fin 0) (evr_latestLedger response) \<and> evr_events response \<noteq> [] then
          modify_watcher (\<lambda>s. s\<lparr>w_cursor := js_add (evr_latestLedger response) (Fin 1)\<rparr>)
        else aret ()) (\<lambda>_.
     aret (map (\<lambda>ev. \<lparr>es_ledger = ev_ledger ev, es_name = decodeEventName B (ev_topic ev),
        es_txHash = ev_txHash ev\<rparr>) (evr_events response)))))))"

subsection \<open>A poll\<close>

text \<open>The loop over the discovered candidates: the fresh ones, and the set afterwards.\<close>

fun fresh_candidates ::
  "string set \<Rightarrow> candidate_intent list \<Rightarrow> candidate_intent list \<times> string set" where
  "fresh_candidates seen [] = ([], seen)"
| "fresh_candidates seen (c # cs) =
     (if ca_hash c \<in> seen then fresh_candidates seen cs
      else let (fresh, seen') = fresh_candidates (insert (ca_hash c) seen) cs in (c # fresh, seen'))"

definition take_fresh :: "candidate_intent list \<Rightarrow> ('w \<times> watcher, candidate_intent list) action" where
  "take_fresh discovered = (\<lambda>(w, s).
     let (fresh, seen) = fresh_candidates (w_seen s) discovered
     in (Inr fresh, (w, s\<lparr>w_seen := seen\<rparr>)))"

definition watcher_poll ::
  "('sv, 'op, 'acct, 'tx, 'au, 'rest, 'w, 'x) bot_api_scheme \<Rightarrow> solver_config \<Rightarrow> logger
     \<Rightarrow> ('w \<times> watcher, candidate_intent list) action" where
  "watcher_poll B cfg lg =
     abind (pollEvents B cfg) (\<lambda>events.
     abind (afor events (\<lambda>event. on_world (log_msg B lg Info ''router event observed''
        [(''ledger'', JNum (es_ledger event)), (''name'', JStr (es_name event)),
         (''txHash'', JStr (es_txHash event))]))) (\<lambda>_.
     abind (on_world (pollFeed B cfg lg)) (\<lambda>discovered.
     take_fresh discovered)))"

section \<open>What each effect leaves alone\<close>

text \<open>The observation of this component is the set of seen hashes.\<close>

definition seen_of :: "'w \<times> watcher \<Rightarrow> string set" where
  "seen_of st = w_seen (snd st)"

lemma on_world_seen: "stays.keeps seen_of (on_world m)"
  unfolding seen_of_def by (rule stays.keeps_beside)

lemma get_watcher_seen: "stays.keeps p get_watcher"
  by (auto simp: stays.keeps_def get_watcher_def)

lemma modify_cursor_seen: "stays.keeps seen_of (modify_watcher (\<lambda>s. s\<lparr>w_cursor := g s\<rparr>))"
  by (auto simp: stays.keeps_def modify_watcher_def seen_of_def)

lemmas keeps_seen = on_world_seen get_watcher_seen modify_cursor_seen stays.keeps_ret

lemma pollEvents_seen: "stays.keeps seen_of (pollEvents B cfg)"
  unfolding pollEvents_def
  by (intro stays.keeps_bind keeps_seen) (auto intro!: stays.keeps_bind keeps_seen)

text \<open>A poll up to the feed, which only looks at the seen hashes at the very end.\<close>

definition discover ::
  "('sv, 'op, 'acct, 'tx, 'au, 'rest, 'w, 'x) bot_api_scheme \<Rightarrow> solver_config \<Rightarrow> logger
     \<Rightarrow> ('w \<times> watcher, candidate_intent list) action" where
  "discover B cfg lg =
     abind (pollEvents B cfg) (\<lambda>events.
     abind (afor events (\<lambda>event. on_world (log_msg B lg Info ''router event observed''
        [(''ledger'', JNum (es_ledger event)), (''name'', JStr (es_name event)),
         (''txHash'', JStr (es_txHash event))]))) (\<lambda>_.
     on_world (pollFeed B cfg lg)))"

lemma watcher_poll_discover: "watcher_poll B cfg lg = abind (discover B cfg lg) take_fresh"
  by (simp add: watcher_poll_def discover_def abind_assoc)

lemma discover_seen: "stays.keeps seen_of (discover B cfg lg)"
  unfolding discover_def
  by (intro stays.keeps_bind stays.keeps_for on_world_seen pollEvents_seen)

lemma discover_feed:
  assumes "discover B cfg lg st = (Inr ds, st')"
  shows "\<exists>w1 w2. pollFeed B cfg lg w1 = (Inr ds, w2)"
proof -
  obtain st1 where "on_world (pollFeed B cfg lg) st1 = (Inr ds, st')"
    using assms unfolding discover_def abind_eq_Inr by blast
  then show ?thesis
    by (auto simp: on_world_def split: prod.splits)
qed

lemma watcher_poll_result:
  assumes "watcher_poll B cfg lg (w, s) = (r, (w', s'))"
  shows "(case r of
      Inl e \<Rightarrow> w_seen s' = w_seen s
    | Inr fresh \<Rightarrow> \<exists>ds w1 w2. pollFeed B cfg lg w1 = (Inr ds, w2) \<and>
        fresh_candidates (w_seen s) ds = (fresh, w_seen s'))"
proof -
  obtain x w1 s1 where d: "discover B cfg lg (w, s) = (x, (w1, s1))"
    by (metis prod_cases3)
  have seen: "w_seen s1 = w_seen s"
    using staysD [OF discover_seen d] by (simp add: seen_of_def)
  show ?thesis
  proof (cases x)
    case (Inl e)
    then show ?thesis
      using assms d seen by (auto simp: watcher_poll_discover abind_def)
  next
    case (Inr ds)
    then obtain u v where "pollFeed B cfg lg u = (Inr ds, v)"
      using discover_feed d by blast
    then show ?thesis
      using assms d seen Inr
      by (auto simp: watcher_poll_discover abind_def take_fresh_def split: prod.splits) blast
  qed
qed

section \<open>Fresh candidates\<close>

lemma fresh_candidates_spec:
  "fresh_candidates seen cs = (fresh, seen') \<Longrightarrow>
     distinct (map ca_hash fresh) \<and> ca_hash ` set fresh = ca_hash ` set cs - seen \<and>
     seen' = seen \<union> ca_hash ` set cs \<and> set fresh \<subseteq> set cs"
proof (induction seen cs arbitrary: fresh seen' rule: fresh_candidates.induct)
  case (2 seen c cs)
  show ?case
  proof (cases "ca_hash c \<in> seen")
    case True
    with 2(3) have "fresh_candidates seen cs = (fresh, seen')"
      by simp
    from 2(1) [OF True this] True show ?thesis
      by auto
  next
    case False
    obtain f' where f: "fresh_candidates (insert (ca_hash c) seen) cs = (f', seen')" "fresh = c # f'"
      using 2(3) False by (auto split: prod.splits)
    from 2(2) [OF False f(1)] False show ?thesis
      unfolding f(2) by auto
  qed
qed simp

text \<open>Polls in a row, with anything happening to the world in between; a poll that throws
  returns nothing.\<close>

fun poll_sequence ::
  "('sv, 'op, 'acct, 'tx, 'au, 'rest, 'w, 'x) bot_api_scheme \<Rightarrow> solver_config \<Rightarrow> logger
     \<Rightarrow> ('w \<Rightarrow> 'w) list \<Rightarrow> 'w \<times> watcher \<Rightarrow> candidate_intent list" where
  "poll_sequence B cfg lg [] st = []"
| "poll_sequence B cfg lg (f # fs) st = (case watcher_poll B cfg lg (f (fst st), snd st) of
       (Inl e, st') \<Rightarrow> poll_sequence B cfg lg fs st'
     | (Inr cs, st') \<Rightarrow> cs @ poll_sequence B cfg lg fs st')"

lemma poll_sequence_fresh:
  "distinct (map ca_hash (poll_sequence B cfg lg fs st)) \<and>
   ca_hash ` set (poll_sequence B cfg lg fs st) \<inter> seen_of st = {}"
proof (induction fs arbitrary: st)
  case (Cons f fs)
  obtain w s where st: "st = (w, s)" by (cases st)
  obtain r w' s' where poll: "watcher_poll B cfg lg (f w, s) = (r, (w', s'))"
    by (metis prod_cases3)
  note result = watcher_poll_result [OF poll] and IH = Cons [of "(w', s')"]
  show ?case
  proof (cases r)
    case (Inl e)
    then show ?thesis
      using result IH poll by (simp add: st seen_of_def)
  next
    case (Inr fresh)
    then obtain ds where "fresh_candidates (w_seen s) ds = (fresh, w_seen s')"
      using result by auto
    from fresh_candidates_spec [OF this] show ?thesis
      using IH poll Inr by (auto simp: st seen_of_def)
  qed
qed simp

section \<open>The feed\<close>

definition decoded :: "('sv, 'x) stellar_sdk_scheme \<Rightarrow> jsval list \<Rightarrow> candidate_intent list" where
  "decoded S entries =
     concat (map (\<lambda>e. case decode_entry S e of Inr c \<Rightarrow> [c] | Inl _ \<Rightarrow> []) entries)"

lemma log_msg_ok:
  assumes "no_bigints (log_bindings lg)" and "no_bigints meta"
  obtains w' where "log_msg B lg level msg meta w = (Inr (), w')"
  using assms by (simp add: log_msg_def emit_ok)

lemma parse_entries_decodes:
  assumes "no_bigints (log_bindings lg)"
  shows "\<exists>w'. parse_entries B lg entries w = (Inr (decoded B entries), w')"
proof (induction entries arbitrary: w)
  case Nil
  then show ?case
    by (simp add: action_simps decoded_def)
next
  case (Cons entry entries)
  show ?case
  proof (cases "decode_entry B entry")
    case (Inl e)
    obtain w1 where "log_msg B lg Warn ''skipping malformed feed entry''
        [(''error'', JStr (error_string e))] w = (Inr (), w1)"
      using log_msg_ok [OF assms, where meta = "[(''error'', JStr (error_string e))]" and B = B
          and level = Warn and msg = "''skipping malformed feed entry''" and w = w]
      by (simp add: no_bigints_def) blast
    then show ?thesis
      using Cons [of w1] Inl
      by (auto simp: abind_def acatch_def alift_def aret_def decoded_def)
  next
    case (Inr c)
    then show ?thesis
      using Cons [of w] by (auto simp: abind_def acatch_def alift_def aret_def decoded_def)
  qed
qed

lemma decode_entry_sound:
  "decode_entry S entry = Inr c \<Longrightarrow>
     intent_valid (address_ok S) (ca_intent c) \<and> hashIntent S (ca_intent c) = Inr (ca_hash c)"
  by (auto simp: decode_entry_def result_simps Let_def dest: deserialize_valid)

lemma parseFeed_decodes:
  assumes "no_bigints (log_bindings lg)"
  shows "\<exists>w'. parseFeed B lg payload w = (Inr (decoded B (extractEntries payload)), w')"
  unfolding parseFeed_def by (rule parse_entries_decodes [OF assms])

lemma decoded_sound:
  "c \<in> set (decoded S entries) \<Longrightarrow>
     intent_valid (address_ok S) (ca_intent c) \<and> hashIntent S (ca_intent c) = Inr (ca_hash c)"
  by (fastforce simp: decoded_def dest: decode_entry_sound [OF sym] split: sum.splits)

text \<open>The entries the feed lists when it is asked: none without a feed, without an answer, after an
  error status or when the body is not JSON.\<close>

definition feed_listing ::
  "('sv, 'op, 'acct, 'tx, 'au, 'rest, 'w, 'x) bot_api_scheme \<Rightarrow> solver_config \<Rightarrow> 'w \<Rightarrow> jsval list" where
  "feed_listing B cfg w = (case cfg_intentFeedUrl cfg of
       None \<Rightarrow> []
     | Some url \<Rightarrow> (case fst (fetch_url B url w) of
           Inl _ \<Rightarrow> []
         | Inr response \<Rightarrow>
             if \<not> http_ok response then []
             else (case http_json response of Inl _ \<Rightarrow> [] | Inr payload \<Rightarrow> extractEntries payload)))"

lemma decoded_Nil [simp]: "decoded S [] = []"
  by (simp add: decoded_def)

lemma pollFeed_result:
  assumes "no_bigints (log_bindings lg)"
  shows "\<exists>w'. pollFeed B cfg lg w = (Inr (decoded B (feed_listing B cfg w)), w')"
proof (cases "cfg_intentFeedUrl cfg")
  case None
  then show ?thesis
    by (simp add: pollFeed_def feed_listing_def aret_def)
next
  case (Some url)
  have warn: "\<exists>w'. log_msg B lg Warn msg [(''url'', JStr url), (k, v)] u = (Inr (), w')"
    if "\<not> has_bigint v" for msg k v u
    by (rule log_msg_ok [OF assms, where meta = "[(''url'', JStr url), (k, v)]" and B = B
        and level = Warn and msg = msg and w = u]) (use that in \<open>auto simp: no_bigints_def\<close>)
  obtain r w1 where fetch: "fetch_url B url w = (r, w1)"
    by (cases "fetch_url B url w")
  show ?thesis
  proof (cases r)
    case (Inl e)
    then show ?thesis
      using fetch warn [of "JStr (error_string e)" "''intent feed unreachable''" "''error''" w1]
      by (auto simp: pollFeed_def feed_listing_def Some abind_def acatch_def aret_def)
  next
    case (Inr resp)
    show ?thesis
    proof (cases "http_ok resp")
      case False
      then show ?thesis
        using fetch Inr
          warn [of "JNum (http_status resp)" "''intent feed returned an error''" "''status''" w1]
        by (auto simp: pollFeed_def feed_listing_def Some abind_def acatch_def aret_def)
    next
      case True
      show ?thesis
      proof (cases "http_json resp")
        case (Inl e)
        then show ?thesis
          using fetch Inr True
            warn [of "JStr (error_string e)" "''intent feed unreachable''" "''error''" w1]
          by (auto simp: pollFeed_def feed_listing_def Some abind_def acatch_def aret_def alift_def)
      next
        case (Inr payload)
        then show ?thesis
          using fetch \<open>r = Inr resp\<close> True parseFeed_decodes [OF assms, of B payload w1]
          by (auto simp: pollFeed_def feed_listing_def Some abind_def acatch_def aret_def alift_def)
      qed
    qed
  qed
qed

section \<open>A reference bot\<close>

text \<open>The clock world with an empty log and a feed that serves the sample intent twice.\<close>

definition sample_entry :: jsval where
  "sample_entry = JObj [(''intent'', JStr (serializeIntent sample_intent)), (''traderAuthEntry'', JStr ''AA'')]"

definition reference_bot ::
  "(string, string, string, string, string, unit, clock_world) bot_api" where
  "reference_bot = chain_api.extend clock_api
    \<lparr>iso_time = (\<lambda>_. ''now''), sink = (\<lambda>_ w. w), scval_sym = (\<lambda>s. s),
     latest_ledger = aret (Fin 5),
     get_events = (\<lambda>_ _ _. aret \<lparr>evr_events = [], evr_latestLedger = Fin 5\<rparr>),
     fetch_url = (\<lambda>_. aret \<lparr>http_ok = True, http_status = Fin 200,
       http_json = Inr (JArr [sample_entry, JNull, sample_entry])\<rparr>),
     keypair_from_secret = (\<lambda>s. Inr \<lparr>kp_publicKey = ''G'', kp_secret = s\<rparr>),
     auth_from_xdr = Inr\<rparr>"

lemma reference_bot_sdk [simp]:
  "address_ok reference_bot = (\<lambda>a. a \<noteq> [])"
  "hashIntent reference_bot i = hashIntent reference_sdk i"
proof -
  have "u64ScVal reference_bot = u64ScVal reference_sdk"
    by (simp add: fun_eq_iff u64ScVal_def reference_bot_def clock_api_def chain_api.defs
        stellar_sdk.defs reference_sdk_def)
  then show "hashIntent reference_bot i = hashIntent reference_sdk i"
    by (simp add: hashIntent_def intentDigest_def intentToScVal_def byField_def)
       (simp add: reference_bot_def clock_api_def chain_api.defs stellar_sdk.defs reference_sdk_def
        scval_defs)
qed (simp add: reference_bot_def clock_api_def chain_api.defs stellar_sdk.defs reference_sdk_def)

lemma sample_entry_decodes:
  obtains c where "decode_entry reference_bot sample_entry = Inr c" "ca_intent c = sample_intent"
    "hashIntent reference_sdk sample_intent = Inr (ca_hash c)"
proof -
  obtain h where h: "hashIntent reference_sdk sample_intent = Inr h"
    by (simp add: hashIntent_def intentDigest_def intentToScVal_def byField_def scval_defs
        reference_sdk_def sample_intent_def)
  have "is_double (deadline sample_intent)"
    by (simp only: sample_intent_def trader_intent.simps) (rule is_double_of_int, simp)
  then have "deserializeIntent (\<lambda>a. a \<noteq> []) (serializeIntent sample_intent) = Inr sample_intent"
    using sample_intent_valid by (rule deserialize_serialized [rotated])
  with h have "decode_entry reference_bot sample_entry
      = Inr \<lparr>ca_hash = h, ca_source = Feed, ca_intent = sample_intent, ca_traderAuthEntry = Some ''AA''\<rparr>"
    by (simp add: decode_entry_def sample_entry_def obj_lookup_def nullish_or_def)
  from that [OF this] h show thesis
    by simp
qed

definition feed_config :: solver_config where
  "feed_config = default_config\<lparr>cfg_intentFeedUrl := Some ''http://feed''\<rparr>"

definition sample_logger :: logger where
  "sample_logger = createLogger Info [(''service'', JStr ''slipguard-solver'')]"

lemma sample_logger_ok: "no_bigints (log_bindings sample_logger)"
  by (simp add: sample_logger_def createLogger_def no_bigints_def)

text \<open>A poll of any bot with this feed, whatever else it can do.\<close>

lemma sample_poll:
  assumes "latest_ledger B = aret (Fin 5)"
    and "get_events B = (\<lambda>_ _ _. aret \<lparr>evr_events = [], evr_latestLedger = Fin 5\<rparr>)"
    and "fetch_url B = (\<lambda>_. aret \<lparr>http_ok = True, http_status = Fin 200,
       http_json = Inr (JArr [sample_entry, JNull, sample_entry])\<rparr>)"
    and "decode_entry B sample_entry = decode_entry reference_bot sample_entry"
    and "\<And>line w. sink B line w = w"
    and "cfg_intentFeedUrl cfg = Some url"
  obtains c s where "watcher_poll B cfg sample_logger (w, \<lparr>w_seen = {}, w_cursor = Fin 0\<rparr>)
      = (Inr [c], (w, s))" "ca_intent c = sample_intent"
proof (rule sample_entry_decodes)
  fix c assume c: "decode_entry reference_bot sample_entry = Inr c" "ca_intent c = sample_intent"
  have quiet: "log_msg B sample_logger l m meta w = (x, w') \<Longrightarrow> w' = w" for l m meta x w w'
  proof -
    have "fold (sink B) ls v = v" for ls v
      by (induction ls arbitrary: v) (simp_all add: assms)
    then show "log_msg B sample_logger l m meta w = (x, w') \<Longrightarrow> w' = w"
      by (auto simp: log_msg_def split: sum.splits)
  qed
  have "decoded B [sample_entry, JNull, sample_entry] = [c, c]"
    using c assms by (simp add: decoded_def) (simp add: decode_entry_def)
  moreover obtain w1 where "parseFeed B sample_logger (JArr [sample_entry, JNull, sample_entry]) w
      = (Inr (decoded B [sample_entry, JNull, sample_entry]), w1)"
    using parseFeed_decodes [OF sample_logger_ok] by (metis extractEntries.simps(1))
  moreover have "stays.keeps (\<lambda>w. w) (parse_entries B sample_logger entries)" for entries
  proof -
    have "stays.keeps (\<lambda>w. w) (log_msg B sample_logger l m meta)" for l m meta
      using quiet by (metis stays.keepsI surjective_pairing)
    then show ?thesis
      by (induction entries) (auto intro!: stays.keeps_bind stays.keeps_catch stays.keeps_ret)
  qed
  ultimately have "parseFeed B sample_logger (JArr [sample_entry, JNull, sample_entry]) w = (Inr [c, c], w)"
    using staysD unfolding parseFeed_def by metis
  then have "pollFeed B cfg sample_logger w = (Inr [c, c], w)"
    using assms by (simp add: pollFeed_def abind_def acatch_def aret_def alift_def)
  then have "\<exists>s. watcher_poll B cfg sample_logger (w, \<lparr>w_seen = {}, w_cursor = Fin 0\<rparr>) = (Inr [c], (w, s))"
    using assms by (simp add: watcher_poll_def pollEvents_def get_watcher_def modify_watcher_def
        on_world_def abind_def aret_def take_fresh_def)
  with that c show thesis
    by blast
qed

section \<open>Properties\<close>

text \<open>(C14) No intent is returned twice: over any sequence of polls, whatever happens in the world
  between them and whichever of them throw, the returned candidates have distinct hashes and
  none was seen before.\<close>

theorem polls_never_repeat:
  "distinct (map ca_hash (poll_sequence B cfg lg fs st)) \<and>
   ca_hash ` set (poll_sequence B cfg lg fs st) \<inter> seen_of st = {}"
  by (rule poll_sequence_fresh)

text \<open>(C32) What a poll returns is safe to evaluate: every candidate holds a valid intent under its
  own hash, and the watcher remembers it.\<close>

theorem poll_candidates_valid:
  assumes "no_bigints (log_bindings lg)"
    and "watcher_poll B cfg lg (w, s) = (Inr fresh, (w', s'))" and "c \<in> set fresh"
  shows "intent_valid (address_ok B) (ca_intent c) \<and> hashIntent B (ca_intent c) = Inr (ca_hash c) \<and>
    ca_hash c \<in> w_seen s' \<and> w_seen s \<subseteq> w_seen s'"
proof -
  obtain ds w1 w2 where ds: "pollFeed B cfg lg w1 = (Inr ds, w2)"
    "fresh_candidates (w_seen s) ds = (fresh, w_seen s')"
    using watcher_poll_result [OF assms(2)] by auto
  have "c \<in> set ds"
    using fresh_candidates_spec [OF ds(2)] assms(3) by auto
  moreover have "ds = decoded B (feed_listing B cfg w1)"
    using pollFeed_result [OF assms(1), of B cfg w1] ds(1) by auto
  ultimately show ?thesis
    using fresh_candidates_spec [OF ds(2)] decoded_sound by auto
qed

theorem poll_candidates_valid_witness:
  "\<exists>c st. watcher_poll reference_bot feed_config sample_logger
      ((0, 0), \<lparr>w_seen = {}, w_cursor = Fin 0\<rparr>) = (Inr [c], st) \<and>
    hashIntent reference_bot (ca_intent c) = Inr (ca_hash c)"
proof -
  obtain c s where p: "watcher_poll reference_bot feed_config sample_logger
      ((0, 0), \<lparr>w_seen = {}, w_cursor = Fin 0\<rparr>) = (Inr [c], ((0, 0), s))"
    by (rule sample_poll [where B = reference_bot and cfg = feed_config and w = "(0, 0)"])
       (auto simp: reference_bot_def chain_api.defs clock_api_def stellar_sdk.defs feed_config_def)
  with poll_candidates_valid [OF sample_logger_ok p] show ?thesis
    by fastforce
qed

text \<open>(C37) A broken feed never stops the bot: \<open>pollFeed\<close> returns for every answer of the server
  (no answer, an error status, a body that is not JSON, malformed entries), and what it
  returns is the listed entries that decode, in order.\<close>

theorem pollFeed_never_throws:
  assumes "no_bigints (log_bindings lg)"
  shows "\<exists>w'. pollFeed B cfg lg w = (Inr (decoded B (feed_listing B cfg w)), w')"
  using assms by (rule pollFeed_result)

theorem pollFeed_never_throws_witness:
  "\<exists>w'. pollFeed reference_bot feed_config sample_logger (0, 0) =
     (Inr (decoded reference_bot [sample_entry, JNull, sample_entry]), w')"
proof -
  have "feed_listing reference_bot feed_config (0, 0) = [sample_entry, JNull, sample_entry]"
    by (simp add: feed_listing_def feed_config_def reference_bot_def clock_api_def chain_api.defs stellar_sdk.defs aret_def)
  then show ?thesis
    using pollFeed_never_throws [OF sample_logger_ok, of reference_bot feed_config "(0, 0)"] by simp
qed

text \<open>The cursor jumps past the latest ledger as soon as one event arrives: the query asks for
  at most 100 events, and those beyond the first 100 are never queried again.\<close>

lemma pollEvents_cursor:
  assumes "w_cursor s \<noteq> Fin 0"
    and "get_events B (w_cursor s) (cfg_routerContractId cfg) 100 w = (Inr response, w')"
  shows "\<exists>es. pollEvents B cfg (w, s) = (Inr es, (w', s\<lparr>w_cursor :=
      (if js_less (Fin 0) (evr_latestLedger response) \<and> evr_events response \<noteq> []
       then js_add (evr_latestLedger response) (Fin 1) else w_cursor s)\<rparr>)) \<and>
    map es_txHash es = map ev_txHash (evr_events response)"
  using assms
  by (simp add: pollEvents_def get_watcher_def modify_watcher_def on_world_def abind_def aret_def comp_def)

lemma pollEvents_cursor_witness:
  "\<exists>es. pollEvents reference_bot feed_config ((0, 0), \<lparr>w_seen = {}, w_cursor = Fin 3\<rparr>)
     = (Inr es, ((0, 0), \<lparr>w_seen = {}, w_cursor = Fin 3\<rparr>))"
  using pollEvents_cursor [of "\<lparr>w_seen = {}, w_cursor = Fin 3\<rparr>" reference_bot feed_config "(0, 0)"
      "\<lparr>evr_events = [], evr_latestLedger = Fin 5\<rparr>" "(0, 0)"]
  by (auto simp: reference_bot_def clock_api_def chain_api.defs stellar_sdk.defs aret_def)

end
