(* ===== verification/Executor.thy ===== *)
theory Executor
  imports Watcher
begin

section \<open>The executor\<close>

text \<open>
  packages/solver-bot/src/executor.ts: the keypair and the client it is built from, and
  \<open>execute\<close>, which signs and submits a fill and waits for it.  The wait is the client's
  polling loop, so \<open>execute\<close> is a process.
\<close>

record executor =
  ex_keypair :: keypair
  ex_client :: slipguard_client

definition new_executor ::
  "('sv, 'op, 'acct, 'tx, 'au, 'rest, 'w, 'x) bot_api_scheme \<Rightarrow> solver_config
     \<Rightarrow> slipguard_client option \<Rightarrow> executor result" where
  "new_executor B cfg client =
     rbind (keypair_from_secret B (cfg_solverSecretKey cfg)) (\<lambda>kp.
     rbind (case client of
         Some c \<Rightarrow> Inr c
       | None \<Rightarrow> new_client B
           \<lparr>opt_contractId = cfg_routerContractId cfg, opt_rpcUrl = cfg_rpcUrl cfg,
            opt_networkPassphrase = cfg_networkPassphrase cfg,
            opt_publicKey = Some (kp_publicKey kp), opt_allowHttp = Some (cfg_allowHttp cfg)\<rparr>) (\<lambda>cl.
     Inr \<lparr>ex_keypair = kp, ex_client = cl\<rparr>))"

definition solverAddress :: "executor \<Rightarrow> string" where
  "solverAddress ex = kp_publicKey (ex_keypair ex)"

definition decodeAuthEntries ::
  "('sv, 'op, 'acct, 'tx, 'au, 'rest, 'w, 'x) bot_api_scheme \<Rightarrow> string option \<Rightarrow> 'au list result" where
  "decodeAuthEntries B encoded = (case encoded of
       None \<Rightarrow> Inr []
     | Some s \<Rightarrow> rbind (auth_from_xdr B s) (\<lambda>e. Inr [e]))"

fun submit_status_name :: "submit_status \<Rightarrow> string" where
  "submit_status_name SUCCESS = ''SUCCESS''"
| "submit_status_name FAILED = ''FAILED''"
| "submit_status_name NOT_FOUND = ''NOT_FOUND''"

definition fill_params ::
  "solver_config \<Rightarrow> executor \<Rightarrow> candidate_intent \<Rightarrow> int \<Rightarrow> 'au list \<Rightarrow> 'au execute_params" where
  "fill_params cfg ex candidate fillAmount authEntries =
     \<lparr>ep_solver = ex_keypair ex, ep_intent = ca_intent candidate, ep_actualBuyAmount = fillAmount,
      ep_fee = Some (cfg_maxFeeStroops cfg),
      ep_authEntries = (if authEntries = [] then None else Some authEntries)\<rparr>"

definition execute ::
  "('sv, 'op, 'acct, 'tx, 'au, 'rest, 'w, 'x) bot_api_scheme \<Rightarrow> solver_config \<Rightarrow> logger \<Rightarrow> executor
     \<Rightarrow> candidate_intent \<Rightarrow> int \<Rightarrow> ('w, submit_result option) process" where
  "execute B cfg lg ex candidate fillAmount =
     (if cfg_dryRun cfg then
        prun (abind (log_msg B lg Info ''dry run: fill not submitted''
          [(''hash'', JStr (ca_hash candidate)), (''fillAmount'', JStr (bigint_to_string fillAmount))])
          (\<lambda>_. aret None))
      else
        pbind (prun (alift (decodeAuthEntries B (ca_traderAuthEntry candidate)))) (\<lambda>authEntries.
        pbind (prun (prepareExecuteIntent B (ex_client ex)
            (fill_params cfg ex candidate fillAmount authEntries))) (\<lambda>tx.
        pbind (prun (log_msg B lg Info ''submitting fill'' [(''hash'', JStr (ca_hash candidate))])) (\<lambda>_.
        pbind (submitTransaction B tx (Some (cfg_txTimeoutMs cfg))) (\<lambda>res.
        pbind (prun (log_msg B lg Info ''fill settled''
            [(''hash'', JStr (ca_hash candidate)),
             (''status'', JStr (submit_status_name (sr_status res))),
             (''ledger'', case sr_ledger res of Some l \<Rightarrow> JNum l | None \<Rightarrow> JUndef)])) (\<lambda>_.
        prun (aret (Some res))))))))"

section \<open>Dry runs\<close>

lemma execute_dry_run:
  assumes "cfg_dryRun cfg" and "no_bigints (log_bindings lg)"
  obtains w' where "execute B cfg lg ex c a w = Some (Inr None, w')"
    "log_msg B lg Info ''dry run: fill not submitted''
       [(''hash'', JStr (ca_hash c)), (''fillAmount'', JStr (bigint_to_string a))] w = (Inr (), w')"
proof -
  obtain w' where l: "log_msg B lg Info ''dry run: fill not submitted''
       [(''hash'', JStr (ca_hash c)), (''fillAmount'', JStr (bigint_to_string a))] w = (Inr (), w')"
    by (rule log_msg_ok [OF assms(2), where B = B and level = Info and w = w
        and msg = "''dry run: fill not submitted''"
        and meta = "[(''hash'', JStr (ca_hash c)), (''fillAmount'', JStr (bigint_to_string a))]"])
       (simp_all add: no_bigints_def)
  then have "execute B cfg lg ex c a w = Some (Inr None, w')"
    using assms(1) by (simp add: execute_def prun_def abind_def aret_def)
  with l that show thesis by blast
qed

end
