(* ===== verification/Solver.thy ===== *)
theory Solver
  imports Executor
begin

section \<open>The main loop\<close>

text \<open>
  packages/solver-bot/src/index.ts.  The state of \<open>main\<close> is the world, the watcher and the
  flag \<open>running\<close>.  Signals arrive from outside: \<open>take_signals\<close> tells which ones came in
  since it was last asked, and they are delivered wherever the code awaits (after a poll, a
  handled candidate, a cycle and a pause), which is where the event loop can run the handlers.
\<close>

record ('sv, 'op, 'acct, 'tx, 'au, 'rest, 'w) solver_api =
  "('sv, 'op, 'acct, 'tx, 'au, 'rest, 'w) bot_api" +
  take_signals :: "'w \<Rightarrow> string list \<times> 'w"

type_synonym 'w solver_world = "('w \<times> watcher) \<times> bool"

definition log_outer ::
  "('sv, 'op, 'acct, 'tx, 'au, 'rest, 'w, 'x) bot_api_scheme \<Rightarrow> logger \<Rightarrow> log_level \<Rightarrow> string
     \<Rightarrow> meta \<Rightarrow> ('w solver_world, unit) action" where
  "log_outer B lg level msg meta = on_world (on_world (log_msg B lg level msg meta))"

definition stop ::
  "('sv, 'op, 'acct, 'tx, 'au, 'rest, 'w, 'x) bot_api_scheme \<Rightarrow> logger \<Rightarrow> string
     \<Rightarrow> ('w solver_world, unit) action" where
  "stop B lg signal = (\<lambda>(st, running).
     if \<not> running then (Inr (), (st, running))
     else log_outer B lg Info ''shutdown signal received'' [(''signal'', JStr signal)] (st, False))"

definition deliver ::
  "('sv, 'op, 'acct, 'tx, 'au, 'rest, 'w, 'x) solver_api_scheme \<Rightarrow> logger
     \<Rightarrow> ('w solver_world, unit) action" where
  "deliver B lg = (\<lambda>((w, s), running).
     let (signals, w') = take_signals B w in afor signals (stop B lg) ((w', s), running))"

definition sleep ::
  "('sv, 'op, 'acct, 'tx, 'au, 'rest, 'w, 'x) bot_api_scheme \<Rightarrow> jsnum \<Rightarrow> ('w solver_world, unit) action" where
  "sleep B ms = (\<lambda>((w, s), running). (Inr (), ((wait_ms B ms w, s), running)))"

definition handle ::
  "('sv, 'op, 'acct, 'tx, 'au, 'rest, 'w, 'x) bot_api_scheme \<Rightarrow> solver_config \<Rightarrow> logger \<Rightarrow> executor
     \<Rightarrow> candidate_intent \<Rightarrow> ('w, unit) process" where
  "handle B cfg lg ex candidate =
     pbind (\<lambda>w. Some (evaluateFromPrices (date_now B w) (ca_intent candidate)
         (minBuyAmount (ca_intent candidate)) (cfg_tokenPrices cfg) (cfg_txCost cfg)
         (cfg_minProfit cfg) None, w)) (\<lambda>evaluation.
     pbind (prun (log_msg B lg Info ''evaluated intent''
         [(''hash'', JStr (ca_hash candidate)), (''source'', JStr (source_name (ca_source candidate))),
          (''profitable'', JBool (er_profitable evaluation)), (''reason'', JStr (er_reason evaluation)),
          (''netProfit'', JStr (bigint_to_string (er_netProfit evaluation))),
          (''fillAmount'', JStr (bigint_to_string (er_fillAmount evaluation)))])) (\<lambda>_.
     if \<not> er_profitable evaluation then prun (aret ())
     else pbind (execute B cfg lg ex candidate (er_fillAmount evaluation)) (\<lambda>_. prun (aret ()))))"

text \<open>The loop over the fresh candidates, with its early return.\<close>

fun handle_candidates ::
  "('sv, 'op, 'acct, 'tx, 'au, 'rest, 'w, 'x) solver_api_scheme \<Rightarrow> solver_config \<Rightarrow> logger
     \<Rightarrow> executor \<Rightarrow> candidate_intent list \<Rightarrow> ('w solver_world, unit) process" where
  "handle_candidates B cfg lg ex [] = prun (aret ())"
| "handle_candidates B cfg lg ex (c # cs) = (\<lambda>(st, running).
     if \<not> running then Some (Inr (), (st, running))
     else pbind (pon_world (pon_world (handle B cfg lg ex c))) (\<lambda>_.
          pbind (prun (deliver B lg)) (\<lambda>_. handle_candidates B cfg lg ex cs)) (st, running))"

definition tick ::
  "('sv, 'op, 'acct, 'tx, 'au, 'rest, 'w, 'x) solver_api_scheme \<Rightarrow> solver_config \<Rightarrow> logger
     \<Rightarrow> executor \<Rightarrow> ('w solver_world, unit) process" where
  "tick B cfg lg ex =
     pbind (prun (on_world (watcher_poll B cfg lg))) (\<lambda>candidates.
     pbind (prun (deliver B lg)) (\<lambda>_.
     if candidates = [] then prun (log_outer B lg Debug ''no fresh intents'' [])
     else handle_candidates B cfg lg ex candidates))"

text \<open>The body of the \<open>while\<close> loop up to the second look at \<open>running\<close>.\<close>

definition cycle ::
  "('sv, 'op, 'acct, 'tx, 'au, 'rest, 'w, 'x) solver_api_scheme \<Rightarrow> solver_config \<Rightarrow> logger
     \<Rightarrow> executor \<Rightarrow> ('w solver_world, unit) process" where
  "cycle B cfg lg ex =
     pbind (pcatch (tick B cfg lg ex)
       (\<lambda>e. prun (log_outer B lg Error ''poll cycle failed'' [(''error'', JStr (error_message e))])))
       (\<lambda>_. prun (deliver B lg))"

definition pause ::
  "('sv, 'op, 'acct, 'tx, 'au, 'rest, 'w, 'x) solver_api_scheme \<Rightarrow> solver_config \<Rightarrow> logger
     \<Rightarrow> ('w solver_world, unit) action" where
  "pause B cfg lg = abind (sleep B (cfg_pollIntervalMs cfg)) (\<lambda>_. deliver B lg)"

partial_function (option) main_loop ::
  "('sv, 'op, 'acct, 'tx, 'au, 'rest, 'w, 'x) solver_api_scheme \<Rightarrow> solver_config \<Rightarrow> logger
     \<Rightarrow> executor \<Rightarrow> 'w solver_world \<Rightarrow> (unit result \<times> 'w solver_world) option" where
  "main_loop B cfg lg ex st =
     (if \<not> snd st then Some (Inr (), st)
      else case cycle B cfg lg ex st of
          None \<Rightarrow> None
        | Some (Inl e, st1) \<Rightarrow> Some (Inl e, st1)
        | Some (Inr _, st1) \<Rightarrow>
            if \<not> snd st1 then Some (Inr (), st1)
            else (case pause B cfg lg st1 of
                (Inl e, st2) \<Rightarrow> Some (Inl e, st2)
              | (Inr _, st2) \<Rightarrow> main_loop B cfg lg ex st2))"

definition main ::
  "('sv, 'op, 'acct, 'tx, 'au, 'rest, 'w, 'x) solver_api_scheme \<Rightarrow> environment \<Rightarrow> 'w
     \<Rightarrow> (unit result \<times> 'w) option" where
  "main B env w = (case loadConfig env of
       Inl e \<Rightarrow> Some (Inl e, w)
     | Inr cfg \<Rightarrow>
         let lg = createLogger (cfg_logLevel cfg) [(''service'', JStr ''slipguard-solver'')] in
         (case rbind (new_watcher B cfg) (\<lambda>s.
               rbind (new_executor B cfg None) (\<lambda>ex. Inr (s, ex))) of
            Inl e \<Rightarrow> Some (Inl e, w)
          | Inr (s, ex) \<Rightarrow>
              map_option (\<lambda>(r, st). (r, fst (fst st)))
                (pbind (prun (log_outer B lg Info ''solver starting''
                    [(''rpcUrl'', JStr (cfg_rpcUrl cfg)),
                     (''routerContractId'', JStr (cfg_routerContractId cfg)),
                     (''solver'', JStr (solverAddress ex)),
                     (''feed'', case cfg_intentFeedUrl cfg of Some u \<Rightarrow> JStr u | None \<Rightarrow> JNull),
                     (''pollIntervalMs'', JNum (cfg_pollIntervalMs cfg)),
                     (''dryRun'', JBool (cfg_dryRun cfg))])) (\<lambda>_.
                 pbind (main_loop B cfg lg ex) (\<lambda>_.
                 prun (log_outer B lg Info ''solver stopped'' []))) ((w, s), True))))"

text \<open>\<open>main().catch(...)\<close>: the exit code of the process.\<close>

definition exit_code :: "unit result \<Rightarrow> nat" where
  "exit_code r = (case r of Inl _ \<Rightarrow> 1 | Inr _ \<Rightarrow> 0)"

section \<open>What a cycle does to the world\<close>

text \<open>Everything the bot calls except reading accounts, simulating, sending and waiting keeps
  an observation to an order.\<close>

definition quiet_api ::
  "('k \<Rightarrow> 'k \<Rightarrow> bool) \<Rightarrow> ('w \<Rightarrow> 'k)
     \<Rightarrow> ('sv, 'op, 'acct, 'tx, 'au, 'rest, 'w, 'x) solver_api_scheme \<Rightarrow> bool" where
  "quiet_api le p B \<longleftrightarrow>
     (\<forall>line w. le (p w) (p (sink B line w))) \<and>
     (\<forall>w. le (p w) (p (snd (latest_ledger B w)))) \<and>
     (\<forall>l c n w. le (p w) (p (snd (get_events B l c n w)))) \<and>
     (\<forall>u w. le (p w) (p (snd (fetch_url B u w)))) \<and>
     (\<forall>w. le (p w) (p (snd (take_signals B w))))"

text \<open>The rest of it, but for sending.\<close>

definition calm_api ::
  "('k \<Rightarrow> 'k \<Rightarrow> bool) \<Rightarrow> ('w \<Rightarrow> 'k)
     \<Rightarrow> ('sv, 'op, 'acct, 'tx, 'au, 'rest, 'w, 'x) solver_api_scheme \<Rightarrow> bool" where
  "calm_api le p B \<longleftrightarrow> quiet_api le p B \<and>
     (\<forall>k w. le (p w) (p (snd (get_account B k w)))) \<and>
     (\<forall>tx w. le (p w) (p (snd (simulate_tx B tx w)))) \<and>
     (\<forall>h w. le (p w) (p (snd (get_tx B h w)))) \<and>
     (\<forall>ms w. le (p w) (p (wait_ms B ms w)))"

lemma calm_quiet: "calm_api le p B \<Longrightarrow> quiet_api le p B"
  by (simp add: calm_api_def)

text \<open>The same without the look at the signals, which is no call of the code.\<close>

definition mute_api ::
  "('k \<Rightarrow> 'k \<Rightarrow> bool) \<Rightarrow> ('w \<Rightarrow> 'k)
     \<Rightarrow> ('sv, 'op, 'acct, 'tx, 'au, 'rest, 'w, 'x) bot_api_scheme \<Rightarrow> bool" where
  "mute_api le p B \<longleftrightarrow>
     (\<forall>line w. le (p w) (p (sink B line w))) \<and>
     (\<forall>w. le (p w) (p (snd (latest_ledger B w)))) \<and>
     (\<forall>l c n w. le (p w) (p (snd (get_events B l c n w)))) \<and>
     (\<forall>u w. le (p w) (p (snd (fetch_url B u w))))"

definition steady_api ::
  "('k \<Rightarrow> 'k \<Rightarrow> bool) \<Rightarrow> ('w \<Rightarrow> 'k)
     \<Rightarrow> ('sv, 'op, 'acct, 'tx, 'au, 'rest, 'w, 'x) bot_api_scheme \<Rightarrow> bool" where
  "steady_api le p B \<longleftrightarrow> mute_api le p B \<and>
     (\<forall>k w. le (p w) (p (snd (get_account B k w)))) \<and>
     (\<forall>tx w. le (p w) (p (snd (simulate_tx B tx w)))) \<and>
     (\<forall>h w. le (p w) (p (snd (get_tx B h w)))) \<and>
     (\<forall>ms w. le (p w) (p (wait_ms B ms w)))"

lemma steady_mute: "steady_api le p B \<Longrightarrow> mute_api le p B"
  by (simp add: steady_api_def)

lemma quiet_mute: "quiet_api le p B \<Longrightarrow> mute_api le p B"
  by (simp add: quiet_api_def mute_api_def)

lemma calm_steady: "calm_api le p B \<Longrightarrow> steady_api le p B"
  by (simp add: calm_api_def steady_api_def quiet_mute)

context effect_order
begin

lemma log_mute:
  assumes "mute_api le p B"
  shows "keeps p (log_msg B lg level msg meta)"
proof -
  have "le (p w) (p (fold (sink B) lines w))" for lines w
  proof (induction lines arbitrary: w)
    case (Cons line lines)
    then show ?case
      using assms by (auto simp: mute_api_def intro: trans)
  qed (simp add: refl)
  then show ?thesis
    by (auto simp: keeps_def log_msg_def refl split: sum.split)
qed

lemma parse_entries_keeps:
  assumes "mute_api le p B"
  shows "keeps p (parse_entries B lg entries)"
  using assms
  by (induction entries) (auto intro!: keeps_bind keeps_catch keeps_ret log_mute)

lemma pollFeed_keeps:
  assumes "mute_api le p B"
  shows "keeps p (pollFeed B cfg lg)"
proof -
  have "keeps p (fetch_url B u)" for u
    using assms by (simp add: keeps_def mute_api_def)
  then show ?thesis
    unfolding pollFeed_def parseFeed_def
    using assms
    by (auto intro!: keeps_bind keeps_catch keeps_ret log_mute parse_entries_keeps split: option.split)
qed

lemma watcher_ops_keep: "keeps (\<lambda>st. p (fst st)) get_watcher" "keeps (\<lambda>st. p (fst st)) (modify_watcher g)"
  by (auto simp: keeps_def get_watcher_def modify_watcher_def refl)

lemma pollEvents_keeps:
  assumes "mute_api le p B"
  shows "keeps (\<lambda>st. p (fst st)) (pollEvents B cfg)"
proof -
  have "keeps p (latest_ledger B)" "keeps p (get_events B l c n)" for l c n
    using assms by (simp_all add: keeps_def mute_api_def)
  then show ?thesis
    unfolding pollEvents_def
    by (auto intro!: keeps_bind keeps_ret keeps_on_world watcher_ops_keep)
qed

lemma watcher_poll_mute:
  assumes "mute_api le p B"
  shows "keeps (\<lambda>st. p (fst st)) (watcher_poll B cfg lg)"
proof -
  have "keeps (\<lambda>st. p (fst st)) (take_fresh ds)" for ds
    by (auto simp: keeps_def take_fresh_def refl split: prod.split)
  with assms show ?thesis
    unfolding watcher_poll_def
    by (intro keeps_bind keeps_for keeps_on_world pollEvents_keeps pollFeed_keeps log_mute)
qed

lemma log_outer_mute:
  assumes "mute_api le p B"
  shows "keeps (\<lambda>st. p (fst (fst st))) (log_outer B lg level msg meta)"
  unfolding log_outer_def
  using keeps_on_world [OF keeps_on_world [OF log_mute [OF assms]]] .

lemmas log_keeps = log_mute [OF quiet_mute]
lemmas watcher_poll_keeps = watcher_poll_mute [OF quiet_mute]
lemmas log_outer_keeps = log_outer_mute [OF quiet_mute]

lemma deliver_keeps:
  assumes "quiet_api le p B"
  shows "keeps (\<lambda>st. p (fst (fst st))) (deliver B lg)"
proof -
  have "keeps (\<lambda>st. p (fst (fst st))) (stop B lg sig)" for sig
    using log_outer_keeps [OF assms] by (auto simp: keeps_def stop_def refl) 
  then have "keeps (\<lambda>st. p (fst (fst st))) (afor sigs (stop B lg))" for sigs
    by (rule keeps_for)
  moreover have "le (p w) (p (snd (take_signals B w)))" for w
    using assms by (simp add: quiet_api_def)
  ultimately have "le (p w) (p (fst (fst (snd (afor sigs (stop B lg) ((w', s), r))))))"
    if "take_signals B w = (sigs, w')" for sigs w w' s r
    using that by (metis (no_types, lifting) fst_conv keeps_def snd_conv trans)
  then show ?thesis
    by (auto simp: keeps_def deliver_def split: prod.split)
qed

lemma handle_candidates_keeps:
  assumes "quiet_api le p B" and "\<And>c. pkeeps p (handle B cfg lg ex c)"
  shows "pkeeps (\<lambda>st. p (fst (fst st))) (handle_candidates B cfg lg ex cs)"
proof (induction cs)
  case (Cons c cs)
  have "pkeeps (\<lambda>st. p (fst (fst st))) (pbind (pon_world (pon_world (handle B cfg lg ex c))) (\<lambda>_.
      pbind (prun (deliver B lg)) (\<lambda>_. handle_candidates B cfg lg ex cs)))"
    using pkeeps_on_world [OF pkeeps_on_world [OF assms(2)]]
    by (intro pkeeps_bind pkeeps_run deliver_keeps assms Cons) assumption
  then show ?case
    by (auto simp: pkeeps_def refl)
qed (simp add: pkeeps_run keeps_ret)

lemma tick_keeps:
  assumes "quiet_api le p B" and "\<And>c. pkeeps p (handle B cfg lg ex c)"
  shows "pkeeps (\<lambda>st. p (fst (fst st))) (tick B cfg lg ex)"
  unfolding tick_def
  using keeps_on_world [OF watcher_poll_keeps [OF assms(1)]] handle_candidates_keeps [OF assms]
    deliver_keeps [OF assms(1)] log_outer_keeps [OF assms(1)]
  by (auto intro!: pkeeps_bind pkeeps_run)

lemma cycle_keeps:
  assumes "quiet_api le p B" and "\<And>c. pkeeps p (handle B cfg lg ex c)"
  shows "pkeeps (\<lambda>st. p (fst (fst st))) (cycle B cfg lg ex)"
  unfolding cycle_def
  by (intro pkeeps_bind pkeeps_catch pkeeps_run tick_keeps log_outer_keeps deliver_keeps assms)

lemma handle_keeps:
  assumes "mute_api le p B" and "\<And>a. pkeeps p (execute B cfg lg ex c a)"
  shows "pkeeps p (handle B cfg lg ex c)"
proof -
  have "pkeeps p (\<lambda>w. Some (ev w, w))" for ev
    by (auto simp: pkeeps_def refl)
  then show ?thesis
    unfolding handle_def using assms
    by (auto intro!: pkeeps_bind pkeeps_run keeps_ret log_mute)
qed

lemma dry_handle_keeps:
  assumes "quiet_api le p B" and "cfg_dryRun cfg"
  shows "pkeeps p (handle B cfg lg ex c)"
proof (rule handle_keeps [OF quiet_mute [OF assms(1)]])
  show "pkeeps p (execute B cfg lg ex c a)" for a
    using assms by (auto simp: execute_def intro!: pkeeps_run keeps_bind keeps_ret log_keeps)
qed

lemma prepare_steady:
  assumes "steady_api le p B"
  shows "keeps p (prepareExecuteIntent B cl q)"
proof -
  have "keeps p (get_account B k)" "keeps p (simulate_tx B tx)" for k tx
    using assms by (simp_all add: keeps_def steady_api_def)
  then show ?thesis
    unfolding prepareExecuteIntent_def
    by (auto intro!: keeps_bind keeps_ret split: simulation.split)
qed

lemma poll_loop_steady:
  assumes "steady_api le p B" and ret: "poll_loop B h dl w = Some y"
  shows "le (p w) (p (snd y))"
proof (rule poll_loop.raw_induct [where P = "\<lambda>C h dl w y. C = B \<longrightarrow> le (p w) (p (snd y))", OF _ ret,
      THEN mp, OF _ HOL.refl])
  have step: "le (p w) (p w')" if "get_tx B h w = (r, w')" for h w r w'
    using assms(1) that by (metis steady_api_def snd_conv)
  have wait: "le (p w) (p (delay B ms w))" for ms w
    using assms(1) by (simp add: steady_api_def delay_def)
  fix f C h dl w y
  assume IH: "\<And>C h dl w y. f C h dl w = Some y \<Longrightarrow> C = B \<longrightarrow> le (p w) (p (snd y))"
    and eq: "(if \<not> js_less (date_now C w) dl then
        Some (Inr \<lparr>sr_hash = h, sr_status = NOT_FOUND, sr_ledger = None\<rparr>, w)
      else (case get_tx C h w of
          (Inl e, w1) \<Rightarrow> Some (Inl e, w1)
        | (Inr r, w1) \<Rightarrow>
            if tr_status r = ''SUCCESS'' then
              Some (Inr \<lparr>sr_hash = h, sr_status = SUCCESS, sr_ledger = tr_ledger r\<rparr>, w1)
            else if tr_status r = ''FAILED'' then
              Some (Inr \<lparr>sr_hash = h, sr_status = FAILED, sr_ledger = tr_ledger r\<rparr>, w1)
            else f C h dl (delay C POLL_INTERVAL_MS w1))) = Some y"
  obtain x w1 where g: "get_tx B h w = (x, w1)"
    by fastforce
  show "C = B \<longrightarrow> le (p w) (p (snd y))"
  proof
    assume C: "C = B"
    have "le (p w) (p (delay B POLL_INTERVAL_MS w1))"
      using trans [OF step [OF g] wait] .
    then show "le (p w) (p (snd y))"
      using eq IH [of B h dl "delay B POLL_INTERVAL_MS w1" y] step [OF g] C
      by (cases x) (auto simp: g refl split: if_splits intro: trans)
  qed
qed

lemma submit_steady:
  assumes "steady_api le p B" and "\<And>tx w. le (p w) (p (snd (send_tx B tx w)))"
  shows "pkeeps p (submitTransaction B tx t)"
proof -
  have "le (p w) (p w')" if run: "submitTransaction B tx t w = Some (r, w')" for w r w'
  proof -
    obtain x w1 where s: "send_tx B tx w = (x, w1)"
      by fastforce
    have "le (p w) (p w1)"
      using assms(2) [of w tx] s by simp
    then show ?thesis
      using run s poll_loop_steady [OF assms(1)]
      by (cases x) (fastforce simp: submitTransaction_def poll_def split: if_splits intro: trans)+
  qed
  then show ?thesis
    by (simp add: pkeeps_def)
qed

lemma handle_steady:
  assumes "steady_api le p B" and "\<And>tx w. le (p w) (p (snd (send_tx B tx w)))"
  shows "pkeeps p (handle B cfg lg ex c)"
proof (rule handle_keeps [OF steady_mute [OF assms(1)]])
  show "pkeeps p (execute B cfg lg ex c a)" for a
    unfolding execute_def
    using prepare_steady [OF assms(1)] submit_steady [OF assms] log_mute [OF steady_mute [OF assms(1)]]
    by (auto intro!: pkeeps_bind pkeeps_run keeps_bind keeps_ret)
qed

lemmas prepare_keeps = prepare_steady [OF calm_steady]
lemmas poll_loop_keeps = poll_loop_steady [OF calm_steady]
lemmas live_handle_keeps = handle_steady [OF calm_steady]

end

section \<open>The loop ends when it is told to\<close>

lemma log_outer_ok:
  assumes "no_bigints (log_bindings lg)" and "no_bigints meta"
  shows "\<exists>w'. log_outer B lg level msg meta ((w, s), running) = (Inr (), ((w', s), running))"
  by (rule log_msg_ok [OF assms, where B = B and level = level and msg = msg and w = w])
     (auto simp: log_outer_def on_world_def)

lemma stops_returns:
  assumes "no_bigints (log_bindings lg)"
  shows "\<exists>w'. afor sigs (stop B lg) ((w, s), running)
    = (Inr (), ((w', s), running \<and> sigs = []))"
proof (induction sigs arbitrary: w running)
  case (Cons sig sigs)
  obtain w1 where "stop B lg sig ((w, s), running) = (Inr (), ((w1, s), False))"
    using log_outer_ok [OF assms, of "[(''signal'', JStr sig)]" B Info
        "''shutdown signal received''" w s False]
    by (cases running) (auto simp: stop_def no_bigints_def)
  then show ?case
    using Cons [of w1 False] by (simp add: abind_run)
qed (simp add: aret_def)

lemma deliver_result:
  assumes "no_bigints (log_bindings lg)"
  shows "\<exists>w'. deliver B lg ((w, s), running)
    = (Inr (), ((w', s), running \<and> fst (take_signals B w) = []))"
  using stops_returns [OF assms, of "fst (take_signals B w)" B "snd (take_signals B w)" s running]
  by (simp add: deliver_def split_beta)

lemma returns_handle_candidates:
  assumes "\<And>c. returns (handle B cfg lg ex c)"
  shows "returns (handle_candidates B cfg lg ex cs)"
proof (induction cs)
  case (Cons c cs)
  have "returns (pbind (pon_world (pon_world (handle B cfg lg ex c))) (\<lambda>_.
      pbind (prun (deliver B lg)) (\<lambda>_. handle_candidates B cfg lg ex cs)))"
    by (intro returns_bind returns_on_world returns_run assms Cons)
  then show ?case
    by (auto simp: returns_def)
qed (simp add: returns_run)

lemma returns_tick:
  assumes "\<And>c. returns (handle B cfg lg ex c)"
  shows "returns (tick B cfg lg ex)"
  unfolding tick_def
  using returns_handle_candidates [OF assms] by (auto intro!: returns_bind returns_run)

lemma returns_dry_handle:
  assumes "cfg_dryRun cfg"
  shows "returns (handle B cfg lg ex c)"
proof -
  have "returns (\<lambda>w. Some (ev w, w))" for ev
    by (simp add: returns_def)
  moreover have "returns (execute B cfg lg ex c a)" for a
    using assms by (simp add: execute_def returns_run)
  ultimately show ?thesis
    unfolding handle_def by (auto intro!: returns_bind returns_run)
qed

text \<open>A cycle catches what the tick throws, and ends with the signals that came in.\<close>

lemma cycle_after_tick:
  assumes "no_bigints (log_bindings lg)" and "mute_api (=) q B"
    and t: "tick B cfg lg ex st = Some (r, ((w1, s1), r1))"
  obtains w2 where "cycle B cfg lg ex st = Some (deliver B lg ((w2, s1), r1))" "q w2 = q w1"
proof (cases r)
  case (Inl e)
  obtain w2 where l: "log_outer B lg Error ''poll cycle failed'' [(''error'', JStr (error_message e))]
      ((w1, s1), r1) = (Inr (), ((w2, s1), r1))"
    using log_outer_ok [OF assms(1), of "[(''error'', JStr (error_message e))]" B Error
        "''poll cycle failed''" w1 s1 r1]
    by (auto simp: no_bigints_def)
  have "cycle B cfg lg ex st = Some (deliver B lg ((w2, s1), r1))"
    using t l Inl by (simp add: cycle_def pbind_def pcatch_def prun_def)
  with staysD [OF stays.log_outer_mute [OF assms(2)] l] show thesis
    using that by simp
next
  case (Inr u)
  then show thesis
    using that [of w1] t by (simp add: cycle_def pbind_def pcatch_def prun_def)
qed

section \<open>A signal is not lost\<close>

text \<open>What a call takes: the log and the calls before the polling loop at most \<open>D\<close> milliseconds each.\<close>

definition calls_within ::
  "nat \<Rightarrow> ('w \<Rightarrow> nat) \<Rightarrow> ('sv, 'op, 'acct, 'tx, 'au, 'rest, 'w, 'x) bot_api_scheme \<Rightarrow> bool" where
  "calls_within D clock B \<longleftrightarrow>
     (\<forall>line w. clock (sink B line w) \<le> clock w + D) \<and>
     (\<forall>k w. clock (snd (get_account B k w)) \<le> clock w + D) \<and>
     (\<forall>tx w. clock (snd (simulate_tx B tx w)) \<le> clock w + D) \<and>
     (\<forall>tx w. clock (snd (send_tx B tx w)) \<le> clock w + D)"

text \<open>One signal, sent by the time \<open>T\<close>: unless it has been \<open>taken\<close>, a look from \<open>T\<close> on finds it.
  Only a look can take it, and a look takes no time.  Nothing is said of later signals.\<close>

definition signal_by ::
  "nat \<Rightarrow> ('w \<Rightarrow> nat) \<Rightarrow> ('w \<Rightarrow> bool)
     \<Rightarrow> ('sv, 'op, 'acct, 'tx, 'au, 'rest, 'w, 'x) solver_api_scheme \<Rightarrow> bool" where
  "signal_by T clock taken B \<longleftrightarrow>
     steady_api (=) taken B \<and> (\<forall>tx w. taken (snd (send_tx B tx w)) = taken w) \<and>
     (\<forall>w. clock (snd (take_signals B w)) = clock w) \<and>
     (\<forall>w. fst (take_signals B w) = [] \<longrightarrow> taken (snd (take_signals B w)) = taken w) \<and>
     (\<forall>w. T \<le> clock w \<longrightarrow> \<not> taken w \<longrightarrow> fst (take_signals B w) \<noteq> [])"

lemma log_in_time:
  assumes "calls_within D clock B" and "log_msg B lg level msg meta w = (r, w')"
  shows "clock w' \<le> clock w + D"
  using assms
  by (auto simp: log_msg_def emit_def calls_within_def result_simps split: sum.splits if_splits option.splits)

lemma prepare_in_time:
  assumes "calls_within D clock B" and "prepareExecuteIntent B cl p w = (r, w')"
  shows "clock w' \<le> clock w + 2 * D"
proof -
  obtain x w1 where a: "get_account B (kp_publicKey (ep_solver p)) w = (x, w1)"
    by (rule prod.exhaust)
  have w1: "clock w1 \<le> clock w + D"
    using assms(1) a by (metis calls_within_def snd_conv)
  have sim: "clock (snd (simulate_tx B tx w1)) \<le> clock w1 + D" for tx
    using assms(1) by (simp add: calls_within_def)
  have "w' = w1 \<or> (\<exists>tx y. simulate_tx B tx w1 = (y, w'))"
    using assms(2) a
    by (auto simp: prepareExecuteIntent_def abind_def alift_def aret_def split: sum.splits prod.splits simulation.splits)
  then have "clock w' \<le> clock w1 + D"
    using sim by (auto, metis snd_conv)
  then show ?thesis
    using w1 by linarith
qed

text \<open>So handling a candidate returns: the polling starts early enough for its deadline.\<close>

lemma handle_in_time:
  assumes "tells_time clock B" and "calls_within D clock B" and "cfg_txTimeoutMs cfg = Fin (of_nat m)"
    and "clock w + 5 * D + m \<le> MAX_TIME"
  shows "handle B cfg lg ex c w \<noteq> None"
proof
  assume none: "handle B cfg lg ex c w = None"
  note steps = pbind_def prun_def alift_def aret_def
  obtain e w1 where e: "log_msg B lg Info ''evaluated intent'' e w = (Inr (), w1)"
    and x: "\<exists>a. execute B cfg lg ex c a w1 = None"
    using none by (auto simp: handle_def steps split: sum.splits option.splits if_splits prod.splits)
  obtain a where x: "execute B cfg lg ex c a w1 = None"
    using x by blast
  obtain p tx w2 w3 lm where p: "prepareExecuteIntent B (ex_client ex) p w1 = (Inr tx, w2)"
    and l: "log_msg B lg Info ''submitting fill'' lm w2 = (Inr (), w3)"
    and s: "submitTransaction B tx (Some (cfg_txTimeoutMs cfg)) w3 = None"
    using x by (auto simp: execute_def steps split: sum.splits option.splits if_splits prod.splits)
  have "clock (snd (send_tx B tx w3)) \<le> clock w3 + D"
    using assms(2) by (simp add: calls_within_def)
  then have "clock (snd (send_tx B tx w3)) + m \<le> MAX_TIME"
    using log_in_time [OF assms(2) e] prepare_in_time [OF assms(2) p] log_in_time [OF assms(2) l] assms(4)
    by linarith
  then show False
    using timed_submit_returns [OF assms(1)] s assms(3) by metis
qed

text \<open>Until the signal is taken the loop is awake; once it is due, the next look stops the loop.\<close>

definition untaken :: "('w \<Rightarrow> bool) \<Rightarrow> 'w solver_world \<Rightarrow> bool" where
  "untaken taken = (\<lambda>((w, s), running). running \<longrightarrow> \<not> taken w)"

definition not_due :: "nat \<Rightarrow> ('w \<Rightarrow> nat) \<Rightarrow> ('w \<Rightarrow> bool) \<Rightarrow> 'w solver_world \<Rightarrow> bool" where
  "not_due T clock taken = (\<lambda>((w, s), running). running \<longrightarrow> \<not> taken w \<and> clock w < T)"

lemma not_due_untaken: "not_due T clock taken st \<Longrightarrow> untaken taken st"
  by (auto simp: not_due_def untaken_def)

lemma deliver_looks:
  assumes "no_bigints (log_bindings lg)" and "signal_by T clock taken B" and "untaken taken st"
  obtains st' where "deliver B lg st = (Inr (), st')" "not_due T clock taken st'"
    "snd st' \<longrightarrow> snd st \<and> clock (fst (fst st')) = clock (fst (fst st))"
proof -
  obtain w s running where st: "st = ((w, s), running)"
    by (metis prod.exhaust)
  show thesis
  proof (cases "running \<and> fst (take_signals B w) = []")
    case True
    then have d: "deliver B lg st = (Inr (), ((snd (take_signals B w), s), running))"
      by (auto simp: st deliver_def aret_def split_beta)
    have "\<not> taken w"
      using assms(3) True by (simp add: st untaken_def)
    then have "\<not> taken (snd (take_signals B w))" "clock (snd (take_signals B w)) = clock w" "clock w < T"
      using assms(2) True unfolding signal_by_def by (blast, blast, meson not_le)
    with d show thesis
      by (intro that [of "((snd (take_signals B w), s), running)"]) (simp_all add: st not_due_def True)
  next
    case False
    then obtain w' where "deliver B lg st = (Inr (), ((w', s), False))"
      using deliver_result [OF assms(1), of B w s running] by (auto simp: st)
    then show thesis
      by (intro that [of "((w', s), False)"]) (simp_all add: not_due_def)
  qed
qed

lemma untaken_outer:
  assumes "stays.keeps taken m" and "untaken taken st" and "on_world (on_world m) st = (r, st')"
  shows "untaken taken st'"
  using assms staysD [OF assms(1)]
  by (fastforce simp: untaken_def on_world_def split: prod.splits)

lemma handle_candidates_ends:
  assumes "no_bigints (log_bindings lg)" and "signal_by T clock taken B"
    and ends: "\<And>c w. clock w < T \<Longrightarrow> handle B cfg lg ex c w \<noteq> None"
    and "not_due T clock taken st"
  shows "\<exists>r st'. handle_candidates B cfg lg ex cs st = Some (r, st') \<and> untaken taken st'"
  using assms(4)
proof (induction cs arbitrary: st)
  case Nil
  then show ?case
    by (simp add: prun_def aret_def not_due_untaken)
next
  case (Cons c cs)
  obtain w s running where st: "st = ((w, s), running)"
    by (metis prod.exhaust)
  show ?case
  proof (cases running)
    case False
    then show ?thesis
      by (simp add: st untaken_def)
  next
    case True
    then have due: "\<not> taken w" "clock w < T"
      using Cons.prems by (simp_all add: st not_due_def)
    then obtain r w1 where h: "handle B cfg lg ex c w = Some (r, w1)"
      using ends by fastforce
    have "stays.pkeeps taken (handle B cfg lg ex c)"
      using assms(2) by (intro stays.handle_steady) (simp_all add: signal_by_def)
    from stays_pD [OF this h] have w1: "untaken taken ((w1, s), running)"
      using due by (simp add: untaken_def)
    note run = st True h pbind_def prun_def pon_world_def
    show ?thesis
    proof (cases r)
      case (Inl e)
      then show ?thesis
        using w1 by (simp add: run)
    next
      case (Inr u)
      obtain st2 where d: "deliver B lg ((w1, s), running) = (Inr (), st2)" "not_due T clock taken st2"
        by (rule deliver_looks [OF assms(1,2) w1])
      then show ?thesis
        using Cons.IH [OF d(2)] Inr True by (simp add: run)
    qed
  qed
qed

lemma tick_ends:
  assumes "no_bigints (log_bindings lg)" and "signal_by T clock taken B"
    and ends: "\<And>c w. clock w < T \<Longrightarrow> handle B cfg lg ex c w \<noteq> None"
    and "untaken taken st"
  shows "\<exists>r st'. tick B cfg lg ex st = Some (r, st') \<and> untaken taken st'"
proof -
  have mute: "mute_api (=) taken B"
    using assms(2) by (simp add: signal_by_def steady_mute)
  obtain w s running where st: "st = ((w, s), running)"
    by (metis prod.exhaust)
  obtain x w1 s1 where p: "watcher_poll B cfg lg (w, s) = (x, (w1, s1))"
    by (metis prod.exhaust)
  have w1: "untaken taken ((w1, s1), running)"
    using staysD [OF stays.watcher_poll_mute [OF mute] p] assms(4) by (simp add: st untaken_def)
  show ?thesis
  proof (cases x)
    case (Inl e)
    then show ?thesis
      using p w1 by (simp add: st tick_def pbind_def prun_def on_world_def)
  next
    case (Inr cs)
    obtain st2 where d: "deliver B lg ((w1, s1), running) = (Inr (), st2)" "not_due T clock taken st2"
      by (rule deliver_looks [OF assms(1,2) w1])
    have run: "tick B cfg lg ex st = (if cs = [] then prun (log_outer B lg Debug ''no fresh intents'' [])
        else handle_candidates B cfg lg ex cs) st2"
      using p d(1) Inr by (simp add: st tick_def pbind_def prun_def on_world_def)
    have "untaken taken (snd (log_outer B lg Debug ''no fresh intents'' [] st2))"
      using untaken_outer [OF stays.log_mute [OF mute] not_due_untaken [OF d(2)]]
      by (simp add: log_outer_def) (metis prod.collapse)
    then show ?thesis
      using handle_candidates_ends [OF assms(1,2) ends d(2)] by (auto simp: run prun_def) (metis prod.collapse)
  qed
qed

lemma cycle_ends:
  assumes "no_bigints (log_bindings lg)" and "signal_by T clock taken B"
    and ends: "\<And>c w. clock w < T \<Longrightarrow> handle B cfg lg ex c w \<noteq> None"
    and "untaken taken st"
  shows "\<exists>st'. cycle B cfg lg ex st = Some (Inr (), st') \<and> not_due T clock taken st'"
proof -
  have mute: "mute_api (=) taken B"
    using assms(2) by (simp add: signal_by_def steady_mute)
  obtain r w1 s1 r1 where t: "tick B cfg lg ex st = Some (r, ((w1, s1), r1))" "untaken taken ((w1, s1), r1)"
    using tick_ends [OF assms] by (metis prod.exhaust)
  obtain w2 where c: "cycle B cfg lg ex st = Some (deliver B lg ((w2, s1), r1))" "taken w2 = taken w1"
    by (rule cycle_after_tick [OF assms(1) mute t(1)])
  then have "untaken taken ((w2, s1), r1)"
    using t(2) by (simp add: untaken_def)
  from deliver_looks [OF assms(1,2) this] c(1) show ?thesis
    by metis
qed

text \<open>The loop returns: until the signal is due every pause moves the clock towards it, and none of
  the looks, not even the one after a pause, loses it.\<close>

lemma main_loop_returns:
  fixes clock :: "'w \<Rightarrow> nat"
  assumes "no_bigints (log_bindings lg)" and "signal_by T clock taken B"
    and ends: "\<And>c w. clock w < T \<Longrightarrow> handle B cfg lg ex c w \<noteq> None"
    and keeps: "grows.pkeeps (\<lambda>st. clock (fst (fst st))) (cycle B cfg lg ex)"
    and pause: "\<And>w. clock w < clock (wait_ms B (cfg_pollIntervalMs cfg) w)"
    and "untaken taken st"
  shows "\<exists>y. main_loop B cfg lg ex st = Some y"
  using assms(6)
proof (induction "T - clock (fst (fst st))" arbitrary: st rule: less_induct)
  case less
  show ?case
  proof (cases "snd st")
    case False
    then show ?thesis
      by (subst main_loop.simps) simp
  next
    case True
    obtain w1 s1 r1 where c: "cycle B cfg lg ex st = Some (Inr (), ((w1, s1), r1))"
      and st1: "not_due T clock taken ((w1, s1), r1)"
      using cycle_ends [OF assms(1,2) ends less.prems] by (metis prod.exhaust)
    show ?thesis
    proof (cases r1)
      case False
      then have "main_loop B cfg lg ex st = Some (Inr (), ((w1, s1), r1))"
        using True c by (subst main_loop.simps) simp
      then show ?thesis ..
    next
      case True
      let ?w2 = "wait_ms B (cfg_pollIntervalMs cfg) w1"
      have "untaken taken ((?w2, s1), r1)"
        using st1 assms(2) by (simp add: not_due_def untaken_def signal_by_def steady_api_def)
      then obtain st3 where d: "deliver B lg ((?w2, s1), r1) = (Inr (), st3)" "not_due T clock taken st3"
        "snd st3 \<longrightarrow> clock (fst (fst st3)) = clock ?w2"
        using deliver_looks [OF assms(1,2)] by (metis fst_conv)
      have run: "main_loop B cfg lg ex st = main_loop B cfg lg ex st3"
        using \<open>snd st\<close> c True d(1) by (subst main_loop.simps) (simp add: pause_def sleep_def abind_def)
      show ?thesis
      proof (cases "snd st3")
        case False
        then show ?thesis
          unfolding run by (subst main_loop.simps) simp
      next
        case True
        have "clock (fst (fst st)) \<le> clock w1"
          using grows.pkeepsD [OF keeps c] by simp
        also have "clock w1 < clock ?w2"
          by (rule pause)
        also have "clock ?w2 = clock (fst (fst st3))"
          using d(3) True by simp
        finally have "clock (fst (fst st)) < clock (fst (fst st3))" .
        moreover have "clock (fst (fst st3)) < T"
          using d(2) True by (auto simp: not_due_def split: prod.splits)
        ultimately show ?thesis
          unfolding run using not_due_untaken [OF d(2)] by (intro less.hyps) linarith
      qed
    qed
  qed
qed

section \<open>A reference run\<close>

text \<open>The reference bot with a send that moves the clock, so that submissions are visible, and
  an interrupt signal from the time 5 on.\<close>

definition reference_solver ::
  "(string, string, string, string, string, unit, clock_world) solver_api" where
  "reference_solver = bot_api.extend
     (reference_bot\<lparr>send_tx := (\<lambda>tx (t, u).
        (Inr \<lparr>se_status = ''PENDING'', se_hash = tx, se_error_json = []\<rparr>, (Suc t, u)))\<rparr>)
     \<lparr>take_signals = (\<lambda>(t, u). (if 5 \<le> t then [''SIGINT''] else [], (t, u)))\<rparr>"

lemmas reference_solver_defs = reference_solver_def reference_bot_def clock_api_def bot_api.defs
  chain_api.defs stellar_sdk.defs

lemma reference_solver_quiet: "quiet_api (=) fst reference_solver" "quiet_api (\<le>) fst reference_solver"
  by (auto simp: quiet_api_def reference_solver_defs aret_def)

lemma reference_solver_decodes: "decode_entry reference_solver sample_entry = decode_entry reference_bot sample_entry"
proof -
  have "u64ScVal reference_solver = u64ScVal reference_bot"
    by (simp add: fun_eq_iff u64ScVal_def reference_solver_defs)
  then have "hashIntent reference_solver i = hashIntent reference_bot i" for i
    by (simp add: hashIntent_def intentDigest_def intentToScVal_def byField_def)
       (simp add: reference_solver_defs scval_defs)
  then show ?thesis
    unfolding decode_entry_def by (simp add: reference_solver_defs)
qed

lemma reference_bot_encodes: "\<exists>s v a. address_scval reference_solver x = Inr s \<and>
    intentToScVal reference_solver sample_intent = Inr v \<and> i128_scval reference_solver n = Inr a"
  by (simp add: intentToScVal_def byField_def scval_defs reference_solver_defs reference_sdk_def
      sample_intent_def)

definition sample_executor :: executor where
  "sample_executor = \<lparr>ex_keypair = \<lparr>kp_publicKey = ''G'', kp_secret = ''S''\<rparr>, ex_client = sample_client\<rparr>"

definition sample_candidate :: candidate_intent where
  "sample_candidate = \<lparr>ca_hash = ''h'', ca_source = Feed, ca_intent = sample_intent,
     ca_traderAuthEntry = None\<rparr>"

definition dry_config :: solver_config where
  "dry_config = feed_config\<lparr>cfg_dryRun := True\<rparr>"

definition priced_config :: solver_config where
  "priced_config = feed_config\<lparr>cfg_tokenPrices :=
     [(''A'', round_double (of_int 1010000 / 10 ^ 6)), (''B'', round_double (of_int 1000000 / 10 ^ 6))]\<rparr>"

section \<open>Properties\<close>

text \<open>A dry run never submits: a cycle always returns, and no observation that only sending
  can change is changed by it.\<close>

lemma dry_run_never_submits:
  assumes "cfg_dryRun cfg" and "no_bigints (log_bindings lg)" and "quiet_api (=) sent B"
  shows "\<exists>st'. cycle B cfg lg ex st = Some (Inr (), st') \<and> sent (fst (fst st')) = sent (fst (fst st))"
proof -
  have "returns (tick B cfg lg ex)"
    by (rule returns_tick, rule returns_dry_handle, rule assms)
  then obtain r w1 s1 r1 where t: "tick B cfg lg ex st = Some (r, ((w1, s1), r1))"
    unfolding returns_def by (metis not_None_eq prod.exhaust)
  obtain w2 where "cycle B cfg lg ex st = Some (deliver B lg ((w2, s1), r1))"
    by (rule cycle_after_tick [OF assms(2) quiet_mute [OF assms(3)] t])
  then obtain st' where c: "cycle B cfg lg ex st = Some (Inr (), st')"
    using deliver_result [OF assms(2), of B w2 s1 r1] by auto
  have "stays.pkeeps (\<lambda>st. sent (fst (fst st))) (cycle B cfg lg ex)"
    by (intro stays.cycle_keeps stays.dry_handle_keeps assms)
  from stays_pD [OF this c] c show ?thesis
    by simp
qed

lemma dry_run_never_submits_witness:
  "\<exists>st'. cycle reference_solver dry_config sample_logger sample_executor
      (((0, 5), \<lparr>w_seen = {}, w_cursor = Fin 0\<rparr>), True) = Some (Inr (), st') \<and> fst (fst (fst st')) = 0"
  using dry_run_never_submits [of dry_config sample_logger fst reference_solver sample_executor
      "(((0, 5), \<lparr>w_seen = {}, w_cursor = Fin 0\<rparr>), True)"] sample_logger_ok reference_solver_quiet
  by (simp add: dry_config_def)

text \<open>What a submission implies.\<close>

lemma submission_is_profitable:
  assumes "intent_valid A (ca_intent c)" and "quiet_api (=) sent B"
    and "handle B cfg lg ex c w = Some (r, w')" and "sent w' \<noteq> sent w"
  shows "\<not> cfg_dryRun cfg \<and>
    (\<exists>e. evaluateFromPrices (date_now B w) (ca_intent c) (minBuyAmount (ca_intent c))
        (cfg_tokenPrices cfg) (cfg_txCost cfg) (cfg_minProfit cfg) None = Inr e \<and>
      er_profitable e \<and> cfg_minProfit cfg \<le> er_netProfit e \<and>
      fill_within_terms (minBuyAmount (ca_intent c)) (num_int (maxSlippageBps (ca_intent c)))
        (num_int (solverFeeBps (ca_intent c))) (minBuyAmount (ca_intent c)))"
proof -
  have live: "\<not> cfg_dryRun cfg"
    using stays_pD [OF stays.dry_handle_keeps [OF assms(2)] assms(3)] assms(4) by blast
  let ?eval = "evaluateFromPrices (date_now B w) (ca_intent c) (minBuyAmount (ca_intent c))
        (cfg_tokenPrices cfg) (cfg_txCost cfg) (cfg_minProfit cfg) None"
  have log: "log_msg B lg l m meta v = (x, v') \<Longrightarrow> sent v' = sent v" for l m meta v x v'
    by (rule staysD [OF stays.log_keeps [OF assms(2)]])
  obtain e where e: "?eval = Inr e" "er_profitable e"
  proof (cases ?eval)
    case (Inl err)
    then show thesis
      using assms(3,4) by (simp add: handle_def pbind_def)
  next
    case (Inr e)
    show thesis
    proof (cases "er_profitable e")
      case False
      then show thesis
        using assms(3,4) Inr log
        by (fastforce simp: handle_def pbind_eq_Some prun_def aret_def)
    qed (use that Inr in blast)
  qed
  show ?thesis
    using live e profitable_terms [OF assms(1) e] by blast
qed

text \<open>Only profitable fills are submitted: if handling a candidate changes anything but the log,
  then the run is not dry and the fill of the minimum amount was found profitable at a
  positive price of both tokens, within the router's terms.\<close>

lemma only_profitable_fills_submitted:
  assumes "intent_valid A (ca_intent c)" and "quiet_api (=) sent B"
    and "handle B cfg lg ex c w = Some (r, w')" and "sent w' \<noteq> sent w"
  shows "\<not> cfg_dryRun cfg \<and>
    (\<exists>e. evaluateFromPrices (date_now B w) (ca_intent c) (minBuyAmount (ca_intent c))
        (cfg_tokenPrices cfg) (cfg_txCost cfg) (cfg_minProfit cfg) None = Inr e \<and>
      er_profitable e \<and> cfg_minProfit cfg \<le> er_netProfit e \<and>
      fill_within_terms (minBuyAmount (ca_intent c)) (num_int (maxSlippageBps (ca_intent c)))
        (num_int (solverFeeBps (ca_intent c))) (minBuyAmount (ca_intent c)))"
  using assms by (rule submission_is_profitable)

lemma sample_evaluation:
  obtains e where "evaluateFromPrices (Fin 1000000) sample_intent 990
      (cfg_tokenPrices priced_config) 0 0 None = Inr e" "er_profitable e" "er_fillAmount e = 990"
proof (rule sample_accepted)
  fix c assume c: "checkFillAgainstIntent sample_intent 990 (Fin 1000) = Inr c" "fc_ok c"
  have "nowSeconds (Fin 1000000) = Fin 1000"
    using round_double_of_int [of 1000] by (simp add: nowSeconds_def)
  moreover have "0 \<le> fc_solverFee c"
    using check_of_valid [OF sample_intent_valid, of 990 "Fin 1000"] c
    by (force simp: bps_share_def sample_intent_def num_int_def)
  moreover have "marketValueInQuote (sellAmount sample_intent) (round_double (of_int 1010000 / 10 ^ 6))
      (round_double (of_int 1000000 / 10 ^ 6)) = Inr 1010"
    using market_value_prices [of "sellAmount sample_intent" 1010000 1000000]
    by (simp add: sample_intent_def)
  ultimately have "\<exists>e. evaluateFromPrices (Fin 1000000) sample_intent 990
      (cfg_tokenPrices priced_config) 0 0 None = Inr e \<and> er_profitable e \<and> er_fillAmount e = 990"
    using c by (simp add: priced_config_def evaluateFromPrices_def evaluateIntent_def
        now_or_clock_def Let_def sample_intent_def del: of_int_numeral)
  with that show thesis by blast
qed

text \<open>A bot with the reference builders, at the sample's time, whatever its world is: handling a
  candidate with the sample intent submits its fill.\<close>

lemma silent_log:
  assumes "\<And>line w. sink B line w = w" and "no_bigints meta"
  shows "log_msg B sample_logger level msg meta w = (Inr (), w)"
proof -
  have "fold (sink B) lines w = w" for lines
    by (induction lines) (simp_all add: assms)
  then show ?thesis
    using sample_logger_ok assms(2) by (simp add: log_msg_def emit_ok)
qed

lemma sample_handled:
  fixes B :: "(string, string, string, string, string, unit, 'w, 'x) solver_api_scheme"
  assumes api: "address_scval B = Inr" "get_account B = aret" "i128_scval B = (\<lambda>n. Inr (bigint_to_string n))"
      "build_tx B = (\<lambda>a f p op t. Inr (a @ op))"
      "simulate_tx B = (\<lambda>tx. aret (SimulationSuccess (Some \<lparr>sim_retval = Some tx, sim_auth = []\<rparr>) ()))"
      "assemble_tx B = (\<lambda>tx sim. Inr (tx @ concat (case sim_of sim of None \<Rightarrow> [] | Some r \<Rightarrow> sim_auth r)))"
      "auth_from_xdr B = Inr" "intentToScVal B sample_intent = Inr v" "date_now B w = Fin 1000000"
    and sink: "\<And>line w. sink B line w = w"
    and submit: "\<And>tx. \<exists>res. submitTransaction B tx (Some (Fin 60000)) w = Some (Inr res, w' tx)"
    and c: "ca_intent c = sample_intent"
  shows "\<exists>tx. handle B priced_config sample_logger sample_executor c w = Some (Inr (), w' tx)"
proof (rule sample_evaluation)
  fix e assume e: "evaluateFromPrices (Fin 1000000) sample_intent 990
      (cfg_tokenPrices priced_config) 0 0 None = Inr e" "er_profitable e" "er_fillAmount e = 990"
  obtain auth where auth: "decodeAuthEntries B (ca_traderAuthEntry c) = Inr auth"
    by (cases "ca_traderAuthEntry c") (simp_all add: decodeAuthEntries_def api)
  obtain tx where tx: "prepareExecuteIntent B (ex_client sample_executor)
      (fill_params priced_config sample_executor c 990 auth) w = (Inr tx, w)"
    by (simp add: prepareExecuteIntent_def buildExecuteIntentOperation_def buildTransaction_def
        fill_params_def c abind_def aret_def alift_def api withAuth_success)
  obtain res where "submitTransaction B tx (Some (Fin 60000)) w = Some (Inr res, w' tx)"
    using submit by blast
  note sub = this
  have cfg: "cfg_dryRun priced_config = False" "cfg_txCost priced_config = 0"
    "cfg_minProfit priced_config = 0" "cfg_txTimeoutMs priced_config = Fin 60000"
    by (simp_all add: priced_config_def feed_config_def default_config_def)
  have log: "log_msg B sample_logger level msg meta v = (Inr (), v)" if "no_bigints meta" for level msg meta v
    by (rule silent_log [OF sink that])
  have "minBuyAmount sample_intent = 990"
    by (simp add: sample_intent_def)
  then have "handle B priced_config sample_logger sample_executor c w = Some (Inr (), w' tx)"
    by (simp add: handle_def execute_def pbind_def prun_def alift_def aret_def c cfg api auth e tx log
        sub no_bigints_def split: option.split)
  then show ?thesis ..
qed

lemma sample_submit:
  "submitTransaction reference_solver tx (Some (Fin 60000)) (1000000, 0)
     = Some (Inr \<lparr>sr_hash = tx, sr_status = SUCCESS, sr_ledger = Some (Fin 9)\<rparr>, (1000001, 0))"
proof -
  have add: "js_add (Fin 1000001) (Fin 60000) = Fin 1060001"
    using round_double_of_int [of 1060001] by simp
  have "poll_rounds 1 reference_solver tx (Fin 1060001) (1000001, 0)
      = Some (Inr \<lparr>sr_hash = tx, sr_status = SUCCESS, sr_ledger = Some (Fin 9)\<rparr>, (1000001, 0))"
    by (simp add: poll_step_def reference_solver_defs)
  then show ?thesis
    using poll_rounds_loop [of 1 reference_solver tx "Fin 1060001" "(1000001, 0)"]
    by (simp add: submitTransaction_def poll_def reference_solver_defs add [simplified])
qed

lemma sample_submission:
  assumes "ca_intent c = sample_intent"
  shows "handle reference_solver priced_config sample_logger sample_executor c (1000000, 0)
     = Some (Inr (), (1000001, 0))"
proof -
  obtain v where v: "intentToScVal reference_solver sample_intent = Inr v"
    using reference_bot_encodes by blast
  have "\<exists>tx::string. handle reference_solver priced_config sample_logger sample_executor c
      (1000000, 0) = Some (Inr (), (1000001, 0))"
    by (rule sample_handled [where w' = "\<lambda>_. (1000001, 0)", OF _ _ _ _ _ _ _ v])
       (simp_all add: sample_submit assms, simp_all add: reference_solver_defs reference_sdk_def)
  then show ?thesis
    by simp
qed

lemma sample_handle:
  "handle reference_solver priced_config sample_logger sample_executor sample_candidate (1000000, 0)
     = Some (Inr (), (1000001, 0))"
  by (rule sample_submission) (simp add: sample_candidate_def)

lemma only_profitable_fills_submitted_witness:
  "\<exists>e. evaluateFromPrices (Fin 1000000) sample_intent 990 (cfg_tokenPrices priced_config) 0 0 None
      = Inr e \<and> er_profitable e"
proof -
  have "intent_valid (\<lambda>a. a \<noteq> []) (ca_intent sample_candidate)"
    using sample_intent_valid by (simp add: sample_candidate_def)
  from only_profitable_fills_submitted [OF this reference_solver_quiet(1) sample_handle]
  show ?thesis
    by (auto simp: sample_candidate_def priced_config_def feed_config_def default_config_def
        reference_solver_defs sample_intent_def)
qed

text \<open>A signal ends the bot, whatever the polls and the handling throw and whatever the server
  answers to the polling.\<close>

lemma signal_ends_main_loop:
  fixes clock :: "'w \<Rightarrow> nat"
  assumes "no_bigints (log_bindings lg)" and "calm_api (\<le>) clock B"
    and "\<forall>tx w. clock w \<le> clock (snd (send_tx B tx w))"
    and "tells_time clock B" and "calls_within D clock B" and "signal_by T clock taken B"
    and "positive_integer (cfg_pollIntervalMs cfg)"
    and "cfg_txTimeoutMs cfg = Fin (of_nat m)" and "T + 5 * D + m \<le> MAX_TIME"
    and "\<not> taken w"
  shows "\<exists>y. main_loop B cfg lg ex ((w, s), running) = Some y"
proof (rule main_loop_returns [OF assms(1,6)])
  show "handle B cfg lg ex c v \<noteq> None" if "clock v < T" for c v
    using that assms(9) by (intro handle_in_time [OF assms(4,5,8)]) linarith
  show "grows.pkeeps (\<lambda>st. clock (fst (fst st))) (cycle B cfg lg ex)"
    using assms(3) by (intro grows.cycle_keeps grows.live_handle_keeps calm_quiet assms) simp
  obtain n :: int where "cfg_pollIntervalMs cfg = Fin (of_int n)" "0 < n"
    using assms(7) by (auto simp: positive_integer_def)
  then show "clock v < clock (wait_ms B (cfg_pollIntervalMs cfg) v)" for v
    using assms(4) by (simp add: tells_time_def)
qed (use assms(10) in \<open>simp add: untaken_def\<close>)

text \<open>(C38) A failure in the middle of a cycle loses the rest of it: when handling the first fresh
  candidate throws, the cycle ends, and all the candidates of the poll stay marked as seen,
  so that no later poll returns them.\<close>

theorem failure_loses_candidates:
  assumes "watcher_poll B cfg lg (w, s) = (Inr (c # cs), (w1, s1))"
    and "take_signals B w1 = ([], w2)" and "handle B cfg lg ex c w2 = Some (Inl e, w3)"
  shows "tick B cfg lg ex ((w, s), True) = Some (Inl e, ((w3, s1), True)) \<and>
    ca_hash ` set (c # cs) \<subseteq> w_seen s1 \<and>
    ca_hash ` set (c # cs) \<inter> ca_hash ` set (poll_sequence B cfg lg fs (w3, s1)) = {}"
proof -
  obtain ds where "fresh_candidates (w_seen s) ds = (c # cs, w_seen s1)"
    using watcher_poll_result [OF assms(1)] by auto
  then have seen: "ca_hash ` set (c # cs) \<subseteq> w_seen s1"
    using fresh_candidates_spec by blast
  have "tick B cfg lg ex ((w, s), True) = Some (Inl e, ((w3, s1), True))"
    using assms by (simp add: tick_def pbind_def prun_def on_world_def deliver_def aret_def pon_world_def)
  moreover have "ca_hash ` set (poll_sequence B cfg lg fs (w3, s1)) \<inter> w_seen s1 = {}"
    using poll_sequence_fresh [of B cfg lg fs "(w3, s1)"] by (simp add: seen_of_def)
  ultimately show ?thesis
    using seen by blast
qed

definition tiny_price_config :: solver_config where
  "tiny_price_config = feed_config\<lparr>cfg_tokenPrices := [(''A'', Fin 1), (''B'', Fin (1 / 2 ^ 22))]\<rparr>"

theorem failure_loses_candidates_witness:
  "\<exists>c s. watcher_poll reference_solver tiny_price_config sample_logger
      ((0, 0), \<lparr>w_seen = {}, w_cursor = Fin 0\<rparr>) = (Inr [c], ((0, 0), s)) \<and>
    tick reference_solver tiny_price_config sample_logger sample_executor
      (((0, 0), \<lparr>w_seen = {}, w_cursor = Fin 0\<rparr>), True)
    = Some (Inl (RangeError ''Division by zero''), (((0, 0), s), True)) \<and> ca_hash c \<in> w_seen s"
proof -
  obtain c s where p: "watcher_poll reference_solver tiny_price_config sample_logger
      ((0, 0), \<lparr>w_seen = {}, w_cursor = Fin 0\<rparr>) = (Inr [c], ((0, 0), s))"
    and c: "ca_intent c = sample_intent"
    by (rule sample_poll [where B = reference_solver and cfg = tiny_price_config and w = "(0, 0)"])
       (use reference_solver_decodes in \<open>auto simp: reference_solver_defs tiny_price_config_def feed_config_def\<close>)
  have "evaluateFromPrices d sample_intent 990 (cfg_tokenPrices tiny_price_config) 0 0 None
      = Inl (RangeError ''Division by zero'')" for d
    using tiny_price_valuation [of "sellAmount sample_intent"]
    by (simp add: evaluateFromPrices_def tiny_price_config_def sample_intent_def)
  then have "handle reference_solver tiny_price_config sample_logger sample_executor c (0, 0)
      = Some (Inl (RangeError ''Division by zero''), (0, 0))"
    using c by (simp add: handle_def pbind_def tiny_price_config_def feed_config_def
        default_config_def sample_intent_def)
  moreover have "take_signals reference_solver (0, 0) = ([], (0, 0))"
    by (simp add: reference_solver_defs)
  ultimately show ?thesis
    using failure_loses_candidates [OF p, of "(0, 0)"] p by fastforce
qed

end
