(* ===== verification/Submissions.thy ===== *)
theory Submissions
  imports Solver
begin

section \<open>What the bot ever submits\<close>

text \<open>
  The bot as a whole, over runs of its main loop: every transaction it sends is the prepared
  fill of a valid, profitable candidate, and no two belong to the same intent hash.  The
  server's \<open>send_tx\<close> is observed through the list \<open>sub\<close> of the transactions it was given,
  which nothing else changes; \<open>recording\<close> adds such a list to any bot.
\<close>

definition records_sends ::
  "('w \<Rightarrow> 'tx list) \<Rightarrow> ('sv, 'op, 'acct, 'tx, 'au, 'rest, 'w, 'x) solver_api_scheme \<Rightarrow> bool" where
  "records_sends sub B \<longleftrightarrow> calm_api (=) sub B \<and>
     (\<forall>tx w. sub (snd (send_tx B tx w)) = sub w @ [tx])"

lemma records_calm: "records_sends sub B \<Longrightarrow> calm_api (=) sub B"
  by (simp add: records_sends_def)

lemma records_quiet: "records_sends sub B \<Longrightarrow> quiet_api (=) sub B"
  by (rule calm_quiet [OF records_calm])

subsection \<open>One fill\<close>

lemma prepare_sends_nothing: "records_sends sub B \<Longrightarrow> stays.keeps sub (prepareExecuteIntent B cl p)"
  by (rule stays.prepare_keeps [OF records_calm])

lemma poll_loop_sends_nothing:
  "records_sends sub B \<Longrightarrow> poll_loop B h dl w = Some y \<Longrightarrow> sub (snd y) = sub w"
  using stays.poll_loop_keeps [OF records_calm] by metis

lemma submit_sends_one:
  assumes "records_sends sub B" and "submitTransaction B tx t w = Some (r, w')"
  shows "sub w' = sub w @ [tx]"
proof -
  obtain x w1 where s: "send_tx B tx w = (x, w1)"
    by fastforce
  have "sub w1 = sub w @ [tx]"
    using assms(1) s by (metis records_sends_def snd_conv)
  then show ?thesis
    using assms(2) s poll_loop_sends_nothing [OF assms(1)]
    by (cases x) (fastforce simp: submitTransaction_def poll_def split: if_splits)+
qed

text \<open>The fill of a candidate: profitable when it was judged, and prepared as the client does.\<close>

definition fill_of ::
  "('sv, 'op, 'acct, 'tx, 'au, 'rest, 'w, 'x) solver_api_scheme \<Rightarrow> solver_config \<Rightarrow> executor
     \<Rightarrow> 'tx \<Rightarrow> candidate_intent \<Rightarrow> bool" where
  "fill_of B cfg ex tx c \<longleftrightarrow>
     \<not> cfg_dryRun cfg \<and>
     intent_valid (address_ok B) (ca_intent c) \<and> hashIntent B (ca_intent c) = Inr (ca_hash c) \<and>
     (\<exists>w e. evaluateFromPrices (date_now B w) (ca_intent c) (minBuyAmount (ca_intent c))
        (cfg_tokenPrices cfg) (cfg_txCost cfg) (cfg_minProfit cfg) None = Inr e \<and> er_profitable e) \<and>
     (\<exists>auth w w'. decodeAuthEntries B (ca_traderAuthEntry c) = Inr auth \<and>
        prepareExecuteIntent B (ex_client ex)
          (fill_params cfg ex c (minBuyAmount (ca_intent c)) auth) w = (Inr tx, w'))"

lemma execute_sends:
  assumes "records_sends sub B" and "execute B cfg lg ex c a w = Some (r, w')"
  shows "sub w' = sub w \<or> (\<exists>tx. sub w' = sub w @ [tx] \<and> \<not> cfg_dryRun cfg \<and>
    (\<exists>auth w1 w2. decodeAuthEntries B (ca_traderAuthEntry c) = Inr auth \<and>
       prepareExecuteIntent B (ex_client ex) (fill_params cfg ex c a auth) w1 = (Inr tx, w2)))"
proof -
  have log: "sub v' = sub v" if "log_msg B lg l m meta v = (x, v')" for l m meta v x v'
    by (rule staysD [OF stays.log_keeps [OF records_quiet [OF assms(1)]] that])
  have prepare: "sub v' = sub v" if "prepareExecuteIntent B cl p v = (x, v')" for cl p v x v'
    by (rule staysD [OF prepare_sends_nothing [OF assms(1)] that])
  show ?thesis
  proof (cases "cfg_dryRun cfg")
    case True
    then show ?thesis
      using assms(2) log
      by (fastforce simp: execute_def prun_def abind_def aret_def split: prod.splits sum.splits)
  next
    case False
    show ?thesis
      using assms(2) False
      unfolding execute_def if_not_P [OF False] pbind_eq_Some prun_eq alift_run aret_run option.inject prod.inject
      by (elim disjE exE conjE) (fastforce dest: log prepare submit_sends_one [OF assms(1)])+
  qed
qed

lemma evaluation_amount:
  "evaluateFromPrices d i a prices cost least now = Inr e \<Longrightarrow> er_fillAmount e = a"
  by (auto simp: evaluateFromPrices_def evaluateIntent_def result_simps Let_def
      split: option.splits if_splits)

lemma handle_sends:
  assumes "records_sends sub B" and "handle B cfg lg ex c w = Some (r, w')"
    and "intent_valid (address_ok B) (ca_intent c)" and "hashIntent B (ca_intent c) = Inr (ca_hash c)"
  shows "sub w' = sub w \<or> (\<exists>tx. sub w' = sub w @ [tx] \<and> fill_of B cfg ex tx c)"
proof -
  let ?eval = "evaluateFromPrices (date_now B w) (ca_intent c) (minBuyAmount (ca_intent c))
        (cfg_tokenPrices cfg) (cfg_txCost cfg) (cfg_minProfit cfg) None"
  have log: "sub v' = sub v" if "log_msg B lg l m meta v = (x, v')" for l m meta v x v'
    by (rule staysD [OF stays.log_keeps [OF records_quiet [OF assms(1)]] that])
  show ?thesis
  proof (cases ?eval)
    case (Inl e)
    then show ?thesis
      using assms(2) by (simp add: handle_def pbind_def)
  next
    case (Inr e)
    have amount: "er_fillAmount e = minBuyAmount (ca_intent c)"
      using Inr by (rule evaluation_amount)
    have "sub w' = sub w \<or> (er_profitable e \<and> (\<exists>v v' x. sub v = sub w \<and> sub v' = sub w' \<and>
        execute B cfg lg ex c (minBuyAmount (ca_intent c)) v = Some (x, v')))"
      using assms(2) Inr unfolding handle_def pbind_eq_Some
      by (cases "er_profitable e")
        (fastforce simp: pbind_eq_Some prun_def aret_def amount dest: log)+
    then show ?thesis
    proof
      assume "er_profitable e \<and> (\<exists>v v' x. sub v = sub w \<and> sub v' = sub w' \<and>
        execute B cfg lg ex c (minBuyAmount (ca_intent c)) v = Some (x, v'))"
      then obtain v v' x where e: "er_profitable e" and v: "sub v = sub w" "sub v' = sub w'"
        and run: "execute B cfg lg ex c (minBuyAmount (ca_intent c)) v = Some (x, v')"
        by blast
      from execute_sends [OF assms(1) run] v assms(3,4) e Inr show ?thesis
        unfolding fill_of_def by metis
    qed simp
  qed
qed

subsection \<open>A cycle\<close>

text \<open>
  What a run may do to the sent transactions and the seen hashes: transactions are appended,
  each the fill of its own candidate, whose hash was not seen before and is now.
\<close>

definition fills_fresh ::
  "('tx \<Rightarrow> candidate_intent \<Rightarrow> bool) \<Rightarrow> 'tx list \<times> string set \<Rightarrow> 'tx list \<times> string set \<Rightarrow> bool" where
  "fills_fresh P = (\<lambda>(ts, seen) (ts', seen'). seen \<subseteq> seen' \<and>
     (\<exists>new cs. ts' = ts @ new \<and> list_all2 P new cs \<and> distinct (map ca_hash cs) \<and>
        ca_hash ` set cs \<subseteq> seen' - seen))"

lemma fills_fresh_trans:
  assumes "fills_fresh P i j" and "fills_fresh P j k"
  shows "fills_fresh P i k"
proof -
  obtain ts1 s1 ts2 s2 ts3 s3 where st: "i = (ts1, s1)" "j = (ts2, s2)" "k = (ts3, s3)"
    by (cases i; cases j; cases k) simp
  obtain n1 c1 n2 c2 where
    1: "ts2 = ts1 @ n1" "list_all2 P n1 c1" "distinct (map ca_hash c1)" "ca_hash ` set c1 \<subseteq> s2 - s1" "s1 \<subseteq> s2"
    and 2: "ts3 = ts2 @ n2" "list_all2 P n2 c2" "distinct (map ca_hash c2)" "ca_hash ` set c2 \<subseteq> s3 - s2" "s2 \<subseteq> s3"
    using assms by (auto simp: fills_fresh_def st)
  have "list_all2 P (n1 @ n2) (c1 @ c2)"
    using 1(2) 2(2) by (rule list_all2_appendI)
  moreover have "distinct (map ca_hash (c1 @ c2))"
    using 1(3,4) 2(3,4) by auto
  moreover have "ca_hash ` set (c1 @ c2) \<subseteq> s3 - s1"
    using 1(4,5) 2(4,5) by auto
  moreover have "ts3 = ts1 @ (n1 @ n2)" "s1 \<subseteq> s3"
    using 1(1,5) 2(1,5) by auto
  ultimately show ?thesis
    unfolding fills_fresh_def st prod.case by blast
qed

lemma fills_fresh_none: "seen \<subseteq> seen' \<Longrightarrow> fills_fresh P (ts, seen) (ts, seen')"
  by (auto simp: fills_fresh_def)

interpretation fresh: effect_order "fills_fresh P" for P
proof
  show "fills_fresh P k k" for k
    by (cases k) (simp add: fills_fresh_none)
qed (rule fills_fresh_trans)

text \<open>The observation: what was sent, and what the watcher has seen.\<close>

definition observed :: "('w \<Rightarrow> 'tx list) \<Rightarrow> 'w solver_world \<Rightarrow> 'tx list \<times> string set" where
  "observed sub st = (sub (fst (fst st)), w_seen (snd (fst st)))"


text \<open>What the loop does besides handling candidates sends nothing and forgets nothing.\<close>

lemma log_outer_observed:
  assumes "records_sends sub B"
  shows "stays.keeps (observed sub) (log_outer B lg l m meta)"
  using stays.log_outer_keeps [OF records_quiet [OF assms], of lg l m meta]
    stays.keeps_beside [of "\<lambda>x. x" "log_msg B lg l m meta"]
  by (auto simp: stays.keeps_def observed_def log_outer_def on_world_def split: prod.splits)

lemma deliver_observed:
  assumes "records_sends sub B"
  shows "stays.keeps (observed sub) (deliver B lg)"
proof -
  have "stays.keeps (observed sub) (stop B lg sig)" for sig
  proof -
    have "observed sub (stop_result) = observed sub (st, running)"
      if "stop B lg sig (st, running) = (x, stop_result)" for st running x stop_result
      using that staysD [OF log_outer_observed [OF assms]]
      by (cases running) (fastforce simp: stop_def observed_def)+
    then show ?thesis
      by (auto simp: stays.keeps_def) (metis prod.collapse)
  qed
  then have "stays.keeps (observed sub) (afor sigs (stop B lg))" for sigs
    by (rule stays.keeps_for)
  moreover have "sub w' = sub w" if "take_signals B w = (sigs, w')" for sigs w w'
    using records_quiet [OF assms] that by (auto simp: quiet_api_def) (metis snd_conv)
  ultimately show ?thesis
    by (auto simp: stays.keeps_def deliver_def observed_def split: prod.split)
qed

lemma stays_fresh: "stays.keeps p m \<Longrightarrow> fresh.keeps P p m"
  by (simp add: stays.keeps_def fresh.keeps_def) (metis fresh.refl)

text \<open>The candidates of one poll are handled in turn, each sending at most its own fill.\<close>

lemma handle_candidates_sends:
  assumes "records_sends sub B"
    and "\<forall>c \<in> set cs. intent_valid (address_ok B) (ca_intent c) \<and> hashIntent B (ca_intent c) = Inr (ca_hash c)"
    and "handle_candidates B cfg lg ex cs st = Some (r, st')"
  shows "w_seen (snd (fst st')) = w_seen (snd (fst st)) \<and>
    (\<exists>new cs'. sub (fst (fst st')) = sub (fst (fst st)) @ new \<and> list_all2 (fill_of B cfg ex) new cs' \<and>
       subseq cs' cs)"
  using assms(2,3)
proof (induction cs arbitrary: st)
  case Nil
  then show ?case
    by (auto simp: prun_def aret_def)
next
  case (Cons c cs)
  obtain w s running where st: "st = ((w, s), running)"
    by (metis prod.exhaust)
  show ?case
  proof (cases running)
    case False
    then show ?thesis
      using Cons.prems(2) by (auto simp: st intro!: exI [of _ "[]"])
  next
    case True
    with Cons.prems(2) have run: "pbind (pon_world (pon_world (handle B cfg lg ex c))) (\<lambda>_.
        pbind (prun (deliver B lg)) (\<lambda>_. handle_candidates B cfg lg ex cs)) ((w, s), True) = Some (r, st')"
      by (simp add: st)
    then obtain x w1 where h: "handle B cfg lg ex c w = Some (x, w1)"
      by (auto simp: pbind_eq_Some pon_world_def split: option.splits)
    obtain one c1 where one: "sub w1 = sub w @ one" "list_all2 (fill_of B cfg ex) one c1" "subseq c1 [c]"
    proof -
      have "sub w1 = sub w \<or> (\<exists>tx. sub w1 = sub w @ [tx] \<and> fill_of B cfg ex tx c)"
        using handle_sends [OF assms(1) h] Cons.prems(1) by simp
      then show thesis
      proof
        assume "sub w1 = sub w"
        then show thesis
          by (intro that [of "[]" "[]"]) simp_all
      next
        assume "\<exists>tx. sub w1 = sub w @ [tx] \<and> fill_of B cfg ex tx c"
        then obtain tx where "sub w1 = sub w @ [tx]" "fill_of B cfg ex tx c"
          by blast
        then show thesis
          by (intro that [of "[tx]" "[c]"]) simp_all
      qed
    qed
    show ?thesis
    proof (cases x)
      case (Inl e)
      then have "st' = ((w1, s), True)"
        using run h by (auto simp: pbind_eq_Some pon_world_def)
      moreover have "subseq c1 (c # cs)"
        using list_emb_append_mono [OF one(3), of "[]" cs] by simp
      ultimately show ?thesis
        using one by (auto simp: st)
    next
      case (Inr u)
      obtain y st1 where d: "deliver B lg ((w1, s), True) = (y, st1)"
        by (rule prod.exhaust)
      have same: "observed sub st1 = observed sub ((w1, s), True)"
        by (rule staysD [OF deliver_observed [OF assms(1)] d])
      then have st1: "sub (fst (fst st1)) = sub w @ one" "w_seen (snd (fst st1)) = w_seen s"
        using one(1) by (simp_all add: observed_def)
      have rest: "case y of Inl e \<Rightarrow> st' = st1
          | Inr _ \<Rightarrow> handle_candidates B cfg lg ex cs st1 = Some (r, st')"
        using run h Inr d by (auto simp: pbind_def pon_world_def prun_def split: sum.splits)
      show ?thesis
      proof (cases y)
        case (Inl e)
        moreover have "subseq c1 (c # cs)"
          using list_emb_append_mono [OF one(3), of "[]" cs] by simp
        ultimately show ?thesis
          using rest st1 one(2) by (auto simp: st)
      next
        case (Inr v)
        then obtain new cs' where "w_seen (snd (fst st')) = w_seen s"
          and new: "sub (fst (fst st')) = (sub w @ one) @ new" "list_all2 (fill_of B cfg ex) new cs'" "subseq cs' cs"
          using Cons.IH [of st1] Cons.prems(1) rest st1 by auto
        moreover have "list_all2 (fill_of B cfg ex) (one @ new) (c1 @ cs')"
          using one(2) new(2) by (rule list_all2_appendI)
        moreover have "subseq (c1 @ cs') (c # cs)"
          using list_emb_append_mono [OF one(3) new(3)] by simp
        ultimately show ?thesis
          by (auto simp: st)
      qed
    qed
  qed
qed

lemma fresh_poll:
  assumes "no_bigints (log_bindings lg)" and "watcher_poll B cfg lg (w, s) = (Inr cs, (w', s'))"
  shows "distinct (map ca_hash cs)" and "ca_hash ` set cs \<subseteq> w_seen s' - w_seen s" and "w_seen s \<subseteq> w_seen s'"
    and "\<forall>c \<in> set cs. intent_valid (address_ok B) (ca_intent c) \<and> hashIntent B (ca_intent c) = Inr (ca_hash c)"
proof -
  obtain ds w1 w2 where ds: "pollFeed B cfg lg w1 = (Inr ds, w2)"
    "fresh_candidates (w_seen s) ds = (cs, w_seen s')"
    using watcher_poll_result [OF assms(2)] by auto
  have "ds = decoded B (feed_listing B cfg w1)"
    using pollFeed_result [OF assms(1), of B cfg w1] ds(1) by auto
  then have "\<forall>c \<in> set ds. intent_valid (address_ok B) (ca_intent c) \<and> hashIntent B (ca_intent c) = Inr (ca_hash c)"
    using decoded_sound by auto
  then show "distinct (map ca_hash cs)" "ca_hash ` set cs \<subseteq> w_seen s' - w_seen s" "w_seen s \<subseteq> w_seen s'"
    "\<forall>c \<in> set cs. intent_valid (address_ok B) (ca_intent c) \<and> hashIntent B (ca_intent c) = Inr (ca_hash c)"
    using fresh_candidates_spec [OF ds(2)] by auto
qed

text \<open>A tick keeps to the order \<open>fills_fresh\<close>, whatever it throws.\<close>

lemma tick_sends:
  assumes "records_sends sub B" and "no_bigints (log_bindings lg)"
  shows "fresh.pkeeps (fill_of B cfg ex) (observed sub) (tick B cfg lg ex)"
  unfolding fresh.pkeeps_def
proof (intro allI impI)
  fix st r st'
  assume run: "tick B cfg lg ex st = Some (r, st')"
  obtain w s running where st: "st = ((w, s), running)"
    by (metis prod.exhaust)
  obtain x w1 s1 where p: "watcher_poll B cfg lg (w, s) = (x, (w1, s1))"
    by (metis prod_cases3)
  have sub: "sub w1 = sub w"
    using staysD [OF stays.watcher_poll_keeps [OF records_quiet [OF assms(1)]] p] by simp
  show "fills_fresh (fill_of B cfg ex) (observed sub st) (observed sub st')"
  proof (cases x)
    case (Inl e)
    then have "st' = ((w1, s1), running)" "w_seen s1 = w_seen s"
      using run p watcher_poll_result [OF p]
      by (auto simp: st tick_def pbind_eq_Some prun_def on_world_def)
    then show ?thesis
      by (simp add: st observed_def sub fills_fresh_none)
  next
    case (Inr cs)
    note poll = fresh_poll [OF assms(2) p [unfolded Inr]]
    obtain y st1 where d: "deliver B lg ((w1, s1), running) = (y, st1)"
      by (rule prod.exhaust)
    have same: "observed sub st1 = (sub w, w_seen s1)"
      using staysD [OF deliver_observed [OF assms(1)] d] by (simp add: observed_def sub)
    have rest: "st' = st1 \<or> (\<exists>z. log_outer B lg Debug ''no fresh intents'' [] st1 = (z, st'))
        \<or> handle_candidates B cfg lg ex cs st1 = Some (r, st')"
      using run p d Inr
      by (auto simp: st tick_def pbind_def prun_def on_world_def split: sum.splits if_splits)
    then show ?thesis
    proof (elim disjE exE)
      assume "st' = st1"
      then show ?thesis
        using poll(3) by (simp add: same) (simp add: st observed_def fills_fresh_none)
    next
      fix z assume "log_outer B lg Debug ''no fresh intents'' [] st1 = (z, st')"
      then have "observed sub st' = observed sub st1"
        by (rule staysD [OF log_outer_observed [OF assms(1)]])
      then show ?thesis
        using poll(3) by (simp add: same) (simp add: st observed_def fills_fresh_none)
    next
      assume h: "handle_candidates B cfg lg ex cs st1 = Some (r, st')"
      obtain new cs' where seen: "w_seen (snd (fst st')) = w_seen s1"
        and new: "sub (fst (fst st')) = sub w @ new" "list_all2 (fill_of B cfg ex) new cs'" "subseq cs' cs"
        using handle_candidates_sends [OF assms(1) poll(4) h] same by (auto simp: observed_def)
      have "distinct (map ca_hash cs')"
        using poll(1) subseq_map [OF new(3), of ca_hash] subseqs_distinctD by auto
      moreover have subset: "set cs' \<subseteq> set cs"
        using new(3) by (auto dest: list_emb_set)
      then have "ca_hash ` set cs' \<subseteq> w_seen s1 - w_seen s"
        using poll(2) by blast
      ultimately show ?thesis
        using new(1,2) poll(3) unfolding st observed_def fills_fresh_def prod.case fst_conv snd_conv seen
        by blast
    qed
  qed
qed


lemma cycle_sends:
  assumes "records_sends sub B" and "no_bigints (log_bindings lg)"
  shows "fresh.pkeeps (fill_of B cfg ex) (observed sub) (cycle B cfg lg ex)"
  unfolding cycle_def
  by (intro fresh.pkeeps_bind fresh.pkeeps_catch fresh.pkeeps_run tick_sends assms
      stays_fresh log_outer_observed deliver_observed)

lemma pause_sends:
  assumes "records_sends sub B"
  shows "stays.keeps (observed sub) (pause B cfg lg)"
proof -
  have "stays.keeps (observed sub) (sleep B ms)" for ms
    using assms by (auto simp: stays.keeps_def sleep_def observed_def records_sends_def calm_api_def)
  then show ?thesis
    unfolding pause_def by (intro stays.keeps_bind deliver_observed assms)
qed

section \<open>Runs of the bot\<close>

text \<open>
  The states the loop of \<open>main\<close> passes through: while \<open>running\<close>, a cycle, and then a pause.
  A run may go on for ever, so what holds of its states is stated here and not of the result
  of \<open>main_loop\<close> alone.
\<close>

inductive bot_run ::
  "('sv, 'op, 'acct, 'tx, 'au, 'rest, 'w, 'x) solver_api_scheme \<Rightarrow> solver_config \<Rightarrow> logger \<Rightarrow> executor
     \<Rightarrow> 'w solver_world \<Rightarrow> 'w solver_world \<Rightarrow> bool"
  for B cfg lg ex st where
  start: "bot_run B cfg lg ex st st"
| cycle: "bot_run B cfg lg ex st st1 \<Longrightarrow> snd st1 \<Longrightarrow> cycle B cfg lg ex st1 = Some (r, st2)
    \<Longrightarrow> bot_run B cfg lg ex st st2"
| pause: "bot_run B cfg lg ex st st1 \<Longrightarrow> snd st1 \<Longrightarrow> pause B cfg lg st1 = (r, st2)
    \<Longrightarrow> bot_run B cfg lg ex st st2"

lemma bot_run_trans:
  "bot_run B cfg lg ex st1 st2 \<Longrightarrow> bot_run B cfg lg ex st st1 \<Longrightarrow> bot_run B cfg lg ex st st2"
  by (induction rule: bot_run.induct) (auto intro: bot_run.intros)

text \<open>Where \<open>main_loop\<close> returns, it returns in a state of a run.\<close>

lemma main_loop_run:
  assumes "main_loop B cfg lg ex st = Some y"
  shows "bot_run B cfg lg ex st (snd y)"
proof (rule main_loop.raw_induct [where P = "\<lambda>B cfg lg ex st y. bot_run B cfg lg ex st (snd y)", OF _ assms])
  fix f B cfg lg ex st y
  assume IH: "\<And>B cfg lg ex st y. f B cfg lg ex st = Some y \<Longrightarrow> bot_run B cfg lg ex st (snd y)"
    and eq: "(if \<not> snd st then Some (Inr (), st)
      else case cycle B cfg lg ex st of
          None \<Rightarrow> None
        | Some (Inl e, st1) \<Rightarrow> Some (Inl e, st1)
        | Some (Inr _, st1) \<Rightarrow>
            if \<not> snd st1 then Some (Inr (), st1)
            else (case pause B cfg lg st1 of
                (Inl e, st2) \<Rightarrow> Some (Inl e, st2)
              | (Inr _, st2) \<Rightarrow> f B cfg lg ex st2)) = Some y"
  show "bot_run B cfg lg ex st (snd y)"
  proof (cases "snd st")
    case False
    then show ?thesis
      using eq by (auto intro: bot_run.start)
  next
    case True
    then obtain r st1 where c: "cycle B cfg lg ex st = Some (r, st1)"
      using eq by (auto split: option.splits)
    then have run1: "bot_run B cfg lg ex st st1"
      using True by (blast intro: bot_run.intros)
    obtain q st2 where p: "pause B cfg lg st1 = (q, st2)"
      by (rule prod.exhaust)
    show ?thesis
    proof (cases "\<exists>u. r = Inr u \<and> snd st1")
      case False
      then have "snd y = st1"
        using eq c True by (auto split: sum.splits if_splits)
      with run1 show ?thesis by simp
    next
      case run: True
      have run2: "bot_run B cfg lg ex st st2"
        using run run1 p by (blast intro: bot_run.intros)
      show ?thesis
      proof (cases q)
        case (Inl e)
        then have "snd y = st2"
          using eq c True run p by auto
        with run2 show ?thesis by simp
      next
        case (Inr u)
        then have "f B cfg lg ex st2 = Some y"
          using eq c True run p by auto
        from IH [OF this] run2 show ?thesis
          by (rule bot_run_trans)
      qed
    qed
  qed
qed

lemma bot_run_sends:
  assumes "records_sends sub B" and "no_bigints (log_bindings lg)" and "bot_run B cfg lg ex st st'"
  shows "fills_fresh (fill_of B cfg ex) (observed sub st) (observed sub st')"
  using assms(3)
proof (induction rule: bot_run.induct)
  case (cycle st1 r st2)
  then show ?case
    using fresh.pkeepsD [OF cycle_sends [OF assms(1,2)]] fills_fresh_trans by blast
next
  case (pause st1 r st2)
  then show ?case
    using staysD [OF pause_sends [OF assms(1)]] by metis
qed (rule fresh.refl)

section \<open>Recording what is sent\<close>

text \<open>Any bot with a list of the transactions it sent beside its world.\<close>

definition beside :: "('w, 'a) action \<Rightarrow> ('w \<times> 'tx list, 'a) action" where
  "beside m = on_world m"

definition recording ::
  "('sv, 'op, 'acct, 'tx, 'au, 'rest, 'w) solver_api
     \<Rightarrow> ('sv, 'op, 'acct, 'tx, 'au, 'rest, 'w \<times> 'tx list) solver_api" where
  "recording B = \<lparr>address_ok = address_ok B, address_scval = address_scval B, i128_scval = i128_scval B,
     u64_scval = u64_scval B, u32_scval = u32_scval B, symbol_scval = symbol_scval B,
     map_scval = map_scval B, to_xdr = to_xdr B, sha256 = sha256 B,
     new_server = new_server B, new_contract = new_contract B, contract_call = contract_call B,
     bytes_scval = bytes_scval B, scval_type = scval_type B, scval_bytes = scval_bytes B,
     scval_u32 = scval_u32 B, base_fee = base_fee B, build_tx = build_tx B,
     assemble_tx = assemble_tx B, sign_tx = sign_tx B, date_now = (\<lambda>w. date_now B (fst w)),
     wait_ms = (\<lambda>ms (w, l). (wait_ms B ms w, l)), get_account = (\<lambda>k. beside (get_account B k)),
     simulate_tx = (\<lambda>tx. beside (simulate_tx B tx)),
     send_tx = (\<lambda>tx (w, l). case send_tx B tx w of (r, w') \<Rightarrow> (r, (w', l @ [tx]))),
     get_tx = (\<lambda>h. beside (get_tx B h)),
     iso_time = (\<lambda>w. iso_time B (fst w)), sink = (\<lambda>line (w, l). (sink B line w, l)),
     scval_sym = scval_sym B, latest_ledger = beside (latest_ledger B),
     get_events = (\<lambda>l c n. beside (get_events B l c n)), fetch_url = (\<lambda>u. beside (fetch_url B u)),
     keypair_from_secret = keypair_from_secret B, auth_from_xdr = auth_from_xdr B,
     take_signals = (\<lambda>(w, l). case take_signals B w of (sigs, w') \<Rightarrow> (sigs, (w', l)))\<rparr>"

lemma recording_records: "records_sends snd (recording B)"
  by (auto simp: records_sends_def calm_api_def quiet_api_def recording_def beside_def on_world_def split: prod.split)

text \<open>The recording changes nothing the bot computes from the library's encoders.\<close>

lemma encode_recording: "intentToScVal (recording B) i = intentToScVal B i"
  by (simp add: intentToScVal_def byField_def scval_defs recording_def)

lemma decode_recording: "decode_entry (recording B) entry = decode_entry B entry"
proof -
  have "hashIntent (recording B) i = hashIntent B i" for i
    unfolding hashIntent_def intentDigest_def encode_recording by (simp add: recording_def)
  moreover have "address_ok (recording B) = address_ok B"
    by (simp add: recording_def)
  ultimately show ?thesis
    unfolding decode_entry_def by simp
qed

lemma encode_signals: "intentToScVal (B\<lparr>take_signals := f\<rparr>) i = intentToScVal B i"
  by (simp add: intentToScVal_def byField_def scval_defs)

lemma decode_signals: "decode_entry (B\<lparr>take_signals := f\<rparr>) entry = decode_entry B entry"
  unfolding decode_entry_def hashIntent_def intentDigest_def encode_signals by simp

section \<open>Properties\<close>

text \<open>(C4) Over any run of the bot, however long and whatever the feed, the server and the
  clock do, the transactions it sends are fills of candidates with pairwise distinct hashes,
  none of them seen before the run: no order is ever filled twice by the same bot.  Each
  was prepared, signed and sent for a valid intent under its own hash, for exactly its
  minimum amount, after a profitable evaluation, and never in a dry run.\<close>

theorem bot_fills_each_order_once:
  assumes "records_sends sub B" and "no_bigints (log_bindings lg)"
    and "bot_run B cfg lg ex ((w, s), running) ((w', s'), running')"
  shows "\<exists>new cs. sub w' = sub w @ new \<and> list_all2 (fill_of B cfg ex) new cs \<and>
    distinct (map ca_hash cs) \<and> ca_hash ` set cs \<inter> w_seen s = {} \<and> ca_hash ` set cs \<subseteq> w_seen s'"
proof -
  obtain new cs where "sub w' = sub w @ new" "list_all2 (fill_of B cfg ex) new cs" "distinct (map ca_hash cs)"
    "ca_hash ` set cs \<subseteq> w_seen s' - w_seen s"
    using bot_run_sends [OF assms] unfolding fills_fresh_def observed_def prod.case fst_conv snd_conv by blast
  then show ?thesis
    by blast
qed

text \<open>The reference bot, recorded, with no signal coming: one cycle sends one fill.\<close>

definition recorded_bot ::
  "(string, string, string, string, string, unit, clock_world \<times> string list) solver_api" where
  "recorded_bot = recording (reference_solver\<lparr>take_signals := (\<lambda>w. ([], w))\<rparr>)"

lemma recorded_bot_poll:
  obtains c s where "watcher_poll recorded_bot priced_config sample_logger
      (((1000000, 0), []), \<lparr>w_seen = {}, w_cursor = Fin 0\<rparr>) = (Inr [c], (((1000000, 0), []), s))"
    "ca_intent c = sample_intent"
proof (rule sample_poll [where B = recorded_bot and cfg = priced_config and w = "((1000000, 0), [])"])
  show "decode_entry recorded_bot sample_entry = decode_entry reference_bot sample_entry"
    by (simp only: recorded_bot_def decode_recording decode_signals reference_solver_decodes)
qed (auto simp: recorded_bot_def recording_def beside_def reference_solver_defs on_world_def aret_def
    priced_config_def feed_config_def)

lemma recorded_submit:
  "submitTransaction recorded_bot tx (Some (Fin 60000)) ((1000000, 0), [])
     = Some (Inr \<lparr>sr_hash = tx, sr_status = SUCCESS, sr_ledger = Some (Fin 9)\<rparr>, ((1000001, 0), [tx]))"
proof -
  have add: "js_add (Fin 1000001) (Fin 60000) = Fin 1060001"
    using round_double_of_int [of 1060001] by simp
  have "poll_rounds 1 recorded_bot tx (Fin 1060001) ((1000001, 0), [tx])
      = Some (Inr \<lparr>sr_hash = tx, sr_status = SUCCESS, sr_ledger = Some (Fin 9)\<rparr>, ((1000001, 0), [tx]))"
    by (simp add: poll_step_def recorded_bot_def recording_def beside_def on_world_def reference_solver_defs)
  then show ?thesis
    using poll_rounds_loop [of 1 recorded_bot tx "Fin 1060001" "((1000001, 0), [tx])"]
    by (simp add: submitTransaction_def poll_def recorded_bot_def recording_def reference_solver_defs
        add [simplified])
qed

lemma recorded_cycle:
  "\<exists>tx s. cycle recorded_bot priced_config sample_logger sample_executor
      ((((1000000, 0), []), \<lparr>w_seen = {}, w_cursor = Fin 0\<rparr>), True)
    = Some (Inr (), ((((1000001, 0), [tx]), s), True))"
proof (rule recorded_bot_poll)
  fix c s
  assume p: "watcher_poll recorded_bot priced_config sample_logger
      (((1000000, 0), []), \<lparr>w_seen = {}, w_cursor = Fin 0\<rparr>) = (Inr [c], (((1000000, 0), []), s))"
    and c: "ca_intent c = sample_intent"
  obtain tx where h: "handle recorded_bot priced_config sample_logger sample_executor c ((1000000, 0), [])
      = Some (Inr (), ((1000001, 0), [tx]))"
  proof -
    obtain v where v: "intentToScVal reference_solver sample_intent = Inr v"
      using reference_bot_encodes by blast
    then have "intentToScVal recorded_bot sample_intent = Inr v"
      by (simp only: recorded_bot_def encode_recording encode_signals)
    from sample_handled [where B = recorded_bot and w = "((1000000, 0), [])"
        and w' = "\<lambda>tx. ((1000001, 0), [tx])" and c = c, OF _ _ _ _ _ _ _ this] show thesis
      using that recorded_submit c
      by (simp add: recorded_bot_def recording_def beside_def on_world_def aret_def reference_solver_defs
          reference_sdk_def fun_eq_iff) blast
  qed
  have "take_signals recorded_bot w = ([], w)" for w
    by (simp add: recorded_bot_def recording_def split_beta)
  then have "deliver recorded_bot sample_logger st = (Inr (), st)" for st
    by (simp add: deliver_def split_beta aret_def)
  with p h show ?thesis
    by (auto simp: cycle_def tick_def pbind_def pcatch_def prun_def on_world_def pon_world_def aret_def)
qed

theorem bot_fills_each_order_once_witness:
  "\<exists>tx c. fill_of recorded_bot priced_config sample_executor tx c"
proof -
  let ?s0 = "\<lparr>w_seen = {}, w_cursor = Fin 0\<rparr>"
  obtain tx s where "cycle recorded_bot priced_config sample_logger sample_executor
      ((((1000000, 0), []), ?s0), True) = Some (Inr (), ((((1000001, 0), [tx]), s), True))"
    using recorded_cycle by blast
  then have run: "bot_run recorded_bot priced_config sample_logger sample_executor
      ((((1000000, 0), []), ?s0), True) ((((1000001, 0), [tx]), s), True)"
    by (auto intro: bot_run.intros)
  have "records_sends snd recorded_bot"
    by (simp add: recorded_bot_def recording_records)
  from bot_fills_each_order_once [OF this sample_logger_ok run] show ?thesis
    by (auto simp: list_all2_Cons1)
qed

end
