(* ===== verification/Process.thy ===== *)
theory Process
  imports Submissions
begin

section \<open>The process\<close>

text \<open>
  \<open>main\<close> from start to exit: the configuration, the watcher and the executor are made first,
  and a failure there is the only way the process ends with an error; the loop itself
  absorbs every exception.
\<close>

text \<open>What \<open>main\<close> makes before the loop.\<close>

definition startup ::
  "('sv, 'op, 'acct, 'tx, 'au, 'rest, 'w, 'x) solver_api_scheme \<Rightarrow> environment
     \<Rightarrow> (solver_config \<times> watcher \<times> executor) result" where
  "startup B env =
     rbind (loadConfig env) (\<lambda>cfg.
     rbind (new_watcher B cfg) (\<lambda>s.
     rbind (new_executor B cfg None) (\<lambda>ex. Inr (cfg, s, ex))))"

definition service_logger :: "solver_config \<Rightarrow> logger" where
  "service_logger cfg = createLogger (cfg_logLevel cfg) [(''service'', JStr ''slipguard-solver'')]"

lemma service_logger_ok: "no_bigints (log_bindings (service_logger cfg))"
  by (simp add: service_logger_def createLogger_def no_bigints_def)

subsection \<open>Nothing escapes the loop\<close>

lemma cycle_never_throws:
  assumes "no_bigints (log_bindings lg)" and "cycle B cfg lg ex st = Some (r, st')"
  shows "r = Inr ()"
proof -
  have deliver: "fst (deliver B lg st1) = Inr ()" for st1
  proof -
    obtain w s running where "st1 = ((w, s), running)"
      by (metis prod.exhaust)
    then show ?thesis
      using deliver_result [OF assms(1), of B w s running] by auto
  qed
  have caught: "\<exists>st2. log_outer B lg Error ''poll cycle failed'' [(''error'', JStr m)] st1 = (Inr (), st2)" for m st1
  proof -
    obtain w s running where "st1 = ((w, s), running)"
      by (metis prod.exhaust)
    then show ?thesis
      using log_outer_ok [OF assms(1), of "[(''error'', JStr m)]" B Error "''poll cycle failed''" w s running]
      by (auto simp: no_bigints_def)
  qed
  obtain x st1 where t: "tick B cfg lg ex st = Some (x, st1)"
    using assms(2) by (cases "tick B cfg lg ex st") (auto simp: cycle_def pbind_def pcatch_def)
  have "\<exists>st2. pcatch (tick B cfg lg ex) (\<lambda>e. prun (log_outer B lg Error ''poll cycle failed''
      [(''error'', JStr (error_message e))])) st = Some (Inr (), st2)"
    using t caught [of _ st1] by (cases x) (auto simp: pcatch_def prun_def)
  then show ?thesis
    using assms(2) deliver by (auto simp: cycle_def pbind_def prun_def) (metis fst_conv)
qed

lemma pause_never_throws:
  assumes "no_bigints (log_bindings lg)" and "pause B cfg lg st = (r, st')"
  shows "r = Inr ()"
proof -
  obtain w s running where st: "st = ((w, s), running)"
    by (metis prod.exhaust)
  then show ?thesis
    using assms(2) deliver_result [OF assms(1), of B "wait_ms B (cfg_pollIntervalMs cfg) w" s running]
    by (auto simp: pause_def sleep_def abind_def)
qed

lemma main_loop_never_throws:
  assumes "no_bigints (log_bindings lg)" and "main_loop B cfg lg ex st = Some y"
  shows "fst y = Inr ()"
proof (rule main_loop.raw_induct [where P = "\<lambda>B cfg lg' ex st y. lg' = lg \<longrightarrow> fst y = Inr ()", OF _ assms(2),
      THEN mp, OF _ refl])
  fix f B cfg lg' ex st y
  assume IH: "\<And>B cfg lg' ex st y. f B cfg lg' ex st = Some y \<Longrightarrow> lg' = lg \<longrightarrow> fst y = Inr ()"
    and eq: "(if \<not> snd st then Some (Inr (), st)
      else case cycle B cfg lg' ex st of
          None \<Rightarrow> None
        | Some (Inl e, st1) \<Rightarrow> Some (Inl e, st1)
        | Some (Inr _, st1) \<Rightarrow>
            if \<not> snd st1 then Some (Inr (), st1)
            else (case pause B cfg lg' st1 of
                (Inl e, st2) \<Rightarrow> Some (Inl e, st2)
              | (Inr _, st2) \<Rightarrow> f B cfg lg' ex st2)) = Some y"
  show "lg' = lg \<longrightarrow> fst y = Inr ()"
  proof
    assume lg: "lg' = lg"
    show "fst y = Inr ()"
    proof (cases "snd st")
      case True
      then obtain r st1 where c: "cycle B cfg lg ex st = Some (r, st1)"
        using eq lg by (auto split: option.splits)
      have r: "r = Inr ()"
        by (rule cycle_never_throws [OF assms(1) c])
      obtain q st2 where p: "pause B cfg lg st1 = (q, st2)"
        by (rule prod.exhaust)
      have q: "q = Inr ()"
        by (rule pause_never_throws [OF assms(1) p])
      show ?thesis
        using eq IH [of B cfg lg ex st2 y] True lg by (auto simp: c p r q split: if_splits)
    qed (use eq in auto)
  qed
qed

subsection \<open>From start to exit\<close>

lemma main_startup:
  "main B env w = (case startup B env of
       Inl e \<Rightarrow> Some (Inl e, w)
     | Inr (cfg, s, ex) \<Rightarrow>
         map_option (\<lambda>(r, st). (r, fst (fst st)))
           (pbind (prun (log_outer B (service_logger cfg) Info ''solver starting''
               [(''rpcUrl'', JStr (cfg_rpcUrl cfg)),
                (''routerContractId'', JStr (cfg_routerContractId cfg)),
                (''solver'', JStr (solverAddress ex)),
                (''feed'', case cfg_intentFeedUrl cfg of Some u \<Rightarrow> JStr u | None \<Rightarrow> JNull),
                (''pollIntervalMs'', JNum (cfg_pollIntervalMs cfg)),
                (''dryRun'', JBool (cfg_dryRun cfg))])) (\<lambda>_.
            pbind (main_loop B cfg (service_logger cfg) ex) (\<lambda>_.
            prun (log_outer B (service_logger cfg) Info ''solver stopped'' []))) ((w, s), True)))"
proof (cases "loadConfig env")
  case (Inr cfg)
  then show ?thesis
    by (cases "new_watcher B cfg"; cases "new_executor B cfg None")
      (simp_all add: main_def startup_def service_logger_def Let_def)
qed (simp add: main_def startup_def)
lemma log_outer_quiet:
  assumes "records_sends sub B" and "no_bigints (log_bindings lg)" and "no_bigints meta"
  shows "\<exists>w'. log_outer B lg level msg meta ((w, s), running) = (Inr (), ((w', s), running)) \<and> sub w' = sub w"
proof -
  obtain w' where l: "log_msg B lg level msg meta w = (Inr (), w')"
    by (rule log_msg_ok [OF assms(2,3)])
  then show ?thesis
    using staysD [OF stays.log_keeps [OF records_quiet [OF assms(1)]] l]
    by (auto simp: log_outer_def on_world_def)
qed

lemma startup_config: "startup B env = Inr (cfg, s, ex) \<Longrightarrow> config_ok cfg"
  by (auto simp: startup_def result_simps dest: loadConfig_ok)

lemma startup_watcher: "startup B env = Inr (cfg, s, ex) \<Longrightarrow> w_seen s = {}"
  by (auto simp: startup_def result_simps new_watcher_def)

lemma main_started:
  assumes "records_sends sub B" and "main B env w = Some (r, w')" and "startup B env = Inr (cfg, s, ex)"
  obtains w0 st where "sub w0 = sub w" "bot_run B cfg (service_logger cfg) ex ((w0, s), True) st"
    "r = Inr ()" "sub w' = sub (fst (fst st))"
proof -
  let ?lg = "service_logger cfg"
  note ok = service_logger_ok [of cfg]
  define meta where "meta = [(''rpcUrl'', JStr (cfg_rpcUrl cfg)), (''routerContractId'', JStr (cfg_routerContractId cfg)),
                (''solver'', JStr (solverAddress ex)),
                (''feed'', case cfg_intentFeedUrl cfg of Some u \<Rightarrow> JStr u | None \<Rightarrow> JNull),
                (''pollIntervalMs'', JNum (cfg_pollIntervalMs cfg)), (''dryRun'', JBool (cfg_dryRun cfg))]"
  have "no_bigints meta"
    by (auto simp: meta_def no_bigints_def split: option.split)
  then obtain w0 where w0: "log_outer B ?lg Info ''solver starting'' meta ((w, s), True) = (Inr (), ((w0, s), True))"
    "sub w0 = sub w"
    using log_outer_quiet [OF assms(1) ok] by blast
  let ?rest = "pbind (main_loop B cfg ?lg ex) (\<lambda>_. prun (log_outer B ?lg Info ''solver stopped'' []))"
  have "map_option (\<lambda>(r, st). (r, fst (fst st))) (?rest ((w0, s), True)) = Some (r, w')"
    using assms(2) w0 unfolding main_startup assms(3) sum.case prod.case meta_def [symmetric]
    by (simp add: pbind_def prun_def)
  then obtain st' where rest: "?rest ((w0, s), True) = Some (r, st')" "w' = fst (fst st')"
    by (auto split: prod.splits)
  then obtain y where y: "main_loop B cfg ?lg ex ((w0, s), True) = Some y"
    by (cases "main_loop B cfg ?lg ex ((w0, s), True)") (auto simp: pbind_def)
  have fst_y: "fst y = Inr ()"
    by (rule main_loop_never_throws [OF ok y])
  obtain w1 s1 running where st: "snd y = ((w1, s1), running)"
    by (metis prod.exhaust)
  have "y = (Inr (), ((w1, s1), running))"
    using fst_y st by (metis prod.collapse)
  moreover have "no_bigints []"
    by (simp add: no_bigints_def)
  from log_outer_quiet [OF assms(1) ok this] obtain w2 where
    "log_outer B ?lg Info ''solver stopped'' [] ((w1, s1), running) = (Inr (), ((w2, s1), running))"
    "sub w2 = sub w1"
    by blast
  ultimately have "r = Inr ()" "sub w' = sub w1"
    using rest y by (auto simp: pbind_def prun_def)
  then show thesis
    using that [OF w0(2) main_loop_run [OF y]] st by simp
qed

lemma main_result:
  assumes "records_sends sub B" and "main B env w = Some (r, w')"
  shows "(\<forall>e. startup B env = Inl e \<longrightarrow> r = Inl e \<and> exit_code r = 1 \<and> w' = w) \<and>
    (\<forall>cfg s ex. startup B env = Inr (cfg, s, ex) \<longrightarrow> r = Inr () \<and> exit_code r = 0 \<and>
      (\<exists>new cs. sub w' = sub w @ new \<and> list_all2 (fill_of B cfg ex) new cs \<and> distinct (map ca_hash cs)))"
proof (cases "startup B env")
  case (Inl e)
  then show ?thesis
    using assms(2) by (auto simp: main_startup exit_code_def)
next
  case (Inr p)
  then obtain cfg s ex where s: "startup B env = Inr (cfg, s, ex)"
    by (metis prod_cases3)
  obtain w0 st where run: "sub w0 = sub w" "bot_run B cfg (service_logger cfg) ex ((w0, s), True) st"
    "r = Inr ()" "sub w' = sub (fst (fst st))"
    by (rule main_started [OF assms s])
  obtain w1 s1 running where st: "st = ((w1, s1), running)"
    by (metis prod.exhaust)
  obtain new cs where "sub w1 = sub w0 @ new" "list_all2 (fill_of B cfg ex) new cs" "distinct (map ca_hash cs)"
    using bot_run_sends [OF assms(1) service_logger_ok run(2)]
    unfolding st fills_fresh_def observed_def prod.case fst_conv snd_conv by blast
  then show ?thesis
    using run s by (auto simp: st exit_code_def)
qed
section \<open>Properties\<close>

text \<open>(C19) The process, from its environment to its exit: it ends with an error exactly when the
  configuration, the watcher or the executor cannot be made, and then nothing has happened;
  otherwise no exception of any cycle ends it, it exits with code 0, and what it has sent
  over its whole life are fills of candidates with pairwise distinct hashes.\<close>

theorem main_outcome:
  assumes "records_sends sub B" and "main B env w = Some (r, w')"
  shows "(\<forall>e. startup B env = Inl e \<longrightarrow> r = Inl e \<and> exit_code r = 1 \<and> w' = w) \<and>
    (\<forall>cfg s ex. startup B env = Inr (cfg, s, ex) \<longrightarrow> r = Inr () \<and> exit_code r = 0 \<and>
      (\<exists>new cs. sub w' = sub w @ new \<and> list_all2 (fill_of B cfg ex) new cs \<and> distinct (map ca_hash cs)))"
  using assms by (rule main_result)

text \<open>The reference bot with the minimal environment, interrupted from the start.\<close>

definition interrupted_bot ::
  "(string, string, string, string, string, unit, clock_world \<times> string list) solver_api" where
  "interrupted_bot = recording reference_solver"

lemma interrupted_startup:
  obtains ex where "startup interrupted_bot minimal_env
    = Inr (default_config, \<lparr>w_seen = {}, w_cursor = Fin 0\<rparr>, ex)"
proof -
  have "new_watcher interrupted_bot default_config = Inr \<lparr>w_seen = {}, w_cursor = Fin 0\<rparr>"
    by (simp add: new_watcher_def interrupted_bot_def recording_def reference_solver_defs default_config_def)
  moreover obtain ex where "new_executor interrupted_bot default_config None = Inr ex"
    by (simp add: new_executor_def new_client_def interrupted_bot_def recording_def reference_solver_defs)
  ultimately have "startup interrupted_bot minimal_env = Inr (default_config, \<lparr>w_seen = {}, w_cursor = Fin 0\<rparr>, ex)"
    by (simp add: startup_def minimal_env_loads)
  with that show thesis
    by blast
qed

lemma interrupted_loop:
  assumes "5 \<le> t" and "no_bigints (log_bindings lg)"
  shows "\<exists>y. main_loop interrupted_bot default_config lg ex
    ((((t, u), l), \<lparr>w_seen = {}, w_cursor = Fin 0\<rparr>), True) = Some y"
proof -
  let ?B = interrupted_bot and ?w = "((t, u), l)"
  obtain s where poll: "watcher_poll ?B default_config lg (?w, \<lparr>w_seen = {}, w_cursor = Fin 0\<rparr>) = (Inr [], (?w, s))"
    by (simp add: watcher_poll_def pollEvents_def pollFeed_def get_watcher_def modify_watcher_def on_world_def
        abind_def aret_def take_fresh_def interrupted_bot_def recording_def beside_def reference_solver_defs
        default_config_def)
  have signal: "fst (take_signals ?B ?w) \<noteq> []"
    using assms(1) by (simp add: interrupted_bot_def recording_def reference_solver_defs)
  obtain w1 where d: "deliver ?B lg ((?w, s), True) = (Inr (), ((w1, s), False))"
    using deliver_result [OF assms(2), of ?B ?w s True] signal by auto
  obtain w2 where l: "log_outer ?B lg Debug ''no fresh intents'' [] ((w1, s), False) = (Inr (), ((w2, s), False))"
    using log_outer_ok [OF assms(2), of "[]" ?B Debug "''no fresh intents''" w1 s False]
    by (auto simp: no_bigints_def)
  obtain w3 where d2: "deliver ?B lg ((w2, s), False) = (Inr (), ((w3, s), False))"
    using deliver_result [OF assms(2), of ?B w2 s False] by auto
  have "cycle ?B default_config lg ex ((?w, \<lparr>w_seen = {}, w_cursor = Fin 0\<rparr>), True) = Some (Inr (), ((w3, s), False))"
    using poll d l d2 by (simp add: cycle_def tick_def pbind_def pcatch_def prun_def on_world_def)
  then have "main_loop ?B default_config lg ex ((?w, \<lparr>w_seen = {}, w_cursor = Fin 0\<rparr>), True)
      = Some (Inr (), ((w3, s), False))"
    by (subst main_loop.simps) simp
  then show ?thesis
    by blast
qed

theorem main_outcome_witness:
  "\<exists>r w'. main interrupted_bot minimal_env ((9, 0), []) = Some (r, w') \<and> exit_code r = 0"
proof (rule interrupted_startup)
  fix ex assume s: "startup interrupted_bot minimal_env = Inr (default_config, \<lparr>w_seen = {}, w_cursor = Fin 0\<rparr>, ex)"
  let ?lg = "service_logger default_config" and ?s = "\<lparr>w_seen = {}, w_cursor = Fin 0\<rparr>"
  have sent: "records_sends snd interrupted_bot"
    by (simp add: interrupted_bot_def recording_records)
  have lg: "?lg = sample_logger"
    by (simp add: service_logger_def sample_logger_def default_config_def)
  have silent: "log_outer interrupted_bot ?lg Info m meta ((w, v), running) = (Inr (), ((w, v), running))"
    if "no_bigints meta" for m meta w v running
  proof -
    have "sink interrupted_bot line v = v" for line v
      by (cases v) (simp add: interrupted_bot_def recording_def reference_solver_defs)
    from silent_log [OF this that] show ?thesis
      by (simp add: log_outer_def on_world_def lg)
  qed
  have late: "5 \<le> (9 :: nat)"
    by simp
  obtain y where y: "main_loop interrupted_bot default_config ?lg ex ((((9, 0), []), ?s), True) = Some y"
    using interrupted_loop [OF late service_logger_ok] by blast
  obtain q w1 v1 running where yq: "y = (q, ((w1, v1), running))"
    by (metis prod.exhaust)
  have "q = Inr ()"
    using main_loop_never_throws [OF service_logger_ok y] yq by simp
  with y yq silent have "main interrupted_bot minimal_env ((9, 0), []) = Some (Inr (), w1)"
    unfolding main_startup s sum.case prod.case
    by (simp add: pbind_def prun_def no_bigints_def split: option.split)
  with main_outcome [OF sent this] s show ?thesis
    by blast
qed

text \<open>(C30) One signal ends the process: if \<open>main\<close> can be set up and a signal is sent by the time \<open>T\<close>,
  then \<open>main\<close> returns with exit code 0, wherever the signal arrives (during a poll, the handling
  of a candidate or a pause), whatever the polls and the handling throw, and even if the server
  never tells what became of a transaction: the polling for it ends at its deadline.  The clock
  must be able to tell the deadlines set before the signal, each call takes a bounded time, and
  nothing is asked of what comes after the one signal.\<close>

theorem signal_ends_process:
  fixes clock :: "'w \<Rightarrow> nat"
  assumes "startup B env = Inr (cfg, s, ex)"
    and "calm_api (\<le>) clock B" and "\<forall>tx w. clock w \<le> clock (snd (send_tx B tx w))"
    and "tells_time clock B" and "calls_within D clock B"
    and "cfg_txTimeoutMs cfg = Fin (of_nat m)" and "T + 5 * D + m \<le> MAX_TIME"
    and "signal_by T clock taken B" and "\<not> taken w"
  shows "\<exists>r w'. main B env w = Some (r, w') \<and> exit_code r = 0"
proof -
  let ?lg = "service_logger cfg"
  note ok = service_logger_ok [of cfg]
  have mute: "mute_api (=) taken B"
    using assms(8) by (simp add: signal_by_def steady_mute)
  define meta where "meta = [(''rpcUrl'', JStr (cfg_rpcUrl cfg)), (''routerContractId'', JStr (cfg_routerContractId cfg)),
                (''solver'', JStr (solverAddress ex)),
                (''feed'', case cfg_intentFeedUrl cfg of Some u \<Rightarrow> JStr u | None \<Rightarrow> JNull),
                (''pollIntervalMs'', JNum (cfg_pollIntervalMs cfg)), (''dryRun'', JBool (cfg_dryRun cfg))]"
  have meta: "no_bigints meta"
    by (auto simp: meta_def no_bigints_def split: option.split)
  obtain w0 where w0: "log_outer B ?lg Info ''solver starting'' meta ((w, s), True) = (Inr (), ((w0, s), True))"
    using log_outer_ok [OF ok meta, of B Info "''solver starting''" w s True] by blast
  have "\<not> taken w0"
    using staysD [OF stays.log_outer_mute [OF mute] w0] assms(9) by simp
  moreover have "positive_integer (cfg_pollIntervalMs cfg)"
    using startup_config [OF assms(1)] by (simp add: config_ok_def)
  ultimately obtain y where y: "main_loop B cfg ?lg ex ((w0, s), True) = Some y"
    using signal_ends_main_loop [OF ok assms(2-5,8) _ assms(6,7)] by blast
  obtain q w1 s1 running where yq: "y = (q, ((w1, s1), running))"
    by (metis prod.exhaust)
  obtain w2 where w2: "log_outer B ?lg Info ''solver stopped'' [] ((w1, s1), running) = (Inr (), ((w2, s1), running))"
    using log_outer_ok [OF ok, of "[]" B Info "''solver stopped''" w1 s1 running] by (auto simp: no_bigints_def)
  have "q = Inr ()"
    using main_loop_never_throws [OF ok y] yq by simp
  then have "main B env w = Some (Inr (), w2)"
    using w0 y yq w2 unfolding main_startup assms(1) sum.case prod.case meta_def [symmetric]
    by (simp add: pbind_def prun_def)
  then show ?thesis
    by (simp add: exit_code_def)
qed

text \<open>A bot that is sent a single signal, at the time 5, on a network that never includes a
  transaction: the second part of the world tells whether the signal has been taken.\<close>

definition signalled_solver ::
  "(string, string, string, string, string, unit, clock_world) solver_api" where
  "signalled_solver = reference_solver\<lparr>
     get_tx := (\<lambda>h. aret \<lparr>tr_status = ''NOT_FOUND'', tr_ledger = None\<rparr>),
     take_signals := (\<lambda>(t, u). if 5 \<le> t \<and> u = 0 then ([''SIGINT''], (t, 1)) else ([], (t, u)))\<rparr>"

lemma signalled_solver_world:
  "calm_api (\<le>) fst signalled_solver" "\<forall>tx w. fst w \<le> fst (snd (send_tx signalled_solver tx w))"
  "tells_time fst signalled_solver" "calls_within 1 fst signalled_solver"
  "signal_by 5 fst (\<lambda>w. snd w \<noteq> 0) signalled_solver"
  by (auto simp: calm_api_def quiet_api_def tells_time_def calls_within_def signal_by_def steady_api_def
      mute_api_def signalled_solver_def reference_solver_defs aret_def)

lemma signalled_startup:
  obtains s ex where "startup signalled_solver minimal_env = Inr (default_config, s, ex)"
proof -
  have "\<exists>s. new_watcher signalled_solver default_config = Inr s"
    by (simp add: new_watcher_def signalled_solver_def reference_solver_defs default_config_def)
  moreover have "\<exists>ex. new_executor signalled_solver default_config None = Inr ex"
    by (simp add: new_executor_def new_client_def signalled_solver_def reference_solver_defs)
  ultimately show thesis
    using that by (auto simp: startup_def minimal_env_loads)
qed

theorem signal_ends_process_witness:
  "\<exists>r w'. main signalled_solver minimal_env (0, 0) = Some (r, w') \<and> exit_code r = 0"
proof (rule signalled_startup)
  fix s ex assume s: "startup signalled_solver minimal_env = Inr (default_config, s, ex)"
  have "cfg_txTimeoutMs default_config = Fin (of_nat 60000)"
    by (simp add: default_config_def)
  from signal_ends_process [OF s signalled_solver_world(1-4) this _ signalled_solver_world(5), of "(0, 0)"]
  show ?thesis
    by (simp add: MAX_TIME_def)
qed

end
