(* ===== verification/Publication.thy ===== *)
theory Publication
  imports Watcher
begin

section \<open>A published intent reaches the evaluator\<close>

text \<open>
  The other half of the watcher's promise: not only is what a poll returns valid, but a valid
  intent that a trader publishes is returned.  A feed lists an intent as the text of
  \<open>serializeIntent\<close> or as the object in it, by itself or under \<open>intent\<close>, there also with an
  authorization entry; its answer is the JSON text of that list, or of an object with the
  list under \<open>intents\<close>.  This joins the serializer of the SDK, the JSON text on the wire, the
  feed parser and the bookkeeping of the watcher.
\<close>

datatype listing = AsText | AsObject | Wrapped bool "string option"

record publication =
  pub_intent :: trader_intent
  pub_listing :: listing

text \<open>The intent as it stands in the feed: a text, or the object itself.\<close>

definition listed :: "bool \<Rightarrow> trader_intent \<Rightarrow> jsval" where
  "listed as_text i = (if as_text then JStr (serializeIntent i) else replace_bigints (intent_object i))"

definition feed_entry :: "publication \<Rightarrow> jsval" where
  "feed_entry p = (case pub_listing p of
       AsText \<Rightarrow> listed True (pub_intent p)
     | AsObject \<Rightarrow> listed False (pub_intent p)
     | Wrapped as_text auth \<Rightarrow> JObj ((''intent'', listed as_text (pub_intent p)) #
         (case auth of None \<Rightarrow> [] | Some a \<Rightarrow> [(''traderAuthEntry'', JStr a)])))"

fun given_auth :: "listing \<Rightarrow> string option" where
  "given_auth (Wrapped _ auth) = auth"
| "given_auth _ = None"

text \<open>The candidate a publication stands for, with its hash \<open>h\<close>.\<close>

definition candidate_of :: "publication \<Rightarrow> string \<Rightarrow> candidate_intent" where
  "candidate_of p h = \<lparr>ca_hash = h, ca_source = Feed, ca_intent = pub_intent p,
     ca_traderAuthEntry = given_auth (pub_listing p)\<rparr>"

lemma object_fields:
  "js_get (replace_bigints (intent_object i)) ''intent'' = Inr JUndef"
  "js_get (replace_bigints (intent_object i)) ''traderAuthEntry'' = Inr JUndef"
  by (simp_all add: intent_object_def obj_lookup_def)

lemma object_text:
  "replace_bigints (intent_object i) = JObj kvs \<Longrightarrow> json_stringify (JObj kvs) = Inr (Some (serializeIntent i))"
  using serializeIntent_is_stringify by metis

lemma object_is_object: "\<exists>kvs. replace_bigints (intent_object i) = JObj kvs"
  by (simp add: intent_object_def)

text \<open>A listed intent is neither \<open>null\<close> nor \<open>undefined\<close>, so \<open>??\<close> takes it as it is.\<close>

lemma listed_json:
  "(case listed as_text i of
      JStr s \<Rightarrow> Inr s
    | _ \<Rightarrow> rbind (json_stringify (listed as_text i))
        (\<lambda>t. Inr (case t of Some s \<Rightarrow> s | None \<Rightarrow> ''undefined''))) = Inr (serializeIntent i)"
  "nullish_or (listed as_text i) e = listed as_text i"
proof -
  obtain kvs where "replace_bigints (intent_object i) = JObj kvs"
    using object_is_object by blast
  with object_text [OF this] show
    "(case listed as_text i of
      JStr s \<Rightarrow> Inr s
    | _ \<Rightarrow> rbind (json_stringify (listed as_text i))
        (\<lambda>t. Inr (case t of Some s \<Rightarrow> s | None \<Rightarrow> ''undefined''))) = Inr (serializeIntent i)"
    "nullish_or (listed as_text i) e = listed as_text i"
    by (simp_all add: listed_def nullish_or_def)
qed

lemma feed_entry_fields:
  obtains field where "js_get (feed_entry p) ''intent'' = Inr field"
    and "\<exists>as_text. nullish_or field (feed_entry p) = listed as_text (pub_intent p)"
    and "\<exists>auth. js_get (feed_entry p) ''traderAuthEntry'' = Inr auth \<and>
      (case auth of JStr s \<Rightarrow> Some s | _ \<Rightarrow> None) = given_auth (pub_listing p)"
proof (cases "pub_listing p")
  case AsText
  then show thesis
    by (intro that [of JUndef]) (auto simp: feed_entry_def listed_def nullish_or_def)
next
  case AsObject
  then show thesis
    using object_fields [of "pub_intent p"]
    by (intro that [of JUndef]) (auto simp: feed_entry_def listed_def nullish_or_def)
next
  case (Wrapped as_text auth)
  then show thesis
    by (intro that [of "listed as_text (pub_intent p)"])
       (auto simp: feed_entry_def listed_json obj_lookup_def split: option.splits)
qed

lemma feed_entry_decodes:
  assumes "intent_valid (address_ok S) (pub_intent p)" and "is_double (deadline (pub_intent p))"
    and "hashIntent S (pub_intent p) = Inr h"
  shows "decode_entry S (feed_entry p) = Inr (candidate_of p h)"
proof -
  obtain field where f: "js_get (feed_entry p) ''intent'' = Inr field"
    and l: "\<exists>as_text. nullish_or field (feed_entry p) = listed as_text (pub_intent p)"
    and a: "\<exists>auth. js_get (feed_entry p) ''traderAuthEntry'' = Inr auth \<and>
      (case auth of JStr s \<Rightarrow> Some s | _ \<Rightarrow> None) = given_auth (pub_listing p)"
    by (rule feed_entry_fields)
  obtain as_text where l: "nullish_or field (feed_entry p) = listed as_text (pub_intent p)"
    using l by blast
  obtain auth where a: "js_get (feed_entry p) ''traderAuthEntry'' = Inr auth"
    "(case auth of JStr s \<Rightarrow> Some s | _ \<Rightarrow> None) = given_auth (pub_listing p)"
    using a by blast
  show ?thesis
    unfolding decode_entry_def f l rbind.simps(2) Let_def listed_json a(1) deserialize_serialized [OF assms(1,2)]
      assms(3) a(2) by (simp add: candidate_of_def)
qed
section \<open>The answer of the feed\<close>

definition feed_payload :: "bool \<Rightarrow> publication list \<Rightarrow> jsval" where
  "feed_payload bare ps = (let entries = JArr (map feed_entry ps) in
     if bare then entries else JObj [(''intents'', entries)])"

text \<open>An answer with this body: \<open>response.json()\<close> parses it.\<close>

definition answers :: "http_response \<Rightarrow> string \<Rightarrow> bool" where
  "answers response body \<longleftrightarrow> http_ok response \<and>
     (\<forall>v. json_parse body = Some v \<longrightarrow> http_json response = Inr v)"

text \<open>What can be published: a valid intent that JSON text can carry and that has a hash.\<close>

definition publishable :: "('sv, 'x) stellar_sdk_scheme \<Rightarrow> publication \<Rightarrow> bool" where
  "publishable S p \<longleftrightarrow> intent_valid (address_ok S) (pub_intent p) \<and> is_double (deadline (pub_intent p)) \<and>
     (\<exists>h. hashIntent S (pub_intent p) = Inr h)"

definition announced :: "('sv, 'x) stellar_sdk_scheme \<Rightarrow> publication \<Rightarrow> candidate_intent \<Rightarrow> bool" where
  "announced S p c \<longleftrightarrow> hashIntent S (pub_intent p) = Inr (ca_hash c) \<and> c = candidate_of p (ca_hash c)"

lemma listed_wf: "intent_valid a i \<Longrightarrow> is_double (deadline i) \<Longrightarrow> json_wf (listed as_text i)"
  using bps_ok_double serialized_object_wf [of i] by (auto simp: listed_def intent_valid_def)

lemma feed_entry_wf:
  assumes "publishable S p"
  shows "json_wf (feed_entry p)"
proof -
  have "json_wf (listed as_text (pub_intent p))" for as_text
    using assms listed_wf by (auto simp: publishable_def)
  then show ?thesis
    by (auto simp: feed_entry_def obj_puts_def obj_put_def array_index_def all_digits_def is_digit_def
        split: listing.split option.split)
qed

lemma feed_payload_wf: "\<forall>p \<in> set ps. publishable S p \<Longrightarrow> json_wf (feed_payload bare ps)"
  using feed_entry_wf
  by (auto simp: feed_payload_def Let_def list_all_iff obj_puts_def obj_put_def array_index_def
      all_digits_def is_digit_def)

lemma feed_payload_entries: "extractEntries (feed_payload bare ps) = map feed_entry ps"
  by (simp add: feed_payload_def Let_def obj_lookup_def)

lemma published_decoded:
  "\<forall>p \<in> set ps. publishable S p \<Longrightarrow> list_all2 (announced S) ps (decoded S (map feed_entry ps))"
proof (induction ps)
  case (Cons p ps)
  then obtain h where h: "hashIntent S (pub_intent p) = Inr h" and "decode_entry S (feed_entry p) = Inr (candidate_of p h)"
    using feed_entry_decodes [of S p] by (auto simp: publishable_def)
  then show ?case
    using Cons by (simp add: decoded_def announced_def candidate_of_def)
qed (simp add: decoded_def)

lemma pollFeed_published:
  assumes "no_bigints (log_bindings lg)" and "cfg_intentFeedUrl cfg = Some url"
    and "fetch_url B url w = (Inr response, w1)" and "answers response (json_text (feed_payload bare ps))"
    and "\<forall>p \<in> set ps. publishable B p"
  obtains cs w' where "pollFeed B cfg lg w = (Inr cs, w')" and "list_all2 (announced B) ps cs"
proof -
  have "http_ok response" "http_json response = Inr (feed_payload bare ps)"
    using assms(4) json_round_trip [OF feed_payload_wf [OF assms(5)]] by (auto simp: answers_def)
  then have "\<exists>w'. pollFeed B cfg lg w = (Inr (decoded B (map feed_entry ps)), w')"
    using assms(2,3) parseFeed_decodes [OF assms(1), of B "feed_payload bare ps" w1]
    by (auto simp: pollFeed_def abind_def acatch_def alift_def feed_payload_entries)
  with that published_decoded [OF assms(5)] show thesis
    by blast
qed

section \<open>A poll\<close>

text \<open>A server that answers the event queries.\<close>

definition events_answered ::
  "('sv, 'op, 'acct, 'tx, 'au, 'rest, 'w, 'x) bot_api_scheme \<Rightarrow> bool" where
  "events_answered B \<longleftrightarrow> (\<forall>w e w'. latest_ledger B w \<noteq> (Inl e, w')) \<and>
     (\<forall>l id n w e w'. get_events B l id n w \<noteq> (Inl e, w'))"

lemma always_returns:
  "(\<And>e w'. m w \<noteq> (Inl e, w')) \<Longrightarrow> \<exists>x w'. m w = (Inr x, w')"
  by (metis old.sum.exhaust surj_pair)

lemma afor_returns: "(\<And>x w. \<exists>w'. f x w = (Inr (), w')) \<Longrightarrow> \<exists>w'. afor xs f w = (Inr (), w')"
proof (induction xs arbitrary: w)
  case (Cons x xs)
  obtain w1 where "f x w = (Inr (), w1)"
    using Cons.prems by blast
  then show ?case
    using Cons.IH [OF Cons.prems, of w1] by (simp add: abind_def)
qed (simp add: aret_def)

lemma pollEvents_returns:
  assumes "events_answered B"
  shows "\<exists>es st'. pollEvents B cfg st = (Inr es, st')"
proof -
  obtain w s where st: "st = (w, s)"
    by (cases st)
  obtain n w1 where n: "latest_ledger B w = (Inr n, w1)"
    using always_returns [of "latest_ledger B" w] assms by (auto simp: events_answered_def)
  have "get_events B l (cfg_routerContractId cfg) 100 v \<noteq> (Inl e, v')" for l v e v'
    using assms by (simp add: events_answered_def)
  then show ?thesis
    unfolding st pollEvents_def
    by (cases "w_cursor s = Fin 0")
      (auto simp: get_watcher_def modify_watcher_def on_world_def abind_def aret_def n split: prod.splits sum.splits)
qed

lemma discover_published:
  assumes "no_bigints (log_bindings lg)" and "events_answered B"
    and "\<And>v. \<exists>cs v'. pollFeed B cfg lg v = (Inr cs, v') \<and> Q cs"
  shows "\<exists>cs st'. discover B cfg lg st = (Inr cs, st') \<and> Q cs"
proof -
  obtain es st1 where e: "pollEvents B cfg st = (Inr es, st1)"
    using pollEvents_returns [OF assms(2)] by blast
  let ?log = "\<lambda>ev. on_world (log_msg B lg Info ''router event observed''
        [(''ledger'', JNum (es_ledger ev)), (''name'', JStr (es_name ev)), (''txHash'', JStr (es_txHash ev))])"
  have "\<exists>st'. ?log ev v = (Inr (), st')" for ev v
  proof -
    obtain u s where v: "v = (u, s)"
      by (cases v)
    obtain u' where "log_msg B lg Info ''router event observed'' [(''ledger'', JNum (es_ledger ev)),
        (''name'', JStr (es_name ev)), (''txHash'', JStr (es_txHash ev))] u = (Inr (), u')"
      by (rule log_msg_ok [OF assms(1), where B = B and level = Info and w = u
        and msg = "''router event observed''" and meta = "[(''ledger'', JNum (es_ledger ev)),
        (''name'', JStr (es_name ev)), (''txHash'', JStr (es_txHash ev))]"]) (auto simp: no_bigints_def)
    then show ?thesis
      by (simp add: v on_world_def)
  qed
  then obtain st2 where f: "afor es ?log st1 = (Inr (), st2)"
    using afor_returns [of ?log es st1] by blast
  obtain w s where st2: "st2 = (w, s)"
    by (cases st2)
  obtain cs w' where "pollFeed B cfg lg w = (Inr cs, w')" "Q cs"
    using assms(3) by blast
  with e f st2 show ?thesis
    by (auto simp: discover_def abind_def on_world_def)
qed
lemma published_found:
  assumes "no_bigints (log_bindings lg)" and "events_answered B" and "cfg_intentFeedUrl cfg = Some url"
    and "\<forall>w. \<exists>response w'. fetch_url B url w = (Inr response, w') \<and>
      answers response (json_text (feed_payload bare ps))"
    and "\<forall>p \<in> set ps. publishable B p"
  shows "\<exists>fresh st'. watcher_poll B cfg lg (w, s) = (Inr fresh, st') \<and>
    (\<forall>p \<in> set ps. \<forall>h. hashIntent B (pub_intent p) = Inr h \<longrightarrow> h \<in> w_seen s \<or> h \<in> ca_hash ` set fresh) \<and>
    (\<forall>c \<in> set fresh. ca_hash c \<notin> w_seen s \<and> (\<exists>p \<in> set ps. announced B p c))"
proof -
  have "\<exists>cs v'. pollFeed B cfg lg v = (Inr cs, v') \<and> list_all2 (announced B) ps cs" for v
  proof -
    obtain response v1 where "fetch_url B url v = (Inr response, v1)"
      "answers response (json_text (feed_payload bare ps))"
      using assms(4) by blast
    from pollFeed_published [OF assms(1,3) this assms(5)] show ?thesis
      by blast
  qed
  from discover_published [OF assms(1,2) this] obtain cs st1 where d: "discover B cfg lg (w, s) = (Inr cs, st1)"
    and cs: "list_all2 (announced B) ps cs"
    by blast
  obtain w1 s1 where st1: "st1 = (w1, s1)"
    by (cases st1)
  have "w_seen s1 = w_seen s"
    using staysD [OF discover_seen d] by (simp add: st1 seen_of_def)
  moreover obtain fresh seen where f: "fresh_candidates (w_seen s) cs = (fresh, seen)"
    by fastforce
  ultimately have poll: "watcher_poll B cfg lg (w, s) = (Inr fresh, (w1, s1\<lparr>w_seen := seen\<rparr>))"
    using d by (simp add: watcher_poll_discover abind_def take_fresh_def st1)
  have hashes: "\<forall>p \<in> set ps. \<forall>h. hashIntent B (pub_intent p) = Inr h \<longrightarrow> h \<in> ca_hash ` set cs"
  proof (intro ballI allI impI)
    fix p h assume "p \<in> set ps" and h: "hashIntent B (pub_intent p) = Inr h"
    then obtain n where n: "n < length ps" "ps ! n = p"
      by (auto simp: in_set_conv_nth)
    then have "announced B p (cs ! n)" "cs ! n \<in> set cs"
      using list_all2_nthD [OF cs n(1)] list_all2_lengthD [OF cs] by auto
    then show "h \<in> ca_hash ` set cs"
      using h by (auto simp: announced_def)
  qed
  have pubs: "\<exists>p \<in> set ps. announced B p c" if c: "c \<in> set cs" for c
  proof -
    obtain n where "n < length cs" "cs ! n = c"
      using c by (auto simp: in_set_conv_nth)
    then show ?thesis
      using list_all2_nthD2 [OF cs, of n] list_all2_lengthD [OF cs] by (metis nth_mem)
  qed
  have all: "ca_hash ` set fresh = ca_hash ` set cs - w_seen s" and sub: "set fresh \<subseteq> set cs"
    using fresh_candidates_spec [OF f] by simp_all
  have "\<forall>p \<in> set ps. \<forall>h. hashIntent B (pub_intent p) = Inr h \<longrightarrow> h \<in> w_seen s \<or> h \<in> ca_hash ` set fresh"
    unfolding all using hashes by blast
  moreover have "\<forall>c \<in> set fresh. ca_hash c \<notin> w_seen s \<and> (\<exists>p \<in> set ps. announced B p c)"
    using all pubs sub by blast
  ultimately show ?thesis
    using poll by blast
qed

section \<open>Properties\<close>

text \<open>(C17) A published intent is found: whatever valid intents a feed lists, as texts or objects, by
  themselves or wrapped, a poll that gets the feed's JSON and its event queries answered
  returns every one of them that was not seen before, under the hash the SDK gives it, with
  the authorization entry published with it, and nothing else.\<close>

theorem published_intents_found:
  assumes "no_bigints (log_bindings lg)" and "events_answered B" and "cfg_intentFeedUrl cfg = Some url"
    and "\<forall>w. \<exists>response w'. fetch_url B url w = (Inr response, w') \<and>
      answers response (json_text (feed_payload bare ps))"
    and "\<forall>p \<in> set ps. publishable B p"
  shows "\<exists>fresh st'. watcher_poll B cfg lg (w, s) = (Inr fresh, st') \<and>
    (\<forall>p \<in> set ps. \<forall>h. hashIntent B (pub_intent p) = Inr h \<longrightarrow> h \<in> w_seen s \<or> h \<in> ca_hash ` set fresh) \<and>
    (\<forall>c \<in> set fresh. ca_hash c \<notin> w_seen s \<and> (\<exists>p \<in> set ps. announced B p c))"
  using assms by (rule published_found)

text \<open>A feed that lists the sample intent as an object and as a wrapped text.\<close>

definition sample_publications :: "publication list" where
  "sample_publications =
     [\<lparr>pub_intent = sample_intent, pub_listing = AsObject\<rparr>,
      \<lparr>pub_intent = sample_intent, pub_listing = Wrapped True (Some ''AA'')\<rparr>]"

definition published_bot ::
  "(string, string, string, string, string, unit, clock_world) bot_api" where
  "published_bot = reference_bot\<lparr>fetch_url := (\<lambda>_. aret \<lparr>http_ok = True, http_status = Fin 200,
     http_json = from_option (SyntaxError ''Unexpected token'')
       (json_parse (json_text (feed_payload False sample_publications)))\<rparr>)\<rparr>"

lemma published_bot_sdk:
  "address_ok published_bot = (\<lambda>a. a \<noteq> [])" "hashIntent published_bot i = hashIntent reference_sdk i"
proof -
  have "hashIntent published_bot i = hashIntent reference_bot i"
    by (simp add: hashIntent_def intentDigest_def intentToScVal_def byField_def scval_defs published_bot_def)
  then show "hashIntent published_bot i = hashIntent reference_sdk i"
    by simp
  have "address_ok published_bot = address_ok reference_bot"
    by (simp add: published_bot_def)
  then show "address_ok published_bot = (\<lambda>a. a \<noteq> [])"
    by simp
qed

lemma sample_hash: "\<exists>h. hashIntent reference_sdk sample_intent = Inr h"
  using sample_entry_decodes by blast

theorem published_intents_found_witness:
  "\<exists>fresh c st'. watcher_poll published_bot feed_config sample_logger ((0, 0), \<lparr>w_seen = {}, w_cursor = Fin 0\<rparr>)
      = (Inr fresh, st') \<and> c \<in> set fresh \<and> ca_intent c = sample_intent"
proof -
  let ?s = "\<lparr>w_seen = {}, w_cursor = Fin 0\<rparr>"
  have d: "is_double (deadline sample_intent)"
    by (simp only: sample_intent_def trader_intent.simps) (rule is_double_of_int, simp)
  have pubs: "\<forall>p \<in> set sample_publications. publishable published_bot p"
    using sample_intent_valid d sample_hash
    by (auto simp: sample_publications_def publishable_def published_bot_sdk)
  have events: "events_answered published_bot"
    by (simp add: events_answered_def published_bot_def reference_bot_def clock_api_def chain_api.defs aret_def)
  have feed: "\<forall>w. \<exists>response w'. fetch_url published_bot ''http://feed'' w = (Inr response, w') \<and>
      answers response (json_text (feed_payload False sample_publications))"
    by (simp add: published_bot_def aret_def answers_def)
  have url: "cfg_intentFeedUrl feed_config = Some ''http://feed''"
    by (simp add: feed_config_def)
  obtain h where h: "hashIntent published_bot sample_intent = Inr h"
    using sample_hash by (auto simp: published_bot_sdk)
  obtain fresh st' where poll: "watcher_poll published_bot feed_config sample_logger ((0, 0), ?s) = (Inr fresh, st')"
    and found: "\<forall>p \<in> set sample_publications. \<forall>h. hashIntent published_bot (pub_intent p) = Inr h \<longrightarrow>
      h \<in> w_seen ?s \<or> h \<in> ca_hash ` set fresh"
    and from_feed: "\<forall>c \<in> set fresh. \<exists>p \<in> set sample_publications. announced published_bot p c"
    using published_intents_found [OF sample_logger_ok events url feed pubs, of "(0, 0)" ?s] by blast
  from found h obtain c where "c \<in> set fresh"
    by (auto simp: sample_publications_def)
  moreover from this from_feed have "ca_intent c = sample_intent"
    by (auto simp: sample_publications_def announced_def candidate_of_def)
       (metis candidate_intent.select_convs(3))+
  ultimately show ?thesis
    using poll by blast
qed

end
