(* ===== verification/Liveness.thy ===== *)
theory Liveness
  imports Submissions Publication
begin

section \<open>A profitable intent is filled\<close>

text \<open>
  The bot does its job: outside a dry run, a candidate that is profitable when it is judged is
  prepared, signed and sent, as long as the RPC server answers and the Stellar SDK builds
  what it is asked to.  \<open>Publication\<close> says that a published intent becomes a candidate; this
  theory says what becomes of the candidate.
\<close>

text \<open>A server and a library that refuse nothing.\<close>

definition willing ::
  "('sv, 'op, 'acct, 'tx, 'au, 'rest, 'w, 'x) solver_api_scheme \<Rightarrow> bool" where
  "willing B \<longleftrightarrow>
     (\<forall>k w. \<exists>acct w'. get_account B k w = (Inr acct, w')) \<and>
     (\<forall>tx w. \<exists>res rest w'. simulate_tx B tx w = (Inr (SimulationSuccess res rest), w')) \<and>
     (\<forall>acct fee n op t. \<exists>tx. build_tx B acct fee n op t = Inr tx) \<and>
     (\<forall>tx sim. \<exists>tx'. assemble_tx B tx sim = Inr tx')"

lemma willing_prepares:
  assumes "willing B" and "buildExecuteIntentOperation B cl (kp_publicKey (ep_solver p)) (ep_intent p)
      (ep_actualBuyAmount p) = Inr op"
  shows "\<exists>tx w'. prepareExecuteIntent B cl p w = (Inr tx, w')"
proof -
  obtain acct w1 where a: "get_account B (kp_publicKey (ep_solver p)) w = (Inr acct, w1)"
    using assms(1) unfolding willing_def by blast
  obtain raw where b: "buildTransaction B cl acct op (case ep_fee p of Some f \<Rightarrow> f | None \<Rightarrow> base_fee B) = Inr raw"
    using assms(1) unfolding willing_def buildTransaction_def by blast
  obtain res rest w2 where s: "simulate_tx B raw w1 = (Inr (SimulationSuccess res rest), w2)"
    using assms(1) unfolding willing_def by blast
  obtain tx where "assemble_tx B raw (withAuth (ep_authEntries p) (SimulationSuccess res rest)) = Inr tx"
    using assms(1) unfolding willing_def by blast
  with a b s assms(2) show ?thesis
    by (simp add: prepareExecuteIntent_def abind_def alift_def aret_def)
qed

text \<open>The intent's own encoding has already encoded the amount the bot offers.\<close>

lemma hashed_operation:
  assumes "hashIntent B i = Inr h" and "address_scval B k = Inr v"
  shows "\<exists>op. buildExecuteIntentOperation B cl k i (minBuyAmount i) = Inr op"
proof -
  obtain enc where enc: "intentToScVal B i = Inr enc"
    using assms(1) by (auto simp: hashIntent_def intentDigest_def result_simps)
  then obtain fs where "byField B i = Inr fs"
    by (auto simp: intentToScVal_def result_simps)
  from byField_entries(5) [OF this] enc assms(2) show ?thesis
    by (simp add: buildExecuteIntentOperation_def)
qed

text \<open>What is left after the send: polling for the outcome, which may not end.\<close>

lemma submit_or_wait:
  assumes "records_sends sub B"
  shows "case submitTransaction B tx t w of
      Some (r, w') \<Rightarrow> sub w' = sub w @ [tx]
    | None \<Rightarrow> \<exists>h v. sub v = sub w @ [tx] \<and> poll B h t v = None"
proof (cases "submitTransaction B tx t w")
  case None
  obtain x w1 where s: "send_tx B tx w = (x, w1)"
    by fastforce
  moreover have "sub w1 = sub w @ [tx]"
    using assms s by (metis records_sends_def snd_conv)
  ultimately show ?thesis
    using None by (cases x) (auto simp: submitTransaction_def split: if_splits)
next
  case (Some y)
  then show ?thesis
    using submit_sends_one [OF assms, of tx t w "fst y" "snd y"] by (simp add: split_beta)
qed

lemma execute_submits:
  assumes "records_sends sub B" and "willing B" and "no_bigints (log_bindings lg)" and "\<not> cfg_dryRun cfg"
    and "decodeAuthEntries B (ca_traderAuthEntry c) = Inr auth" and "hashIntent B (ca_intent c) = Inr h"
    and "address_scval B (solverAddress ex) = Inr v"
  shows "\<exists>tx w1 w2. prepareExecuteIntent B (ex_client ex)
      (fill_params cfg ex c (minBuyAmount (ca_intent c)) auth) w1 = (Inr tx, w2) \<and>
    (case execute B cfg lg ex c (minBuyAmount (ca_intent c)) w of
       Some (r, w') \<Rightarrow> sub w' = sub w @ [tx]
     | None \<Rightarrow> \<exists>h v. sub v = sub w @ [tx] \<and> poll B h (Some (cfg_txTimeoutMs cfg)) v = None)"
proof -
  let ?p = "fill_params cfg ex c (minBuyAmount (ca_intent c)) auth"
  have log: "sub v' = sub u" if "log_msg B lg l m meta u = (x, v')" for l m meta u x v'
    by (rule staysD [OF stays.log_keeps [OF records_quiet [OF assms(1)]] that])
  obtain op where "buildExecuteIntentOperation B (ex_client ex) (kp_publicKey (ep_solver ?p)) (ep_intent ?p)
      (ep_actualBuyAmount ?p) = Inr op"
    using hashed_operation [OF assms(6,7)] by (auto simp: fill_params_def solverAddress_def)
  then obtain tx w1 where prep: "prepareExecuteIntent B (ex_client ex) ?p w = (Inr tx, w1)"
    using willing_prepares [OF assms(2)] by blast
  then have w1: "sub w1 = sub w"
    by (rule staysD [OF prepare_sends_nothing [OF assms(1)]])
  let ?meta = "[(''hash'', JStr (ca_hash c))]"
  obtain w2 where l: "log_msg B lg Info ''submitting fill'' ?meta w1 = (Inr (), w2)"
    by (rule log_msg_ok [OF assms(3), where B = B and level = Info and w = w1 and msg = "''submitting fill''"
      and meta = ?meta]) (auto simp: no_bigints_def)
  have w2: "sub w2 = sub w"
    using log [OF l] w1 by simp
  define settled where "settled = (\<lambda>res :: submit_result. pbind (prun (log_msg B lg Info ''fill settled''
            [(''hash'', JStr (ca_hash c)), (''status'', JStr (submit_status_name (sr_status res))),
             (''ledger'', case sr_ledger res of Some l \<Rightarrow> JNum l | None \<Rightarrow> JUndef)]))
        (\<lambda>_. prun (aret (Some res))))"
  have settled: "\<exists>x v'. settled res u = Some (x, v') \<and> sub v' = sub u" for res u
  proof -
    obtain x v' where "log_msg B lg Info ''fill settled''
            [(''hash'', JStr (ca_hash c)), (''status'', JStr (submit_status_name (sr_status res))),
             (''ledger'', case sr_ledger res of Some l \<Rightarrow> JNum l | None \<Rightarrow> JUndef)] u = (x, v')"
      by fastforce
    with log [OF this] show ?thesis
      by (cases x) (simp_all add: settled_def pbind_def prun_def aret_def)
  qed
  have run: "execute B cfg lg ex c (minBuyAmount (ca_intent c)) w =
      pbind (submitTransaction B tx (Some (cfg_txTimeoutMs cfg))) settled w2"
    using assms(4,5) prep l by (simp add: execute_def settled_def pbind_def prun_def alift_def)
  have "case execute B cfg lg ex c (minBuyAmount (ca_intent c)) w of
       Some (r, w') \<Rightarrow> sub w' = sub w @ [tx]
     | None \<Rightarrow> \<exists>h v. sub v = sub w @ [tx] \<and> poll B h (Some (cfg_txTimeoutMs cfg)) v = None"
  proof (cases "submitTransaction B tx (Some (cfg_txTimeoutMs cfg)) w2")
    case None
    then show ?thesis
      using submit_or_wait [OF assms(1), where tx = tx and t = "Some (cfg_txTimeoutMs cfg)" and w = w2] w2
      by (simp add: run pbind_def)
  next
    case (Some y)
    obtain r w3 where y: "y = (r, w3)"
      by (cases y)
    have "sub w3 = sub w @ [tx]"
      using submit_sends_one [OF assms(1)] Some y w2 by simp
    then show ?thesis
      using Some y settled [of "projr r" w3] by (cases r) (auto simp: run pbind_def)
  qed
  with prep show ?thesis
    by blast
qed

lemma handle_submits:
  assumes "records_sends sub B" and "willing B" and "no_bigints (log_bindings lg)" and "\<not> cfg_dryRun cfg"
    and "intent_valid (address_ok B) (ca_intent c)" and "hashIntent B (ca_intent c) = Inr (ca_hash c)"
    and "decodeAuthEntries B (ca_traderAuthEntry c) = Inr auth" and "address_scval B (solverAddress ex) = Inr v"
    and "evaluateFromPrices (date_now B w) (ca_intent c) (minBuyAmount (ca_intent c)) (cfg_tokenPrices cfg)
      (cfg_txCost cfg) (cfg_minProfit cfg) None = Inr e" and "er_profitable e"
  shows "\<exists>tx. fill_of B cfg ex tx c \<and>
    (case handle B cfg lg ex c w of
       Some (r, w') \<Rightarrow> sub w' = sub w @ [tx]
     | None \<Rightarrow> \<exists>h v. sub v = sub w @ [tx] \<and> poll B h (Some (cfg_txTimeoutMs cfg)) v = None)"
proof -
  let ?meta = "[(''hash'', JStr (ca_hash c)), (''source'', JStr (source_name (ca_source c))),
          (''profitable'', JBool (er_profitable e)), (''reason'', JStr (er_reason e)),
          (''netProfit'', JStr (bigint_to_string (er_netProfit e))),
          (''fillAmount'', JStr (bigint_to_string (er_fillAmount e)))]"
  obtain w1 where l: "log_msg B lg Info ''evaluated intent'' ?meta w = (Inr (), w1)"
    by (rule log_msg_ok [OF assms(3), where B = B and level = Info and w = w and msg = "''evaluated intent''"
      and meta = ?meta]) (auto simp: no_bigints_def)
  have w1: "sub w1 = sub w"
    by (rule staysD [OF stays.log_keeps [OF records_quiet [OF assms(1)]] l])
  have amount: "er_fillAmount e = minBuyAmount (ca_intent c)"
    using assms(9) by (rule evaluation_amount)
  let ?execute = "execute B cfg lg ex c (minBuyAmount (ca_intent c))"
  have run: "handle B cfg lg ex c w = pbind ?execute (\<lambda>_. prun (aret ())) w1"
    using assms(9,10) l by (simp add: handle_def pbind_def prun_def amount)
  obtain tx u1 u2 where prep: "prepareExecuteIntent B (ex_client ex)
      (fill_params cfg ex c (minBuyAmount (ca_intent c)) auth) u1 = (Inr tx, u2)"
    and sent: "case ?execute w1 of
       Some (r, w') \<Rightarrow> sub w' = sub w1 @ [tx]
     | None \<Rightarrow> \<exists>h v. sub v = sub w1 @ [tx] \<and> poll B h (Some (cfg_txTimeoutMs cfg)) v = None"
    using execute_submits [OF assms(1-4,7,6,8)] by blast
  have "fill_of B cfg ex tx c"
    unfolding fill_of_def using assms(4-7,9,10) prep by blast
  moreover have "case handle B cfg lg ex c w of
       Some (r, w') \<Rightarrow> sub w' = sub w @ [tx]
     | None \<Rightarrow> \<exists>h v. sub v = sub w @ [tx] \<and> poll B h (Some (cfg_txTimeoutMs cfg)) v = None"
    using sent w1 by (auto simp: run pbind_def prun_def aret_def split: option.splits sum.splits)
  ultimately show ?thesis
    by blast
qed
section \<open>Properties\<close>

text \<open>(C15) A profitable candidate is submitted: outside a dry run, when the server refuses nothing and
  the library builds what it is asked to, handling a candidate of the watcher whose fill of the
  minimum amount is judged profitable returns, and sends exactly one transaction on the way,
  the prepared and signed fill of that candidate.  The router's status of the intent is not asked
  for before it.  That the call returns rests on the deadline of the polling: the server may
  never answer, but the clock must be able to tell the deadline when it is set.\<close>

theorem profitable_candidate_submitted:
  assumes "records_sends sub B" and "willing B" and "no_bigints (log_bindings lg)" and "\<not> cfg_dryRun cfg"
    and "intent_valid (address_ok B) (ca_intent c)" and "hashIntent B (ca_intent c) = Inr (ca_hash c)"
    and "decodeAuthEntries B (ca_traderAuthEntry c) = Inr auth" and "address_scval B (solverAddress ex) = Inr v"
    and "evaluateFromPrices (date_now B w) (ca_intent c) (minBuyAmount (ca_intent c)) (cfg_tokenPrices cfg)
      (cfg_txCost cfg) (cfg_minProfit cfg) None = Inr e" and "er_profitable e"
    and "tells_time clock B" and "calls_within D clock B" and "cfg_txTimeoutMs cfg = Fin (of_nat m)"
    and "clock w + 5 * D + m \<le> MAX_TIME"
  shows "\<exists>tx r w'. fill_of B cfg ex tx c \<and> handle B cfg lg ex c w = Some (r, w') \<and> sub w' = sub w @ [tx]"
proof -
  obtain r w' where "handle B cfg lg ex c w = Some (r, w')"
    using handle_in_time [OF assms(11-14)] by fastforce
  then show ?thesis
    using handle_submits [OF assms(1-10)] by auto
qed

lemma reference_solver_hash: "hashIntent reference_solver i = hashIntent reference_sdk i"
  by (simp add: hashIntent_def intentDigest_def intentToScVal_def byField_def scval_defs reference_solver_defs
      reference_sdk_def)

lemma recorded_hash: "hashIntent recorded_bot i = hashIntent reference_sdk i"
  unfolding reference_solver_hash [symmetric]
  unfolding hashIntent_def intentDigest_def recorded_bot_def encode_recording encode_signals
  by (simp add: recording_def)

lemma recorded_willing: "willing recorded_bot"
  by (auto simp: willing_def recorded_bot_def recording_def beside_def on_world_def aret_def
      reference_solver_defs reference_sdk_def)

lemma recorded_time:
  "tells_time (\<lambda>w. fst (fst w)) recorded_bot" "calls_within 1 (\<lambda>w. fst (fst w)) recorded_bot"
  by (auto simp: tells_time_def calls_within_def recorded_bot_def recording_def beside_def on_world_def
      reference_solver_defs aret_def)

theorem profitable_candidate_submitted_witness:
  "\<exists>c tx. ca_intent c = sample_intent \<and> fill_of recorded_bot priced_config sample_executor tx c \<and>
     (\<exists>r w'. handle recorded_bot priced_config sample_logger sample_executor c ((1000000, 0), []) = Some (r, w') \<and>
        snd w' = [tx])"
proof -
  obtain h where h: "hashIntent recorded_bot sample_intent = Inr h"
    using sample_hash by (auto simp: recorded_hash)
  define c where "c = \<lparr>ca_hash = h, ca_source = Feed, ca_intent = sample_intent, ca_traderAuthEntry = None\<rparr>"
  obtain e where e: "evaluateFromPrices (Fin 1000000) sample_intent 990
      (cfg_tokenPrices priced_config) 0 0 None = Inr e" "er_profitable e"
    by (rule sample_evaluation)
  have cfg: "\<not> cfg_dryRun priced_config" "cfg_txCost priced_config = 0" "cfg_minProfit priced_config = 0"
    "cfg_txTimeoutMs priced_config = Fin 60000"
    by (simp_all add: priced_config_def feed_config_def default_config_def)
  have bot: "records_sends snd recorded_bot" "address_ok recorded_bot = (\<lambda>a. a \<noteq> [])"
    "address_scval recorded_bot = Inr" "date_now recorded_bot ((1000000, 0), []) = Fin 1000000"
    by (simp_all add: recorded_bot_def recording_records,
        simp_all add: recording_def reference_solver_defs reference_sdk_def)
  have "minBuyAmount sample_intent = 990"
    by (simp add: sample_intent_def)
  then have eval: "evaluateFromPrices (date_now recorded_bot ((1000000, 0), [])) (ca_intent c)
      (minBuyAmount (ca_intent c)) (cfg_tokenPrices priced_config) (cfg_txCost priced_config)
      (cfg_minProfit priced_config) None = Inr e"
    using e(1) by (simp add: c_def bot cfg)
  have c: "intent_valid (address_ok recorded_bot) (ca_intent c)" "hashIntent recorded_bot (ca_intent c) = Inr (ca_hash c)"
    "decodeAuthEntries recorded_bot (ca_traderAuthEntry c) = Inr []"
    "address_scval recorded_bot (solverAddress sample_executor) = Inr (solverAddress sample_executor)"
    using sample_intent_valid h by (simp_all add: c_def bot decodeAuthEntries_def)
  have timeout: "cfg_txTimeoutMs priced_config = Fin (of_nat 60000)"
    by (simp add: cfg)
  have soon: "fst (fst ((1000000 :: nat, 0 :: nat), [] :: string list)) + 5 * 1 + 60000 \<le> MAX_TIME"
    by (simp add: MAX_TIME_def)
  from profitable_candidate_submitted [OF bot(1) recorded_willing sample_logger_ok cfg(1) c eval e(2)
      recorded_time timeout soon]
  obtain tx r w' where "fill_of recorded_bot priced_config sample_executor tx c" "snd w' = [tx]"
    "handle recorded_bot priced_config sample_logger sample_executor c ((1000000, 0), []) = Some (r, w')"
    by auto
  moreover have "ca_intent c = sample_intent"
    by (simp add: c_def)
  ultimately show ?thesis
    by blast
qed

end
