(* ===== verification/RustCore.thy ===== *)
theory RustCore
  imports JsNumber Effects "HOL-Library.Word"
begin

section \<open>Contracts: integers, failures, storage\<close>

text \<open>
  What the two Soroban contracts use of Rust and of the host.  An \<open>i128\<close> is a 128-bit word
  read as a signed integer; the checked operations give \<open>None\<close> on overflow, and plain
  \<open>+\<close> and \<open>-\<close> trap, because the release profile of Cargo.toml keeps overflow checks on.
  A call ends with a value, an error code (\<open>Fail\<close>) or a trap, and the host undoes the
  effects of a failed call.
\<close>

type_synonym i128 = "128 word"
type_synonym u64 = "64 word"
type_synonym u32 = "32 word"

definition i128_range :: "int \<Rightarrow> bool" where
  "i128_range n \<longleftrightarrow> - (2 ^ 127) \<le> n \<and> n < 2 ^ 127"

definition to_i128 :: "int \<Rightarrow> i128 option" where
  "to_i128 n = (if i128_range n then Some (word_of_int n) else None)"

definition checked_add :: "i128 \<Rightarrow> i128 \<Rightarrow> i128 option" where
  "checked_add a b = to_i128 (sint a + sint b)"

definition checked_sub :: "i128 \<Rightarrow> i128 \<Rightarrow> i128 option" where
  "checked_sub a b = to_i128 (sint a - sint b)"

definition checked_mul :: "i128 \<Rightarrow> i128 \<Rightarrow> i128 option" where
  "checked_mul a b = to_i128 (sint a * sint b)"

definition checked_div :: "i128 \<Rightarrow> i128 \<Rightarrow> i128 option" where
  "checked_div a b = (if sint b = 0 then None else to_i128 (trunc_div (sint a) (sint b)))"

text \<open>\<open>x as i128\<close> of a \<open>u32\<close>.\<close>

definition u32_as_i128 :: "u32 \<Rightarrow> i128" where
  "u32_as_i128 x = word_of_int (uint x)"

lemma sint_range: "i128_range (sint (a :: i128))"
  using sint_greater_eq [of a] sint_lt [of a] by (simp add: i128_range_def)

lemma sint_of_range [simp]: "i128_range n \<Longrightarrow> sint (word_of_int n :: i128) = n"
  by (simp add: i128_range_def sint_sbintrunc' signed_take_bit_int_eq_self)

lemma to_i128_Some: "to_i128 n = Some w \<longleftrightarrow> i128_range n \<and> w = word_of_int n"
  by (auto simp: to_i128_def)

lemma to_i128_sint: "to_i128 n = Some w \<Longrightarrow> sint w = n"
  by (auto simp: to_i128_Some)

lemma u32_as_i128_sint [simp]: "sint (u32_as_i128 x) = uint x"
proof -
  have "0 \<le> uint x" and "uint x < 4294967296"
    using uint_lt2p [of x] by simp_all
  moreover have "- (2 ^ 127) \<le> (0 :: int)" "(4294967296 :: int) < 2 ^ 127"
    by simp_all
  ultimately have "i128_range (uint x)"
    unfolding i128_range_def by linarith
  then show ?thesis
    by (simp only: u32_as_i128_def sint_of_range)
qed

subsection \<open>Failures\<close>

datatype 'e failure = Trap string | Fail 'e

text \<open>\<open>option.ok_or(e)?\<close> and the panic of an overflowing operator.\<close>

definition ok_or :: "'e \<Rightarrow> 'a option \<Rightarrow> 'e failure + 'a" where
  "ok_or e x = from_option (Fail e) x"

definition or_trap :: "string \<Rightarrow> 'a option \<Rightarrow> 'e failure + 'a" where
  "or_trap m x = from_option (Trap m) x"

lemma ok_or_trap_eq [result_simps]:
  "ok_or e x = Inr y \<longleftrightarrow> x = Some y"
  "or_trap m x = Inr y \<longleftrightarrow> x = Some y"
  by (simp_all add: ok_or_def or_trap_def result_simps)

text \<open>A call reads and writes the contract's state; \<open>return Err(e)\<close> and a panic end it.\<close>

definition state_read :: "('h \<Rightarrow> 'a) \<Rightarrow> 'h \<Rightarrow> ('f + 'a) \<times> 'h" where
  "state_read f = (\<lambda>h. (Inr (f h), h))"

definition state_write :: "('h \<Rightarrow> 'h) \<Rightarrow> 'h \<Rightarrow> ('f + unit) \<times> 'h" where
  "state_write f = (\<lambda>h. (Inr (), f h))"

definition panic :: "string \<Rightarrow> 'h \<Rightarrow> ('e failure + 'a) \<times> 'h" where
  "panic m = alift (Inl (Trap m))"

definition reject_if :: "bool \<Rightarrow> 'e \<Rightarrow> 'h \<Rightarrow> ('e failure + unit) \<times> 'h" where
  "reject_if b e = alift (if b then Inl (Fail e) else Inr ())"

lemma state_eqs:
  "state_read f h = (r, h') \<longleftrightarrow> r = Inr (f h) \<and> h' = h"
  "state_write g h = (s, h') \<longleftrightarrow> s = Inr () \<and> h' = g h"
  "panic m h = (q, h') \<longleftrightarrow> q = Inl (Trap m) \<and> h' = h"
  "reject_if b e h = (p, h') \<longleftrightarrow> p = (if b then Inl (Fail e) else Inr ()) \<and> h' = h"
  by (auto simp: state_read_def state_write_def panic_def reject_if_def alift_def)

text \<open>
  The ledger a call runs in.  An address authorises an invocation: one function of one
  contract with these very arguments.  \<open>env_auths\<close> has the invocations that the entries of
  the transaction authorise, sub-invocations included, and \<open>env_invoker\<close> is the contract that
  called this one directly, which needs no entry.
\<close>

datatype call_arg =
    AddressArg string
  | I128Arg i128
  | U32Arg u32
  | U64Arg u64
  | TextArg string
  | StructArg "(string \<times> call_arg) list"

record invocation =
  inv_contract :: string
  inv_function :: string
  inv_args :: "call_arg list"

record call_env =
  env_timestamp :: u64
  env_sequence :: nat
  env_min_ttl :: nat
  env_auths :: "(string \<times> invocation) set"
  env_invoker :: "string option"
  env_contract :: string

definition authorised :: "call_env \<Rightarrow> string \<Rightarrow> string \<Rightarrow> call_arg list \<Rightarrow> bool" where
  "authorised env a f args \<longleftrightarrow> env_invoker env = Some a \<or>
     (a, \<lparr>inv_contract = env_contract env, inv_function = f, inv_args = args\<rparr>) \<in> env_auths env"

text \<open>The arguments of a SEP-41 transfer, as an authorisation names them.\<close>

definition transfer_args :: "string \<Rightarrow> string \<Rightarrow> i128 \<Rightarrow> call_arg list" where
  "transfer_args from to amount = [AddressArg from, AddressArg to, I128Arg amount]"

text \<open>\<open>a.require_auth()\<close> in the body of function \<open>f\<close>, called with \<open>args\<close>.\<close>

definition require_auth ::
  "call_env \<Rightarrow> string \<Rightarrow> call_arg list \<Rightarrow> string \<Rightarrow> 'h \<Rightarrow> ('e failure + unit) \<times> 'h" where
  "require_auth env f args a =
     alift (if authorised env a f args then Inr () else Inl (Trap ''authorization missing''))"

lemma require_auth_eq:
  "require_auth env f args a h = (r, h') \<longleftrightarrow>
     r = (if authorised env a f args then Inr () else Inl (Trap ''authorization missing'')) \<and> h' = h"
  by (auto simp: require_auth_def alift_def)

lemmas call_eqs = action_eqs state_eqs require_auth_eq

text \<open>A top-level invocation: a failed call leaves the state as it was.\<close>

definition invoke :: "('h \<Rightarrow> ('f + 'a) \<times> 'h) \<Rightarrow> 'h \<Rightarrow> ('f + 'a) \<times> 'h" where
  "invoke m h = (case m h of (Inl f, _) \<Rightarrow> (Inl f, h) | (Inr x, h') \<Rightarrow> (Inr x, h'))"

lemma invoke_ok: "invoke m h = (Inr x, h') \<longleftrightarrow> m h = (Inr x, h')"
  by (auto simp: invoke_def split: prod.split sum.split)

lemma invoke_failed: "invoke m h = (Inl f, h') \<longleftrightarrow> h' = h \<and> (\<exists>h1. m h = (Inl f, h1))"
  by (auto simp: invoke_def split: prod.split sum.split)

subsection \<open>Persistent storage\<close>

text \<open>
  An entry is a value and the ledger it lives until.  A new entry lives for the host's
  minimum; \<open>extend_ttl\<close> prolongs a life that is shorter than the threshold.  An expired
  entry is archived, not lost: it must be restored before a call can touch it, so a read
  never sees it absent.
\<close>

type_synonym ('k, 'v) storage = "'k \<Rightarrow> ('v \<times> nat) option"

definition st_get :: "('k, 'v) storage \<Rightarrow> 'k \<Rightarrow> 'v option" where
  "st_get s k = map_option fst (s k)"

definition st_set :: "call_env \<Rightarrow> 'k \<Rightarrow> 'v \<Rightarrow> ('k, 'v) storage \<Rightarrow> ('k, 'v) storage" where
  "st_set env k v s = s(k \<mapsto> (v, case s k of
       Some (_, life) \<Rightarrow> life | None \<Rightarrow> env_sequence env + env_min_ttl env))"

definition st_extend :: "call_env \<Rightarrow> 'k \<Rightarrow> nat \<Rightarrow> nat \<Rightarrow> ('k, 'v) storage \<Rightarrow> ('k, 'v) storage" where
  "st_extend env k threshold extend_to s = (case s k of
       None \<Rightarrow> s
     | Some (v, life) \<Rightarrow>
         if life < env_sequence env + threshold then s(k \<mapsto> (v, env_sequence env + extend_to)) else s)"

text \<open>The interface of the storage: writing is a map update, and extending changes no value.\<close>

locale kv_store =
  fixes get :: "'s \<Rightarrow> 'k \<Rightarrow> 'v option"
    and set :: "'k \<Rightarrow> 'v \<Rightarrow> 's \<Rightarrow> 's"
    and extend :: "'k \<Rightarrow> 's \<Rightarrow> 's"
  assumes get_set: "get (set k v s) = (get s)(k \<mapsto> v)"
    and get_extend: "get (extend k s) = get s"
begin

lemma get_write: "get (extend k (set k v s)) = (get s)(k \<mapsto> v)"
  by (simp add: get_set get_extend)

end

sublocale kv_store \<subseteq> property_map set get
  by unfold_locales (rule get_set)

interpretation host: kv_store st_get "st_set env" "\<lambda>k. st_extend env k threshold extend_to"
  for env :: call_env and threshold extend_to :: nat
  by unfold_locales
     (auto simp: st_get_def st_set_def st_extend_def fun_eq_iff split: option.split)

text \<open>What the contracts' writers do: store, then extend.\<close>

definition st_write :: "call_env \<Rightarrow> nat \<Rightarrow> nat \<Rightarrow> 'k \<Rightarrow> 'v \<Rightarrow> ('k, 'v) storage \<Rightarrow> ('k, 'v) storage" where
  "st_write env threshold extend_to k v s = st_extend env k threshold extend_to (st_set env k v s)"

lemma st_get_write [simp]: "st_get (st_write env t e k v s) = (st_get s)(k \<mapsto> v)"
  unfolding st_write_def by (rule host.get_write)

lemma st_get_extend [simp]: "st_get (st_extend env k t e s) = st_get s"
  by (rule host.get_extend)

definition LEDGERS_PER_DAY :: nat where
  "LEDGERS_PER_DAY = 17280"

definition TTL_THRESHOLD :: nat where
  "TTL_THRESHOLD = 30 * LEDGERS_PER_DAY"

definition TTL_EXTEND_TO :: nat where
  "TTL_EXTEND_TO = 90 * LEDGERS_PER_DAY"

text \<open>After a write the entry outlives the threshold.\<close>

lemma st_write_life:
  "\<exists>life. st_write env TTL_THRESHOLD TTL_EXTEND_TO k v s k = Some (v, life) \<and>
     env_sequence env + TTL_THRESHOLD \<le> life"
  by (auto simp: st_write_def st_extend_def st_set_def TTL_THRESHOLD_def TTL_EXTEND_TO_def
      LEDGERS_PER_DAY_def split: option.split)

end
