(* ===== verification/Router.thy ===== *)
theory Router
  imports RustCore FillRule IntentTypes
begin

section \<open>The router contract: state and operations\<close>

text \<open>
  contracts/router/src: errors.rs, types.rs, storage.rs and lib.rs.  The state is the
  instance entry, one persistent storage per key constructor of \<open>DataKey\<close>, the events
  published so far and the token contracts the router calls, whose state \<open>'t\<close> is opaque.
  What the host and other contracts provide is the record \<open>soroban\<close>: the XDR form of an
  intent, SHA-256, and the \<open>transfer\<close> of a SEP-41 token.  \<open>IntentStatus\<close> is the datatype
  \<open>intent_status\<close> the SDK mirrors.
\<close>

datatype slipguard_error =
    IntentExpired | InsufficientOutput | SlippageExceeded | UnauthorizedTrader
  | NonceAlreadyUsed | IntentNotActive | MathOverflow | InvalidSlippageBps | InvalidAmount
  | AlreadyInitialized

fun error_code :: "slipguard_error \<Rightarrow> u32" where
  "error_code IntentExpired = 1"
| "error_code InsufficientOutput = 2"
| "error_code SlippageExceeded = 3"
| "error_code UnauthorizedTrader = 4"
| "error_code NonceAlreadyUsed = 5"
| "error_code IntentNotActive = 6"
| "error_code MathOverflow = 7"
| "error_code InvalidSlippageBps = 8"
| "error_code InvalidAmount = 9"
| "error_code AlreadyInitialized = 10"

text \<open>The derived order of the error codes.\<close>

lemma error_code_eq_iff: "error_code a = error_code b \<longleftrightarrow> a = b"
  by (cases a; cases b) simp_all

instantiation slipguard_error :: linorder
begin

definition less_eq_slipguard_error :: "slipguard_error \<Rightarrow> slipguard_error \<Rightarrow> bool" where
  "less_eq_slipguard_error a b \<longleftrightarrow> error_code a \<le> error_code b"

definition less_slipguard_error :: "slipguard_error \<Rightarrow> slipguard_error \<Rightarrow> bool" where
  "less_slipguard_error a b \<longleftrightarrow> error_code a < error_code b"

instance
  by standard (auto simp: less_eq_slipguard_error_def less_slipguard_error_def error_code_eq_iff order.strict_iff_order)

end

record onchain_intent =
  oc_trader :: string
  oc_sell_token :: string
  oc_buy_token :: string
  oc_sell_amount :: i128
  oc_min_buy_amount :: i128
  oc_max_slippage_bps :: u32
  oc_deadline :: u64
  oc_nonce :: u64
  oc_solver_fee_bps :: u32

record onchain_receipt =
  rc_intent_hash :: string
  rc_solver :: string
  rc_bought_amount :: i128
  rc_timestamp :: u64

text \<open>The struct as an argument of a call, and the arguments of a fill: what an authorisation names.\<close>

definition intent_arg :: "onchain_intent \<Rightarrow> call_arg" where
  "intent_arg i = StructArg
     [(''buy_token'', AddressArg (oc_buy_token i)), (''deadline'', U64Arg (oc_deadline i)),
      (''max_slippage_bps'', U32Arg (oc_max_slippage_bps i)),
      (''min_buy_amount'', I128Arg (oc_min_buy_amount i)), (''nonce'', U64Arg (oc_nonce i)),
      (''sell_amount'', I128Arg (oc_sell_amount i)), (''sell_token'', AddressArg (oc_sell_token i)),
      (''solver_fee_bps'', U32Arg (oc_solver_fee_bps i)), (''trader'', AddressArg (oc_trader i))]"

definition fill_args :: "string \<Rightarrow> onchain_intent \<Rightarrow> i128 \<Rightarrow> call_arg list" where
  "fill_args solver i actual = [AddressArg solver, intent_arg i, I128Arg actual]"

text \<open>The arguments determine the fill: an authorisation is good for one order only.\<close>

lemma intent_arg_inj: "intent_arg i = intent_arg j \<longleftrightarrow> i = j"
  by (auto simp: intent_arg_def intro: onchain_intent.equality)

lemma fill_args_inj: "fill_args s i a = fill_args s' j b \<longleftrightarrow> s = s' \<and> i = j \<and> a = b"
  by (auto simp: fill_args_def intent_arg_inj)

definition both_authorised :: "call_env \<Rightarrow> string \<Rightarrow> onchain_intent \<Rightarrow> i128 \<Rightarrow> bool" where
  "both_authorised env solver i a \<longleftrightarrow>
     (\<forall>x \<in> {solver, oc_trader i}. authorised env x ''execute_intent'' (fill_args solver i a))"

text \<open>The three event structs, with their topics and data in the order of their fields.\<close>

datatype contract_event =
    Initialized string
  | IntentCancelled string string
  | IntentFilled string string string i128 i128 u64

record 't router =
  rt_admin :: "string option"
  rt_instance_life :: nat
  rt_status :: "(string, intent_status) storage"
  rt_receipts :: "(string, onchain_receipt) storage"
  rt_nonces :: "(string \<times> u64, bool) storage"
  rt_events :: "contract_event list"
  rt_tokens :: 't

type_synonym ('t, 'a) router_call = "'t router \<Rightarrow> (slipguard_error failure + 'a) \<times> 't router"

text \<open>\<open>token_transfer env token from to amount\<close> is the call the token contract receives.\<close>

record 't soroban =
  intent_xdr :: "onchain_intent \<Rightarrow> string"
  host_sha256 :: "string \<Rightarrow> string"
  token_transfer ::
    "call_env \<Rightarrow> string \<Rightarrow> string \<Rightarrow> string \<Rightarrow> i128 \<Rightarrow> 't \<Rightarrow> (unit failure + unit) \<times> 't"

definition BPS :: i128 where
  "BPS = 10000"

subsection \<open>storage.rs\<close>

definition get_admin :: "('t, string option) router_call" where
  "get_admin = state_read rt_admin"

definition set_admin :: "call_env \<Rightarrow> string \<Rightarrow> ('t, unit) router_call" where
  "set_admin env admin = state_write (\<lambda>r. r\<lparr>rt_admin := Some admin,
     rt_instance_life := (if rt_instance_life r < env_sequence env + TTL_THRESHOLD
       then env_sequence env + TTL_EXTEND_TO else rt_instance_life r)\<rparr>)"

definition has_admin :: "('t, bool) router_call" where
  "has_admin = state_read (\<lambda>r. rt_admin r \<noteq> None)"

text \<open>The status an unknown hash has is \<open>Active\<close>, and an unknown nonce is unused.\<close>

definition status_of :: "'t router \<Rightarrow> string \<Rightarrow> intent_status" where
  "status_of r h = (case st_get (rt_status r) h of Some s \<Rightarrow> s | None \<Rightarrow> Active)"

definition nonce_used :: "'t router \<Rightarrow> string \<Rightarrow> u64 \<Rightarrow> bool" where
  "nonce_used r a n = (case st_get (rt_nonces r) (a, n) of Some b \<Rightarrow> b | None \<Rightarrow> False)"

definition receipt_of :: "'t router \<Rightarrow> string \<Rightarrow> onchain_receipt option" where
  "receipt_of r h = st_get (rt_receipts r) h"

definition get_intent_status :: "string \<Rightarrow> ('t, intent_status) router_call" where
  "get_intent_status h = state_read (\<lambda>r. status_of r h)"

definition set_intent_status :: "call_env \<Rightarrow> string \<Rightarrow> intent_status \<Rightarrow> ('t, unit) router_call" where
  "set_intent_status env h s = state_write (\<lambda>r. r\<lparr>rt_status :=
     st_write env TTL_THRESHOLD TTL_EXTEND_TO h s (rt_status r)\<rparr>)"

text \<open>Reading a receipt prolongs its life.\<close>

definition get_fill_receipt :: "call_env \<Rightarrow> string \<Rightarrow> ('t, onchain_receipt option) router_call" where
  "get_fill_receipt env h =
     abind (state_read (\<lambda>r. receipt_of r h)) (\<lambda>receipt.
     abind (if receipt \<noteq> None then state_write (\<lambda>r. r\<lparr>rt_receipts :=
         st_extend env h TTL_THRESHOLD TTL_EXTEND_TO (rt_receipts r)\<rparr>) else aret ()) (\<lambda>_.
     aret receipt))"

definition set_fill_receipt :: "call_env \<Rightarrow> string \<Rightarrow> onchain_receipt \<Rightarrow> ('t, unit) router_call" where
  "set_fill_receipt env h receipt = state_write (\<lambda>r. r\<lparr>rt_receipts :=
     st_write env TTL_THRESHOLD TTL_EXTEND_TO h receipt (rt_receipts r)\<rparr>)"

definition is_nonce_used :: "string \<Rightarrow> u64 \<Rightarrow> ('t, bool) router_call" where
  "is_nonce_used a n = state_read (\<lambda>r. nonce_used r a n)"

definition set_nonce_used :: "call_env \<Rightarrow> string \<Rightarrow> u64 \<Rightarrow> ('t, unit) router_call" where
  "set_nonce_used env a n = state_write (\<lambda>r. r\<lparr>rt_nonces :=
     st_write env TTL_THRESHOLD TTL_EXTEND_TO (a, n) True (rt_nonces r)\<rparr>)"

definition publish :: "contract_event \<Rightarrow> ('t, unit) router_call" where
  "publish e = state_write (\<lambda>r. r\<lparr>rt_events := rt_events r @ [e]\<rparr>)"

subsection \<open>lib.rs\<close>

definition init :: "call_env \<Rightarrow> string \<Rightarrow> ('t, unit) router_call" where
  "init env admin =
     abind has_admin (\<lambda>has.
     abind (reject_if has AlreadyInitialized) (\<lambda>_.
     abind (require_auth env ''init'' [AddressArg admin] admin) (\<lambda>_.
     abind (set_admin env admin) (\<lambda>_.
     publish (Initialized admin)))))"

definition get_intent_hash :: "('t, 'x) soroban_scheme \<Rightarrow> onchain_intent \<Rightarrow> string" where
  "get_intent_hash H i = host_sha256 H (intent_xdr H i)"

definition cancel_intent ::
  "('t, 'x) soroban_scheme \<Rightarrow> call_env \<Rightarrow> onchain_intent \<Rightarrow> ('t, unit) router_call" where
  "cancel_intent H env i =
     abind (require_auth env ''cancel_intent'' [intent_arg i] (oc_trader i)) (\<lambda>_.
     let intent_hash = get_intent_hash H i in
     abind (get_intent_status intent_hash) (\<lambda>status.
     abind (reject_if (status \<noteq> Active) IntentNotActive) (\<lambda>_.
     abind (is_nonce_used (oc_trader i) (oc_nonce i)) (\<lambda>used.
     abind (reject_if used NonceAlreadyUsed) (\<lambda>_.
     abind (set_intent_status env intent_hash Cancelled) (\<lambda>_.
     abind (set_nonce_used env (oc_trader i) (oc_nonce i)) (\<lambda>_.
     publish (IntentCancelled (oc_trader i) intent_hash))))))))"

definition mul_bps :: "i128 \<Rightarrow> u32 \<Rightarrow> slipguard_error failure + i128" where
  "mul_bps amount bps =
     rbind (ok_or MathOverflow (checked_mul amount (u32_as_i128 bps))) (\<lambda>scaled.
     ok_or MathOverflow (checked_div scaled BPS))"

text \<open>The split of a fill between solver fee and trader proceeds, and the slippage check.\<close>

definition split_fill :: "onchain_intent \<Rightarrow> i128 \<Rightarrow> slipguard_error failure + (i128 \<times> i128)" where
  "split_fill i actual =
     rbind (mul_bps actual (oc_solver_fee_bps i)) (\<lambda>solver_fee.
     rbind (ok_or MathOverflow (checked_sub actual solver_fee)) (\<lambda>trader_proceeds.
     if sint trader_proceeds < sint (oc_min_buy_amount i) then
       rbind (ok_or MathOverflow (checked_sub (oc_min_buy_amount i) trader_proceeds)) (\<lambda>shortfall.
       rbind (ok_or MathOverflow (checked_mul shortfall BPS)) (\<lambda>scaled.
       rbind (ok_or MathOverflow (checked_div scaled (oc_min_buy_amount i))) (\<lambda>shortfall_bps.
       if sint (u32_as_i128 (oc_max_slippage_bps i)) < sint shortfall_bps
       then Inl (Fail SlippageExceeded) else Inr (solver_fee, trader_proceeds))))
     else Inr (solver_fee, trader_proceeds)))"

text \<open>A call of a token contract: the router itself is the direct invoker, and
  whatever the token fails with traps the router's call.\<close>

definition token_env :: "call_env \<Rightarrow> string \<Rightarrow> call_env" where
  "token_env env token =
     env\<lparr>env_invoker := Some (env_contract env), env_contract := token\<rparr>"

definition call_transfer ::
  "('t, 'x) soroban_scheme \<Rightarrow> call_env \<Rightarrow> string \<Rightarrow> string \<Rightarrow> string \<Rightarrow> i128 \<Rightarrow> ('t, unit) router_call" where
  "call_transfer H env token from to amount = (\<lambda>r.
     case token_transfer H (token_env env token) token from to amount (rt_tokens r) of
       (Inl _, t) \<Rightarrow> (Inl (Trap ''token transfer failed''), r\<lparr>rt_tokens := t\<rparr>)
     | (Inr _, t) \<Rightarrow> (Inr (), r\<lparr>rt_tokens := t\<rparr>))"

text \<open>The checks of \<open>execute_intent\<close>, up to the split.\<close>

definition admit_fill ::
  "('t, 'x) soroban_scheme \<Rightarrow> call_env \<Rightarrow> string \<Rightarrow> onchain_intent \<Rightarrow> i128
     \<Rightarrow> ('t, string \<times> i128 \<times> i128) router_call" where
  "admit_fill H env solver i actual =
     abind (require_auth env ''execute_intent'' (fill_args solver i actual) solver) (\<lambda>_.
     abind (reject_if (solver = oc_trader i) UnauthorizedTrader) (\<lambda>_.
     abind (require_auth env ''execute_intent'' (fill_args solver i actual) (oc_trader i)) (\<lambda>_.
     abind (reject_if (sint (oc_sell_amount i) \<le> 0 \<or> sint (oc_min_buy_amount i) \<le> 0)
              InvalidAmount) (\<lambda>_.
     abind (reject_if (10000 < oc_max_slippage_bps i \<or> 10000 < oc_solver_fee_bps i)
              InvalidSlippageBps) (\<lambda>_.
     abind (reject_if (oc_deadline i < env_timestamp env) IntentExpired) (\<lambda>_.
     abind (reject_if (sint actual < sint (oc_min_buy_amount i)) InsufficientOutput) (\<lambda>_.
     let intent_hash = get_intent_hash H i in
     abind (get_intent_status intent_hash) (\<lambda>status.
     abind (reject_if (status \<noteq> Active) IntentNotActive) (\<lambda>_.
     abind (is_nonce_used (oc_trader i) (oc_nonce i)) (\<lambda>used.
     abind (reject_if used NonceAlreadyUsed) (\<lambda>_.
     abind (alift (split_fill i actual)) (\<lambda>(solver_fee, trader_proceeds).
     aret (intent_hash, solver_fee, trader_proceeds)))))))))))))"

text \<open>Its effects and interactions, in the order of the code.\<close>

definition settle_fill ::
  "('t, 'x) soroban_scheme \<Rightarrow> call_env \<Rightarrow> string \<Rightarrow> onchain_intent \<Rightarrow> i128 \<Rightarrow> string \<Rightarrow> i128 \<Rightarrow> i128
     \<Rightarrow> ('t, onchain_receipt) router_call" where
  "settle_fill H env solver i actual intent_hash solver_fee trader_proceeds =
     abind (set_intent_status env intent_hash Filled) (\<lambda>_.
     abind (set_nonce_used env (oc_trader i) (oc_nonce i)) (\<lambda>_.
     let router = env_contract env; sell = oc_sell_token i; buy = oc_buy_token i in
     abind (call_transfer H env sell (oc_trader i) solver (oc_sell_amount i)) (\<lambda>_.
     abind (call_transfer H env buy solver router actual) (\<lambda>_.
     abind (call_transfer H env buy router (oc_trader i) trader_proceeds) (\<lambda>_.
     abind (if 0 < sint solver_fee then call_transfer H env buy router solver solver_fee
            else aret ()) (\<lambda>_.
     let receipt = \<lparr>rc_intent_hash = intent_hash, rc_solver = solver,
           rc_bought_amount = actual, rc_timestamp = env_timestamp env\<rparr> in
     abind (set_fill_receipt env intent_hash receipt) (\<lambda>_.
     abind (publish (IntentFilled (oc_trader i) intent_hash solver trader_proceeds solver_fee
              (env_timestamp env))) (\<lambda>_.
     aret receipt))))))))"

definition execute_intent ::
  "('t, 'x) soroban_scheme \<Rightarrow> call_env \<Rightarrow> string \<Rightarrow> onchain_intent \<Rightarrow> i128
     \<Rightarrow> ('t, onchain_receipt) router_call" where
  "execute_intent H env solver i actual =
     abind (admit_fill H env solver i actual) (\<lambda>(intent_hash, solver_fee, trader_proceeds).
     settle_fill H env solver i actual intent_hash solver_fee trader_proceeds)"

text \<open>A router before \<open>init\<close>, whose instance lives until ledger \<open>life\<close>.\<close>

definition deployed :: "nat \<Rightarrow> 't \<Rightarrow> 't router" where
  "deployed life t = \<lparr>rt_admin = None, rt_instance_life = life, rt_status = Map.empty,
     rt_receipts = Map.empty, rt_nonces = Map.empty, rt_events = [], rt_tokens = t\<rparr>"
section \<open>The split\<close>

text \<open>A share of a non-negative amount is computed exactly unless the product overflows.\<close>

lemma BPS_sint [simp]: "sint BPS = 10000"
  by (simp add: BPS_def)

lemma i128_range_between: "i128_range b \<Longrightarrow> 0 \<le> a \<Longrightarrow> a \<le> b \<Longrightarrow> i128_range a"
  by (simp add: i128_range_def)

lemma div_within: "0 \<le> a \<Longrightarrow> 0 < b \<Longrightarrow> 0 \<le> a div b \<and> a div b \<le> (a :: int)"
  using zdiv_mono2 [of a 1 b] by (simp add: pos_imp_zdiv_nonneg_iff)

lemma share_le_product: "0 \<le> a \<Longrightarrow> 0 \<le> b \<Longrightarrow> 0 \<le> bps_share a b \<and> bps_share a b \<le> a * b"
  unfolding bps_share_def by (rule div_within) simp_all

lemma to_i128_ok: "i128_range n \<Longrightarrow> to_i128 n = Some (word_of_int n)"
  by (simp add: to_i128_def)

lemma to_i128_value: "i128_range n \<Longrightarrow> \<exists>w. to_i128 n = Some w \<and> sint w = n"
  by (simp add: to_i128_def)

lemma mul_bps_eq:
  assumes "0 \<le> sint a"
  shows "mul_bps a b = (if i128_range (sint a * uint b)
     then Inr (word_of_int (bps_share (sint a) (uint b))) else Inl (Fail MathOverflow))"
proof (cases "i128_range (sint a * uint b)")
  case True
  define w :: i128 where "w = word_of_int (sint a * uint b)"
  have w: "checked_mul a (u32_as_i128 b) = Some w" "sint w = sint a * uint b"
    using True by (simp_all only: checked_mul_def u32_as_i128_sint to_i128_ok w_def sint_of_range)
  have "i128_range (bps_share (sint a) (uint b))"
    using True share_le_product [OF assms, of "uint b"] i128_range_between by auto
  then have "checked_div w BPS = Some (word_of_int (bps_share (sint a) (uint b)))"
    using assms by (simp add: checked_div_def w(2) trunc_div_nonneg bps_share_def to_i128_ok)
  then show ?thesis
    using True by (simp add: mul_bps_def w(1) ok_or_def)
next
  case False
  then show ?thesis
    by (simp add: mul_bps_def checked_mul_def to_i128_def ok_or_def)
qed

text \<open>\<open>mul_bps\<close> follows the shared fee rule wherever it returns.\<close>

definition router_fee_of :: "int \<Rightarrow> int \<Rightarrow> int" where
  "router_fee_of a b = (case mul_bps (word_of_int a) (word_of_int b) of Inr w \<Rightarrow> sint w | Inl _ \<Rightarrow> 0)"

definition fee_fits :: "int \<Rightarrow> int \<Rightarrow> bool" where
  "fee_fits a b \<longleftrightarrow> i128_range a \<and> b < 2 ^ 32 \<and> i128_range (a * b)"

lemma router_fee_eq:
  assumes "fee_fits a b" and "0 \<le> a" and "0 \<le> b"
  shows "router_fee_of a b = bps_share a b"
proof -
  have b: "uint (word_of_int b :: u32) = b"
    using assms by (simp add: fee_fits_def uint_word_of_int)
  have "i128_range (bps_share a b)"
    using assms share_le_product [of a b] i128_range_between by (auto simp: fee_fits_def)
  then show ?thesis
    using assms(1,2) mul_bps_eq [of "word_of_int a" "word_of_int b"]
    by (simp add: router_fee_of_def fee_fits_def b)
qed

interpretation router_fee: bps_fee router_fee_of fee_fits
  by unfold_locales
     (use trunc_div_bounds [where b = 10000] in
       \<open>simp_all add: router_fee_eq bps_share_def trunc_div_nonneg [symmetric] mult_nonneg_nonneg\<close>)

text \<open>The whole split, on an admitted fill: it overflows exactly when the fee product does.\<close>

lemma split_fill_eq:
  assumes "0 < sint (oc_min_buy_amount i)" and "sint (oc_min_buy_amount i) \<le> sint a"
    and "oc_solver_fee_bps i \<le> 10000"
  shows "split_fill i a =
    (let b = uint (oc_solver_fee_bps i); m = sint (oc_min_buy_amount i) in
     if \<not> i128_range (sint a * b) then Inl (Fail MathOverflow)
     else if uint (oc_max_slippage_bps i) < shortfall_bps m (sint a - bps_share (sint a) b)
     then Inl (Fail SlippageExceeded)
     else Inr (word_of_int (bps_share (sint a) b), word_of_int (sint a - bps_share (sint a) b)))"
proof (cases "i128_range (sint a * uint (oc_solver_fee_bps i))")
  case False
  then show ?thesis
    using assms by (simp add: split_fill_def mul_bps_eq Let_def)
next
  case True
  let ?b = "uint (oc_solver_fee_bps i)" and ?m = "sint (oc_min_buy_amount i)"
  define fee where "fee = bps_share (sint a) ?b"
  have b: "0 \<le> ?b" "?b \<le> 10000" and a: "0 \<le> sint a"
    using assms by (simp_all add: word_le_def)
  have fee: "0 \<le> fee" "fee \<le> sint a" "fee * 10000 \<le> sint a * ?b"
    using bps_share_bounds [OF a b] by (simp_all add: fee_def bps_share_def)
  define fw pw :: i128 where "fw = word_of_int fee" and "pw = word_of_int (sint a - fee)"
  have r: "i128_range fee" "i128_range (sint a - fee)"
    using fee sint_range [of a] by (auto intro: i128_range_between [of "sint a"])
  have w: "sint fw = fee" "sint pw = sint a - fee"
    using r by (simp_all only: fw_def pw_def sint_of_range)
  have steps: "mul_bps a (oc_solver_fee_bps i) = Inr fw" "checked_sub a fw = Some pw"
    using True r by (simp_all only: mul_bps_eq [OF a] fw_def pw_def fee_def checked_sub_def
        to_i128_ok sint_of_range if_True)
  have goal: "split_fill i a = (if uint (oc_max_slippage_bps i) < shortfall_bps ?m (sint pw)
      then Inl (Fail SlippageExceeded) else Inr (fw, pw))"
  proof (cases "sint pw < ?m")
    case True
    define sf where "sf = ?m - sint pw"
    have sf: "0 < sf" "sf \<le> ?m" "sf * 10000 \<le> sint a * ?b"
      using True fee assms(2) by (auto simp: sf_def w(2))
    have rs: "i128_range sf" "i128_range (sf * 10000)" "i128_range (sf * 10000 div ?m)"
      using sf assms(1) sint_range [of "oc_min_buy_amount i"] \<open>i128_range (sint a * ?b)\<close>
        div_within [of "sf * 10000" ?m]
      by (auto intro: i128_range_between)
    obtain s where s: "checked_sub (oc_min_buy_amount i) pw = Some s" "sint s = sf"
      using to_i128_value [OF rs(1)] by (auto simp: checked_sub_def sf_def)
    obtain t where t: "checked_mul s BPS = Some t" "sint t = sf * 10000"
      using to_i128_value [OF rs(2)] by (auto simp: checked_mul_def s(2))
    obtain q where q: "checked_div t (oc_min_buy_amount i) = Some q" "sint q = sf * 10000 div ?m"
      using to_i128_value [OF rs(3)] sf(1) assms(1)
      by (auto simp: checked_div_def t(2) trunc_div_nonneg)
    show ?thesis
      using True steps s(1) t(1) q
      by (simp add: split_fill_def ok_or_def shortfall_bps_def sf_def not_le)
  next
    case False
    then show ?thesis
      using steps by (simp add: split_fill_def ok_or_def shortfall_bps_def not_less)
  qed
  show ?thesis
    using True by (simp only: goal [unfolded w(2)] Let_def fee_def [symmetric] fw_def pw_def
        if_True not_True_eq_False if_False)
qed

lemma split_fill_values:
  assumes "split_fill i a = Inr (fee, p)" and "0 < sint (oc_min_buy_amount i)"
    and "sint (oc_min_buy_amount i) \<le> sint a" and "oc_solver_fee_bps i \<le> 10000"
  shows "sint fee = bps_share (sint a) (uint (oc_solver_fee_bps i))" and "sint p = sint a - sint fee"
    and "shortfall_bps (sint (oc_min_buy_amount i)) (sint p) \<le> uint (oc_max_slippage_bps i)"
    and "0 \<le> sint fee" and "0 \<le> sint p"
proof -
  let ?s = "bps_share (sint a) (uint (oc_solver_fee_bps i))"
  have s: "0 \<le> ?s" "?s \<le> sint a"
    using assms by (auto intro!: bps_share_bounds simp: word_le_def)
  have vals: "fee = word_of_int ?s" "p = word_of_int (sint a - ?s)"
    and short: "shortfall_bps (sint (oc_min_buy_amount i)) (sint a - ?s) \<le> uint (oc_max_slippage_bps i)"
    using assms(1) split_fill_eq [OF assms(2-4)] by (auto simp: Let_def split: if_splits)
  have "i128_range ?s" "i128_range (sint a - ?s)"
    using s sint_range [of a] by (auto intro: i128_range_between [of "sint a"])
  then show fee: "sint fee = ?s" and p: "sint p = sint a - sint fee"
    by (simp_all only: vals sint_of_range)
  show "shortfall_bps (sint (oc_min_buy_amount i)) (sint p) \<le> uint (oc_max_slippage_bps i)"
    "0 \<le> sint fee" "0 \<le> sint p"
    using short s by (simp_all add: fee p)
qed

section \<open>What the operations do\<close>

lemma call_transfer_eq:
  "call_transfer H env tok from to n r = (Inr u, r') \<longleftrightarrow>
     (\<exists>t. token_transfer H (token_env env tok) tok from to n (rt_tokens r) = (Inr (), t) \<and>
        r' = r\<lparr>rt_tokens := t\<rparr>)"
  "call_transfer H env tok from to n r = (Inl f, r') \<longleftrightarrow>
     (\<exists>e t. token_transfer H (token_env env tok) tok from to n (rt_tokens r) = (Inl e, t) \<and>
        r' = r\<lparr>rt_tokens := t\<rparr> \<and> f = Trap ''token transfer failed'')"
  by (auto simp: call_transfer_def split: prod.split sum.split)

lemmas router_eqs = call_eqs call_transfer_eq has_admin_def get_admin_def set_admin_def
  get_intent_status_def set_intent_status_def set_fill_receipt_def is_nonce_used_def
  set_nonce_used_def publish_def

text \<open>The fills that are let through: every guard passes, and nothing has been written.\<close>

definition admissible ::
  "('t, 'x) soroban_scheme \<Rightarrow> call_env \<Rightarrow> string \<Rightarrow> onchain_intent \<Rightarrow> i128 \<Rightarrow> 't router \<Rightarrow> bool" where
  "admissible H env solver i a r \<longleftrightarrow>
     both_authorised env solver i a \<and> solver \<noteq> oc_trader i \<and>
     0 < sint (oc_sell_amount i) \<and> 0 < sint (oc_min_buy_amount i) \<and>
     oc_max_slippage_bps i \<le> 10000 \<and> oc_solver_fee_bps i \<le> 10000 \<and>
     env_timestamp env \<le> oc_deadline i \<and> sint (oc_min_buy_amount i) \<le> sint a \<and>
     status_of r (get_intent_hash H i) = Active \<and> \<not> nonce_used r (oc_trader i) (oc_nonce i)"

lemma admit_fill_ok:
  "admit_fill H env solver i a r = (Inr (h, f, p), r') \<longleftrightarrow>
     r' = r \<and> h = get_intent_hash H i \<and> admissible H env solver i a r \<and> split_fill i a = Inr (f, p)"
  by (auto simp: admit_fill_def router_eqs admissible_def both_authorised_def Let_def not_le not_less
      split: if_splits prod.splits)

lemma keeps_reads:
  "stays.keeps p (state_read f)" "stays.keeps q (reject_if b e)" "stays.keeps q (require_auth env g args c)"
  by (simp_all add: stays.keeps_def state_read_def reject_if_def require_auth_def alift_def)

lemma admit_fill_reads: "stays.keeps id (admit_fill H env solver i a)"
  unfolding admit_fill_def get_intent_status_def is_nonce_used_def Let_def
  by (auto intro!: stays.keeps_bind stays.keeps_ret keeps_reads split: prod.split)

lemma admit_fill_same: "admit_fill H env solver i a r = (x, r') \<Longrightarrow> r' = r"
  using stays.keepsD [OF admit_fill_reads] by fastforce

text \<open>The payments of a fill, as seen by the token contracts.\<close>

definition payments ::
  "('t, 'x) soroban_scheme \<Rightarrow> call_env \<Rightarrow> string \<Rightarrow> onchain_intent \<Rightarrow> i128 \<Rightarrow> i128 \<Rightarrow> i128 \<Rightarrow> 't \<Rightarrow> 't \<Rightarrow> bool"
where
  "payments H env solver i a fee p t t' \<longleftrightarrow>
     (let sell = oc_sell_token i; buy = oc_buy_token i; router = env_contract env;
          send = (\<lambda>tok. token_transfer H (token_env env tok) tok) in
      \<exists>t1 t2 t3. send sell (oc_trader i) solver (oc_sell_amount i) t = (Inr (), t1) \<and>
        send buy solver router a t1 = (Inr (), t2) \<and>
        send buy router (oc_trader i) p t2 = (Inr (), t3) \<and>
        (if 0 < sint fee then send buy router solver fee t3 = (Inr (), t') else t' = t3))"

definition filled_state ::
  "call_env \<Rightarrow> onchain_intent \<Rightarrow> string \<Rightarrow> onchain_receipt \<Rightarrow> contract_event \<Rightarrow> 't \<Rightarrow> 't router \<Rightarrow> 't router"
where
  "filled_state env i h rc e t r = r\<lparr>
     rt_status := st_write env TTL_THRESHOLD TTL_EXTEND_TO h Filled (rt_status r),
     rt_receipts := st_write env TTL_THRESHOLD TTL_EXTEND_TO h rc (rt_receipts r),
     rt_nonces := st_write env TTL_THRESHOLD TTL_EXTEND_TO (oc_trader i, oc_nonce i) True (rt_nonces r),
     rt_events := rt_events r @ [e], rt_tokens := t\<rparr>"

lemma settle_fill_ok:
  "settle_fill H env solver i a h fee p r = (Inr rc, r') \<longleftrightarrow>
     (\<exists>t. payments H env solver i a fee p (rt_tokens r) t \<and>
        rc = \<lparr>rc_intent_hash = h, rc_solver = solver, rc_bought_amount = a,
              rc_timestamp = env_timestamp env\<rparr> \<and>
        r' = filled_state env i h rc (IntentFilled (oc_trader i) h solver p fee (env_timestamp env)) t r)"
  by (cases "0 < sint fee")
     (auto simp: settle_fill_def router_eqs payments_def filled_state_def Let_def split: sum.splits)

lemma settle_fill_traps:
  "settle_fill H env solver i a h fee p r = (Inl f, r') \<Longrightarrow> \<exists>m. f = Trap m"
  by (auto simp: settle_fill_def router_eqs Let_def split: sum.splits if_splits)

text \<open>A call of \<open>execute_intent\<close> that returns.\<close>

lemma execute_intent_ok:
  "execute_intent H env solver i a r = (Inr rc, r') \<longleftrightarrow>
     (\<exists>f p. admissible H env solver i a r \<and> split_fill i a = Inr (f, p) \<and>
        settle_fill H env solver i a (get_intent_hash H i) f p r = (Inr rc, r'))"
  by (auto simp: execute_intent_def abind_eq_Inr admit_fill_ok)

lemma cancel_intent_ok:
  "cancel_intent H env i r = (Inr u, r') \<longleftrightarrow>
     authorised env (oc_trader i) ''cancel_intent'' [intent_arg i] \<and> status_of r (get_intent_hash H i) = Active \<and>
     \<not> nonce_used r (oc_trader i) (oc_nonce i) \<and>
     r' = r\<lparr>rt_status := st_write env TTL_THRESHOLD TTL_EXTEND_TO (get_intent_hash H i) Cancelled (rt_status r),
       rt_nonces := st_write env TTL_THRESHOLD TTL_EXTEND_TO (oc_trader i, oc_nonce i) True (rt_nonces r),
       rt_events := rt_events r @ [IntentCancelled (oc_trader i) (get_intent_hash H i)]\<rparr>"
  by (auto simp: cancel_intent_def router_eqs Let_def split: if_splits)

section \<open>The table of refusals\<close>

text \<open>The guards of \<open>execute_intent\<close> in their order, each with its error code.\<close>

definition fill_checks ::
  "('t, 'x) soroban_scheme \<Rightarrow> call_env \<Rightarrow> string \<Rightarrow> onchain_intent \<Rightarrow> i128 \<Rightarrow> 't router
     \<Rightarrow> (bool \<times> slipguard_error) list" where
  "fill_checks H env solver i a r =
     (let m = sint (oc_min_buy_amount i); b = uint (oc_solver_fee_bps i) in
      [(solver \<noteq> oc_trader i, UnauthorizedTrader),
       (0 < sint (oc_sell_amount i) \<and> 0 < m, InvalidAmount),
       (oc_max_slippage_bps i \<le> 10000 \<and> oc_solver_fee_bps i \<le> 10000, InvalidSlippageBps),
       (env_timestamp env \<le> oc_deadline i, IntentExpired),
       (m \<le> sint a, InsufficientOutput),
       (status_of r (get_intent_hash H i) = Active, IntentNotActive),
       (\<not> nonce_used r (oc_trader i) (oc_nonce i), NonceAlreadyUsed),
       (i128_range (sint a * b), MathOverflow),
       (shortfall_bps m (sint a - bps_share (sint a) b) \<le> uint (oc_max_slippage_bps i),
        SlippageExceeded)])"

lemma abind_steps:
  "abind (reject_if c e) f h = (if c then (Inl (Fail e), h) else f () h)"
  "abind (require_auth env fn args x) f h =
     (if authorised env x fn args then f () h else (Inl (Trap ''authorization missing''), h))"
  "abind (state_read g) k h = k (g h) h"
  "abind (alift q) l h = (case q of Inl e' \<Rightarrow> (Inl e', h) | Inr z \<Rightarrow> l z h)"
  by (simp_all add: abind_def reject_if_def require_auth_def state_read_def alift_def split: sum.split)

lemma admit_fill_table:
  assumes "both_authorised env solver i a"
  shows "admit_fill H env solver i a r = (case first_failure (fill_checks H env solver i a r) of
     Inl e \<Rightarrow> (Inl (Fail e), r)
   | Inr _ \<Rightarrow> (Inr (get_intent_hash H i, word_of_int (bps_share (sint a) (uint (oc_solver_fee_bps i))),
       word_of_int (sint a - bps_share (sint a) (uint (oc_solver_fee_bps i)))), r))"
proof -
  let ?slip = "oc_max_slippage_bps i" and ?fee = "oc_solver_fee_bps i" and ?m = "oc_min_buy_amount i"
  have guards: "sint (oc_sell_amount i) \<le> 0 \<or> sint ?m \<le> 0 \<longleftrightarrow> \<not> (0 < sint (oc_sell_amount i) \<and> 0 < sint ?m)"
    "10000 < ?slip \<or> 10000 < ?fee \<longleftrightarrow> \<not> (?slip \<le> 10000 \<and> ?fee \<le> 10000)"
    "oc_deadline i < env_timestamp env \<longleftrightarrow> \<not> env_timestamp env \<le> oc_deadline i"
    "sint a < sint ?m \<longleftrightarrow> \<not> sint ?m \<le> sint a"
    by auto
  note run = admit_fill_def guards get_intent_status_def is_nonce_used_def abind_steps Let_def
    fill_checks_def first_failure.simps
  show ?thesis
  proof (cases "0 < sint ?m \<and> sint ?m \<le> sint a \<and> ?fee \<le> 10000")
    case True
    then have "split_fill i a = (case first_failure
        [(i128_range (sint a * uint ?fee), MathOverflow),
         (shortfall_bps (sint ?m) (sint a - bps_share (sint a) (uint ?fee)) \<le> uint ?slip, SlippageExceeded)] of
        Inl e \<Rightarrow> Inl (Fail e)
      | Inr _ \<Rightarrow> Inr (word_of_int (bps_share (sint a) (uint ?fee)),
          word_of_int (sint a - bps_share (sint a) (uint ?fee))))"
      by (simp add: split_fill_eq Let_def not_less)
    then show ?thesis
      using assms True unfolding run both_authorised_def by (simp add: aret_def split: sum.split)
  next
    case False
    then show ?thesis
      using assms unfolding run both_authorised_def by (auto split: if_split)
  qed
qed

lemma execute_intent_errors:
  assumes "both_authorised env solver i a"
  shows "execute_intent H env solver i a r = (Inl (Fail e), r') \<longleftrightarrow>
     first_failure (fill_checks H env solver i a r) = Inl e \<and> r' = r"
proof -
  have "execute_intent H env solver i a r = (Inl (Fail e), r') \<longleftrightarrow>
      admit_fill H env solver i a r = (Inl (Fail e), r')"
    by (auto simp: execute_intent_def abind_eq_Inl dest: settle_fill_traps)
  then show ?thesis
    by (auto simp: admit_fill_table [OF assms] split: sum.split)
qed

end
