(* ===== verification/RouterLedger.thy ===== *)
theory RouterLedger
  imports Router
begin

section \<open>What the router promises: a book in which an order closes once\<close>

text \<open>
  The abstract specification of the router.  An order is identified twice, by its trader's
  nonce and by its hash; closing it (a fill or a withdrawal) takes both for good.  Every run
  of the router, with whatever callers, clocks and tokens, is a replay of the closings of
  its successful calls in this book.
\<close>

datatype closing = FilledBy string i128 | Withdrawn

record order_book =
  ob_used :: "(string \<times> u64) set"
  ob_closed :: "string \<Rightarrow> closing option"

type_synonym book_entry = "(string \<times> u64) \<times> string \<times> closing"

definition empty_book :: order_book where
  "empty_book = \<lparr>ob_used = {}, ob_closed = Map.empty\<rparr>"

definition close_order :: "book_entry \<Rightarrow> order_book \<Rightarrow> order_book option" where
  "close_order e b = (case e of (k, h, c) \<Rightarrow>
     if k \<in> ob_used b \<or> ob_closed b h \<noteq> None then None
     else Some (b\<lparr>ob_used := insert k (ob_used b), ob_closed := (ob_closed b)(h \<mapsto> c)\<rparr>))"

fun replay :: "book_entry list \<Rightarrow> order_book \<Rightarrow> order_book option" where
  "replay [] b = Some b"
| "replay (e # es) b = (case close_order e b of None \<Rightarrow> None | Some b' \<Rightarrow> replay es b')"

lemma replay_append:
  "replay (es @ fs) b = (case replay es b of None \<Rightarrow> None | Some b' \<Rightarrow> replay fs b')"
  by (induction es arbitrary: b) (auto split: option.split)

text \<open>What a replay has recorded, and that no entry of it repeats.\<close>

lemma close_order_eq:
  "close_order (k, h, c) b = Some b' \<longleftrightarrow>
     k \<notin> ob_used b \<and> ob_closed b h = None \<and>
     b' = b\<lparr>ob_used := insert k (ob_used b), ob_closed := (ob_closed b)(h \<mapsto> c)\<rparr>"
  by (auto simp: close_order_def)

lemma replay_Cons:
  "replay (e # es) b = Some b' \<longleftrightarrow> (\<exists>b1. close_order e b = Some b1 \<and> replay es b1 = Some b')"
  by (auto split: option.split)

lemma replay_keys:
  "replay es b = Some b' \<Longrightarrow> distinct (map fst es) \<and> set (map fst es) \<inter> ob_used b = {} \<and>
     ob_used b' = ob_used b \<union> set (map fst es)"
proof (induction es arbitrary: b)
  case (Cons e es)
  obtain k h c b1 where e: "e = (k, h, c)" and b1: "close_order e b = Some b1" "replay es b1 = Some b'"
    using Cons.prems by (cases e) (auto simp: replay_Cons simp del: replay.simps)
  then show ?case
    using Cons.IH [OF b1(2)] by (auto simp: close_order_eq)
qed simp

lemma replay_hashes:
  "replay es b = Some b' \<Longrightarrow>
     distinct (map (fst \<circ> snd) es) \<and> (\<forall>h \<in> fst ` snd ` set es. ob_closed b h = None)"
proof (induction es arbitrary: b)
  case (Cons e es)
  obtain k h c b1 where e: "e = (k, h, c)" and b1: "close_order e b = Some b1" "replay es b1 = Some b'"
    using Cons.prems by (cases e) (auto simp: replay_Cons simp del: replay.simps)
  then have "h \<notin> fst ` snd ` set es"
    using Cons.IH [OF b1(2)] by (auto simp: close_order_eq)
  moreover have "\<forall>h \<in> fst ` snd ` set es. ob_closed b h = None"
    using Cons.IH [OF b1(2)] b1(1) by (auto simp: e close_order_eq split: if_splits)
  ultimately show ?case
    using Cons.IH [OF b1(2)] b1(1) by (auto simp: e close_order_eq image_image)
qed simp

lemma replay_closed:
  "replay es b = Some b' \<Longrightarrow> ob_closed b' h = Some c \<longleftrightarrow> ob_closed b h = Some c \<or> (h, c) \<in> snd ` set es"
proof (induction es arbitrary: b)
  case (Cons e es)
  obtain k h' c' b1 where e: "e = (k, h', c')" and b1: "close_order e b = Some b1" "replay es b1 = Some b'"
    using Cons.prems by (cases e) (auto simp: replay_Cons simp del: replay.simps)
  then show ?case
    using Cons.IH [OF b1(2)] by (auto simp: close_order_eq)
qed simp

section \<open>Runs of the router\<close>

text \<open>A top-level call, its reply dropped.\<close>

datatype router_request =
    Init string
  | Cancel onchain_intent
  | Execute string onchain_intent i128
  | StatusQuery string
  | ReceiptQuery string
  | NonceQuery string u64
  | AdminQuery

fun serve :: "('t, 'x) soroban_scheme \<Rightarrow> call_env \<Rightarrow> router_request \<Rightarrow> ('t, unit) router_call" where
  "serve H env (Init admin) = init env admin"
| "serve H env (Cancel i) = cancel_intent H env i"
| "serve H env (Execute solver i a) = abind (execute_intent H env solver i a) (\<lambda>_. aret ())"
| "serve H env (StatusQuery h) = abind (get_intent_status h) (\<lambda>_. aret ())"
| "serve H env (ReceiptQuery h) = abind (get_fill_receipt env h) (\<lambda>_. aret ())"
| "serve H env (NonceQuery a n) = abind (is_nonce_used a n) (\<lambda>_. aret ())"
| "serve H env AdminQuery = abind get_admin (\<lambda>_. aret ())"

text \<open>A run lists the requests that succeeded.  Between calls the tokens change at will.\<close>

inductive router_run :: "('t, 'x) soroban_scheme \<Rightarrow> router_request list \<Rightarrow> 't router \<Rightarrow> bool"
  for H where
  deploy: "router_run H [] (deployed life t)"
| served: "router_run H qs r \<Longrightarrow> invoke (serve H env q) r = (Inr u, r') \<Longrightarrow> router_run H (qs @ [q]) r'"
| refused: "router_run H qs r \<Longrightarrow> invoke (serve H env q) r = (Inl f, r') \<Longrightarrow> router_run H qs r'"
| tokens: "router_run H qs r \<Longrightarrow> router_run H qs (r\<lparr>rt_tokens := t\<rparr>)"

text \<open>The entry a request adds to the book.\<close>

fun entry :: "('t, 'x) soroban_scheme \<Rightarrow> router_request \<Rightarrow> book_entry list" where
  "entry H (Execute solver i a) = [((oc_trader i, oc_nonce i), get_intent_hash H i, FilledBy solver a)]"
| "entry H (Cancel i) = [((oc_trader i, oc_nonce i), get_intent_hash H i, Withdrawn)]"
| "entry H _ = []"

definition entries :: "('t, 'x) soroban_scheme \<Rightarrow> router_request list \<Rightarrow> book_entry list" where
  "entries H qs = concat (map (entry H) qs)"

subsection \<open>The abstraction\<close>

fun closing_of :: "intent_status \<Rightarrow> onchain_receipt option \<Rightarrow> closing option" where
  "closing_of Filled (Some rc) = Some (FilledBy (rc_solver rc) (rc_bought_amount rc))"
| "closing_of Cancelled _ = Some Withdrawn"
| "closing_of _ _ = None"

definition abs_book :: "'t router \<Rightarrow> order_book" where
  "abs_book r = \<lparr>ob_used = {(a, n). nonce_used r a n},
     ob_closed = (\<lambda>h. closing_of (status_of r h) (receipt_of r h))\<rparr>"

text \<open>Receipts and the status table agree, and \<open>Expired\<close> is never stored.\<close>

definition consistent :: "'t router \<Rightarrow> bool" where
  "consistent r \<longleftrightarrow> (\<forall>h. status_of r h \<noteq> Expired \<and>
     (status_of r h = Filled \<longleftrightarrow> receipt_of r h \<noteq> None) \<and>
     (\<forall>rc. receipt_of r h = Some rc \<longrightarrow> rc_intent_hash rc = h))"

lemmas views = status_of_def nonce_used_def receipt_of_def

text \<open>The views of the states the two closing operations leave.\<close>

lemma filled_views:
  "status_of (filled_state env i h rc e t r) = (status_of r)(h := Filled)"
  "nonce_used (filled_state env i h rc e t r) =
     (\<lambda>a n. (a, n) = (oc_trader i, oc_nonce i) \<or> nonce_used r a n)"
  "receipt_of (filled_state env i h rc e t r) = (receipt_of r)(h \<mapsto> rc)"
  by (auto simp: views filled_state_def fun_eq_iff)

lemma closed_none: "consistent r \<Longrightarrow> status_of r h = Active \<Longrightarrow> ob_closed (abs_book r) h = None"
  by (simp add: abs_book_def)

text \<open>Each operation refines its entry.\<close>

lemma execute_refines:
  assumes "consistent r" and "execute_intent H env solver i a r = (Inr rc, r')"
  shows "consistent r' \<and> close_order ((oc_trader i, oc_nonce i), get_intent_hash H i, FilledBy solver a)
     (abs_book r) = Some (abs_book r')"
proof -
  let ?h = "get_intent_hash H i"
  obtain e t where open': "status_of r ?h = Active" "\<not> nonce_used r (oc_trader i) (oc_nonce i)"
    and r': "r' = filled_state env i ?h rc e t r"
    and rc: "rc_intent_hash rc = ?h" "rc_solver rc = solver" "rc_bought_amount rc = a"
    using assms(2) by (auto simp: execute_intent_ok settle_fill_ok admissible_def)
  have "consistent r'"
    using assms(1) rc(1) by (auto simp: consistent_def r' filled_views)
  moreover have "abs_book r' = (abs_book r)\<lparr>
      ob_used := insert (oc_trader i, oc_nonce i) (ob_used (abs_book r)),
      ob_closed := (ob_closed (abs_book r))(?h \<mapsto> FilledBy solver a)\<rparr>"
    using rc by (auto simp: abs_book_def r' filled_views fun_eq_iff)
  ultimately show ?thesis
    using open' closed_none [OF assms(1) open'(1)] by (simp add: close_order_def abs_book_def)
qed

lemma cancel_refines:
  assumes "consistent r" and "cancel_intent H env i r = (Inr u, r')"
  shows "consistent r' \<and> close_order ((oc_trader i, oc_nonce i), get_intent_hash H i, Withdrawn)
     (abs_book r) = Some (abs_book r')"
proof -
  let ?h = "get_intent_hash H i"
  have open': "status_of r ?h = Active" "\<not> nonce_used r (oc_trader i) (oc_nonce i)"
    and v: "status_of r' = (status_of r)(?h := Cancelled)" "receipt_of r' = receipt_of r"
      "nonce_used r' = (\<lambda>a n. (a, n) = (oc_trader i, oc_nonce i) \<or> nonce_used r a n)"
    using assms(2) by (auto simp: cancel_intent_ok views fun_eq_iff)
  have "receipt_of r ?h = None"
    using assms(1) open'(1) by (metis consistent_def intent_status.distinct(1))
  then have "consistent r'"
    using assms(1) by (auto simp: consistent_def v)
  moreover have "abs_book r' = (abs_book r)\<lparr>
      ob_used := insert (oc_trader i, oc_nonce i) (ob_used (abs_book r)),
      ob_closed := (ob_closed (abs_book r))(?h \<mapsto> Withdrawn)\<rparr>"
    by (auto simp: abs_book_def v fun_eq_iff)
  ultimately show ?thesis
    using open' closed_none [OF assms(1) open'(1)] by (simp add: close_order_def abs_book_def)
qed

text \<open>The other requests leave what the views show.\<close>

lemma same_views:
  assumes "status_of r' = status_of r" and "receipt_of r' = receipt_of r" and "nonce_used r' = nonce_used r"
  shows "consistent r' = consistent r" and "abs_book r' = abs_book r"
  using assms by (simp_all add: consistent_def abs_book_def)

lemma queries_keep_views:
  assumes "serve H env q r = (Inr u, r')" and "entry H q = []"
  shows "status_of r' = status_of r \<and> receipt_of r' = receipt_of r \<and> nonce_used r' = nonce_used r"
  using assms
  by (cases q) (auto simp: router_eqs init_def get_fill_receipt_def views fun_eq_iff split: if_splits)

lemma serve_refines:
  assumes "consistent r" and "serve H env q r = (Inr u, r')"
  shows "consistent r' \<and> replay (entry H q) (abs_book r) = Some (abs_book r')"
proof (cases "entry H q = []")
  case True
  then show ?thesis
    using assms queries_keep_views [OF assms(2) True] same_views by (metis replay.simps(1))
next
  case False
  with assms(2) show ?thesis
    by (cases q) (auto simp: call_eqs dest: execute_refines [OF assms(1)] cancel_refines [OF assms(1)])
qed

lemma run_refines:
  "router_run H qs r \<Longrightarrow> consistent r \<and> replay (entries H qs) empty_book = Some (abs_book r)"
proof (induction rule: router_run.induct)
  case (deploy life t)
  then show ?case
    by (simp add: entries_def deployed_def consistent_def abs_book_def empty_book_def views st_get_def)
next
  case (served qs r env q u r')
  then show ?case
    using serve_refines [of r H env q u r'] by (simp add: entries_def replay_append invoke_ok)
next
  case (refused qs r env q f r')
  then show ?case
    by (simp add: invoke_failed)
next
  case (tokens qs r t)
  then show ?case
    by (simp add: consistent_def abs_book_def views)
qed

text \<open>The views read off the book, and the entries read off the requests.\<close>

lemma closed_views:
  assumes "consistent r"
  shows "status_of r h = Cancelled \<longleftrightarrow> ob_closed (abs_book r) h = Some Withdrawn"
    and "status_of r h = Filled \<longleftrightarrow> (\<exists>s a. ob_closed (abs_book r) h = Some (FilledBy s a))"
    and "(\<exists>t. receipt_of r h = Some \<lparr>rc_intent_hash = h, rc_solver = s, rc_bought_amount = a, rc_timestamp = t\<rparr>)
      \<longleftrightarrow> ob_closed (abs_book r) h = Some (FilledBy s a)"
proof -
  have c: "status_of r h \<noteq> Expired" "status_of r h = Filled \<longleftrightarrow> receipt_of r h \<noteq> None"
    "\<And>rc. receipt_of r h = Some rc \<Longrightarrow> rc_intent_hash rc = h"
    using assms by (auto simp: consistent_def)
  show "status_of r h = Cancelled \<longleftrightarrow> ob_closed (abs_book r) h = Some Withdrawn"
    and "status_of r h = Filled \<longleftrightarrow> (\<exists>s a. ob_closed (abs_book r) h = Some (FilledBy s a))"
    using c by (cases "status_of r h"; auto simp: abs_book_def)+
  show "(\<exists>t. receipt_of r h = Some \<lparr>rc_intent_hash = h, rc_solver = s, rc_bought_amount = a, rc_timestamp = t\<rparr>)
      \<longleftrightarrow> ob_closed (abs_book r) h = Some (FilledBy s a)"
  proof (cases "receipt_of r h")
    case None
    then show ?thesis
      using c by (cases "status_of r h") (simp_all add: abs_book_def)
  next
    case (Some rc)
    then show ?thesis
      using c by (cases rc) (auto simp: abs_book_def)
  qed
qed

lemma made_entries:
  "(h, FilledBy s a) \<in> snd ` set (entries H qs) \<longleftrightarrow>
     (\<exists>i. Execute s i a \<in> set qs \<and> get_intent_hash H i = h)"
  "(h, Withdrawn) \<in> snd ` set (entries H qs) \<longleftrightarrow> (\<exists>i. Cancel i \<in> set qs \<and> get_intent_hash H i = h)"
proof -
  have sources: "(h, c) \<in> snd ` set (entries H qs) \<longleftrightarrow> (\<exists>q \<in> set qs. \<exists>k. (k, h, c) \<in> set (entry H q))" for c
    by (force simp: entries_def)
  have entry: "(\<exists>k. (k, h, FilledBy s a) \<in> set (entry H q)) \<longleftrightarrow> (\<exists>i. q = Execute s i a \<and> get_intent_hash H i = h)"
    "(\<exists>k. (k, h, Withdrawn) \<in> set (entry H q)) \<longleftrightarrow> (\<exists>i. q = Cancel i \<and> get_intent_hash H i = h)" for q
    by (cases q; auto)+
  show "(h, FilledBy s a) \<in> snd ` set (entries H qs) \<longleftrightarrow>
     (\<exists>i. Execute s i a \<in> set qs \<and> get_intent_hash H i = h)"
    and "(h, Withdrawn) \<in> snd ` set (entries H qs) \<longleftrightarrow> (\<exists>i. Cancel i \<in> set qs \<and> get_intent_hash H i = h)"
    unfolding sources entry by blast+
qed

text \<open>Every error code is reported before anything is written: a call that ends with a code,
  not a trap, leaves the state untouched even without the host's rollback.\<close>

lemma fail_before_effects:
  assumes "serve H env q r = (Inl (Fail e), r')"
  shows "r' = r"
proof (cases q)
  case (Execute solver i a)
  then show ?thesis
    using assms by (auto simp: call_eqs execute_intent_def dest: settle_fill_traps admit_fill_same)
qed (use assms in \<open>auto simp: router_eqs init_def cancel_intent_def get_fill_receipt_def Let_def
  split: if_splits\<close>)

section \<open>A sample run\<close>

text \<open>A host whose tokens accept every transfer, and which hashes an intent to its trader and
  the unary form of its nonce.\<close>

definition reference_host :: "unit soroban" where
  "reference_host = \<lparr>intent_xdr = (\<lambda>i. replicate (unat (oc_nonce i)) CHR ''1'' @ oc_trader i),
     host_sha256 = (\<lambda>s. s), token_transfer = (\<lambda>_ _ _ _ _ t. (Inr (), t))\<rparr>"

definition sample_order :: "u64 \<Rightarrow> onchain_intent" where
  "sample_order n = \<lparr>oc_trader = ''T'', oc_sell_token = ''A'', oc_buy_token = ''B'', oc_sell_amount = 1000,
     oc_min_buy_amount = 990, oc_max_slippage_bps = 50, oc_deadline = 2000, oc_nonce = n,
     oc_solver_fee_bps = 10\<rparr>"

lemma sample_order_values:
  "oc_trader (sample_order n) = ''T''" "oc_sell_token (sample_order n) = ''A''"
  "oc_buy_token (sample_order n) = ''B''" "oc_sell_amount (sample_order n) = 1000"
  "oc_min_buy_amount (sample_order n) = 990" "oc_max_slippage_bps (sample_order n) = 50"
  "oc_deadline (sample_order n) = 2000" "oc_nonce (sample_order n) = n"
  "oc_solver_fee_bps (sample_order n) = 10"
  by (simp_all add: sample_order_def)

text \<open>The trader has signed the cancellation of order 1 and the fill of order 0 by \<open>S\<close>, with
  the transfer it makes; so has the solver.\<close>

definition sample_fill_auths :: "onchain_intent \<Rightarrow> i128 \<Rightarrow> (string \<times> invocation) set" where
  "sample_fill_auths i a =
     {''S'', ''T''} \<times> {\<lparr>inv_contract = ''R'', inv_function = ''execute_intent'', inv_args = fill_args ''S'' i a\<rparr>}
     \<union> {(''T'', \<lparr>inv_contract = ''A'', inv_function = ''transfer'',
            inv_args = transfer_args ''T'' ''S'' (oc_sell_amount i)\<rparr>),
         (''S'', \<lparr>inv_contract = ''B'', inv_function = ''transfer'', inv_args = transfer_args ''S'' ''R'' a\<rparr>)}"

definition sample_env :: call_env where
  "sample_env = \<lparr>env_timestamp = 1000, env_sequence = 7, env_min_ttl = 4096, env_auths =
     insert (''T'', \<lparr>inv_contract = ''R'', inv_function = ''cancel_intent'', inv_args = [intent_arg (sample_order 1)]\<rparr>)
       (sample_fill_auths (sample_order 0) 2000),
     env_invoker = None, env_contract = ''R''\<rparr>"

lemma sample_auths:
  "env_timestamp sample_env = 1000" "env_contract sample_env = ''R''"
  "both_authorised sample_env ''S'' (sample_order 0) 2000"
  "authorised sample_env ''T'' ''cancel_intent'' [intent_arg (sample_order 1)]"
  by (simp_all add: sample_env_def both_authorised_def authorised_def sample_fill_auths_def sample_order_def)

text \<open>The same ledger with the signatures for the fill of any order of \<open>T\<close> by \<open>S\<close>.\<close>

definition fill_env :: "onchain_intent \<Rightarrow> i128 \<Rightarrow> call_env" where
  "fill_env i a = sample_env\<lparr>env_auths := sample_fill_auths i a\<rparr>"

lemma fill_env_values:
  "env_timestamp (fill_env i a) = 1000" "env_contract (fill_env i a) = ''R''"
  "oc_trader i = ''T'' \<Longrightarrow> both_authorised (fill_env i a) ''S'' i a"
  by (simp_all add: fill_env_def sample_env_def both_authorised_def authorised_def sample_fill_auths_def)

lemma sample_split: "split_fill (sample_order n) 2000 = Inr (2, 1998)"
  by (subst split_fill_eq) (simp_all add: sample_order_def Let_def i128_range_def bps_share_def
      shortfall_bps_def)

lemma sample_run:
  "\<exists>r. router_run reference_host [Cancel (sample_order 1), Execute ''S'' (sample_order 0) 2000] r"
proof -
  let ?d = "deployed 0 () :: unit router"
  obtain r1 where r1: "invoke (serve reference_host sample_env (Cancel (sample_order 1))) ?d = (Inr (), r1)"
    and v: "status_of r1 = (\<lambda>_. Active)(''1T'' := Cancelled)"
      "nonce_used r1 = (\<lambda>a n. (a, n) = (''T'', 1))"
    by (auto simp: invoke_ok cancel_intent_ok views deployed_def st_get_def sample_order_values
        sample_auths get_intent_hash_def reference_host_def fun_eq_iff)
  obtain r2 where r2: "invoke (serve reference_host sample_env (Execute ''S'' (sample_order 0) 2000)) r1
      = (Inr (), r2)"
    using sample_split [of 0]
    by (auto simp: invoke_ok call_eqs execute_intent_ok settle_fill_ok payments_def admissible_def v
        sample_order_values sample_auths get_intent_hash_def reference_host_def Let_def)
  show ?thesis
    using router_run.served [OF router_run.served [OF router_run.deploy r1] r2] by auto
qed

section \<open>Properties\<close>

text \<open>(C9) The router refines the order book: whatever calls are made of it, the closings of the
  calls that succeeded replay in the book, and lead to what the router's storage says.\<close>

theorem router_refines_order_book:
  assumes "router_run H qs r"
  shows "replay (entries H qs) empty_book = Some (abs_book r)"
  using run_refines [OF assms] by simp

theorem router_refines_order_book_witness:
  "\<exists>b. replay (entries reference_host [Cancel (sample_order 1), Execute ''S'' (sample_order 0) 2000])
     empty_book = Some b"
  using sample_run router_refines_order_book by blast

text \<open>(C3) No order closes twice: over all fills and cancellations that ever succeed, no
  trader's nonce and no intent hash occurs twice.  So an order is filled at most once, a
  cancelled order is never filled, and two orders cannot share a nonce.\<close>

theorem orders_close_once:
  assumes "router_run H qs r"
  shows "distinct (map fst (entries H qs)) \<and> distinct (map (fst \<circ> snd) (entries H qs))"
  using run_refines [OF assms] replay_keys replay_hashes by blast

theorem orders_close_once_witness:
  "distinct (map fst (entries reference_host
     [Cancel (sample_order 1), Execute ''S'' (sample_order 0) 2000]))"
  using sample_run orders_close_once by blast

text \<open>(C22) What the views report is what happened: a hash is \<open>Filled\<close> exactly when a fill of
  it succeeded, with a receipt that names its hash, solver and amount; it is \<open>Cancelled\<close>
  exactly when its cancellation succeeded; and \<open>Expired\<close> is never stored.\<close>

theorem views_tell_the_history:
  assumes "router_run H qs r"
  shows "(status_of r h = Filled \<longleftrightarrow> (\<exists>s i a. Execute s i a \<in> set qs \<and> get_intent_hash H i = h)) \<and>
    (status_of r h = Cancelled \<longleftrightarrow> (\<exists>i. Cancel i \<in> set qs \<and> get_intent_hash H i = h)) \<and>
    status_of r h \<noteq> Expired \<and>
    ((\<exists>t. receipt_of r h = Some \<lparr>rc_intent_hash = h, rc_solver = s, rc_bought_amount = a, rc_timestamp = t\<rparr>)
       \<longleftrightarrow> (\<exists>i. Execute s i a \<in> set qs \<and> get_intent_hash H i = h))"
proof -
  have cons: "consistent r" and closed: "ob_closed (abs_book r) h = Some c \<longleftrightarrow> (h, c) \<in> snd ` set (entries H qs)" for c
    using run_refines [OF assms] replay_closed [of "entries H qs" empty_book "abs_book r" h c]
    by (simp_all add: empty_book_def)
  have "status_of r h \<noteq> Expired"
    using cons by (simp add: consistent_def)
  then show ?thesis
    unfolding closed_views [OF cons] closed made_entries by blast
qed

theorem views_tell_the_history_witness:
  "\<exists>r. status_of r ''T'' = Filled \<and> status_of r ''1T'' = Cancelled \<and> status_of (r :: unit router) ''11T'' = Active"
proof -
  let ?qs = "[Cancel (sample_order 1), Execute ''S'' (sample_order 0) 2000]"
  obtain r where r: "router_run reference_host ?qs r"
    using sample_run by blast
  note v = views_tell_the_history [OF r]
  have "status_of r ''T'' = Filled" "status_of r ''1T'' = Cancelled" "status_of r ''11T'' \<noteq> Filled"
    "status_of r ''11T'' \<noteq> Cancelled" "status_of r ''11T'' \<noteq> Expired"
    using v [of "''T''"] v [of "''1T''"] v [of "''11T''"]
    by (auto simp: get_intent_hash_def reference_host_def sample_order_def)
  then show ?thesis
    by (intro exI [of _ r]) (cases "status_of r ''11T''"; simp)
qed

text \<open>(C23) When both parties have authorised the call, \<open>execute_intent\<close> reports the first guard
  that fails, in the order of the table \<open>fill_checks\<close>, and a code only then.\<close>

theorem execute_intent_reports_first_failure:
  assumes "both_authorised env solver i a"
  shows "execute_intent H env solver i a r = (Inl (Fail e), r') \<longleftrightarrow>
     first_failure (fill_checks H env solver i a r) = Inl e \<and> r' = r"
  using assms by (rule execute_intent_errors)

theorem execute_intent_reports_first_failure_witness:
  "execute_intent reference_host (sample_env\<lparr>env_timestamp := 2001\<rparr>) ''S'' (sample_order 0) 2000 (deployed 0 ())
     = (Inl (Fail IntentExpired), deployed 0 ())"
proof (subst execute_intent_reports_first_failure)
  show "both_authorised (sample_env\<lparr>env_timestamp := 2001\<rparr>) ''S'' (sample_order 0) 2000"
    using sample_auths(3) by (simp add: both_authorised_def authorised_def)
qed (simp add: sample_order_values fill_checks_def Let_def)

end
