(* ===== verification/Agreement.thy ===== *)
theory Agreement
  imports Evaluator RouterLedger "HOL-Library.Multiset"
begin

section \<open>The two sides of the protocol agree\<close>

text \<open>
  The TypeScript packages promise to mirror the router: \<open>checkFillAgainstIntent\<close> predicts what
  \<open>execute_intent\<close> decides, and \<open>hashIntent\<close> is \<open>get_intent_hash\<close>.  Here both promises are
  stated between the two models.  \<open>on_chain\<close> is the intent the router receives for an intent
  of the SDK; it keeps every value of an intent that is \<open>representable\<close> in the widths of
  the contract.
\<close>

definition on_chain :: "trader_intent \<Rightarrow> onchain_intent" where
  "on_chain i = \<lparr>oc_trader = trader i, oc_sell_token = sellToken i, oc_buy_token = buyToken i,
     oc_sell_amount = word_of_int (sellAmount i), oc_min_buy_amount = word_of_int (minBuyAmount i),
     oc_max_slippage_bps = word_of_int (num_int (maxSlippageBps i)),
     oc_deadline = word_of_int (num_int (deadline i)), oc_nonce = word_of_int (nonce i),
     oc_solver_fee_bps = word_of_int (num_int (solverFeeBps i))\<rparr>"

definition representable :: "trader_intent \<Rightarrow> bool" where
  "representable i \<longleftrightarrow> i128_range (sellAmount i) \<and> i128_range (minBuyAmount i) \<and>
     num_int (deadline i) < 2 ^ 64 \<and> nonce i < 2 ^ 64"

lemma on_chain_values:
  assumes "intent_valid A i" and "representable i"
  shows "sint (oc_sell_amount (on_chain i)) = sellAmount i"
    and "sint (oc_min_buy_amount (on_chain i)) = minBuyAmount i"
    and "uint (oc_max_slippage_bps (on_chain i)) = num_int (maxSlippageBps i)"
    and "uint (oc_solver_fee_bps (on_chain i)) = num_int (solverFeeBps i)"
    and "uint (oc_deadline (on_chain i)) = num_int (deadline i)"
    and "uint (oc_nonce (on_chain i)) = nonce i"
  using assms
  by (auto simp: on_chain_def representable_def intent_valid_def bps_ok_def uint_word_of_int)

lemma on_chain_address:
  "oc_trader (on_chain i) = trader i" "oc_sell_token (on_chain i) = sellToken i"
  "oc_buy_token (on_chain i) = buyToken i"
  by (simp_all add: on_chain_def)

subsection \<open>The decision\<close>

text \<open>The router's table of checks, for an intent of the SDK.\<close>

lemma on_chain_checks:
  assumes "intent_valid A i" and "representable i" and "i128_range a" and "0 \<le> now" "now < 2 ^ 64"
    and "env_timestamp env = word_of_int now" and "solver \<noteq> trader i"
    and "status_of r (get_intent_hash H (on_chain i)) = Active"
    and "\<not> nonce_used r (trader i) (oc_nonce (on_chain i))"
    and "i128_range (a * num_int (solverFeeBps i))"
  shows "first_failure (fill_checks H env solver (on_chain i) (word_of_int a) r) = Inr () \<longleftrightarrow>
     \<not> js_less (deadline i) (Fin (of_int now)) \<and>
     fill_within_terms (minBuyAmount i) (num_int (maxSlippageBps i)) (num_int (solverFeeBps i)) a"
proof -
  obtain t b d where n: "maxSlippageBps i = Fin (of_int t)" "0 \<le> t" "t \<le> 10000"
    "solverFeeBps i = Fin (of_int b)" "0 \<le> b" "b \<le> 10000" "deadline i = Fin (of_int d)"
    "0 < sellAmount i" "0 < minBuyAmount i"
    using intent_valid_numbers [OF assms(1)] by metis
  note v = on_chain_values [OF assms(1,2)]
  have bps: "oc_max_slippage_bps (on_chain i) \<le> 10000" "oc_solver_fee_bps (on_chain i) \<le> 10000"
    using n by (simp_all add: word_le_def v)
  have clock: "word_of_int now \<le> oc_deadline (on_chain i) \<longleftrightarrow> now \<le> d"
    using assms(4,5) n(7) by (simp add: word_le_def v uint_word_of_int)
  have tr: "oc_trader (on_chain i) = trader i"
    by (simp add: on_chain_def)
  show ?thesis
    using n assms bps
    by (auto simp: first_failure_ok fill_checks_def Let_def v clock tr fill_within_terms_def)
qed

text \<open>The evaluator's verdict and the router's answer, with the amounts of an accepted fill.\<close>

lemma verdicts_agree:
  assumes "intent_valid A i" and "representable i" and "i128_range a" and "0 \<le> now" "now < 2 ^ 64"
    and "env_timestamp env = word_of_int now" and "solver \<noteq> trader i" and "both_authorised env solver (on_chain i) (word_of_int a)"
    and "status_of r (get_intent_hash H (on_chain i)) = Active"
    and "\<not> nonce_used r (trader i) (oc_nonce (on_chain i))"
    and "i128_range (a * num_int (solverFeeBps i))"
    and "checkFillAgainstIntent i a (Fin (of_int now)) = Inr c"
  shows "fc_ok c \<longleftrightarrow> (\<nexists>e r'. execute_intent H env solver (on_chain i) (word_of_int a) r = (Inl (Fail e), r'))"
    and "execute_intent H env solver (on_chain i) (word_of_int a) r = (Inr rc, r') \<Longrightarrow>
      rt_events r' = rt_events r @ [IntentFilled (trader i) (rc_intent_hash rc) solver
        (word_of_int (fc_traderProceeds c)) (word_of_int (fc_solverFee c)) (rc_timestamp rc)]"
proof -
  note auth = assms(8)
  let ?ff = "first_failure (fill_checks H env solver (on_chain i) (word_of_int a) r)"
  have ok: "fc_ok c \<longleftrightarrow> ?ff = Inr ()"
    unfolding on_chain_checks [OF assms(1-7,9-11)]
    using check_of_valid [OF assms(1), of a "Fin (of_int now)"] assms(12) by (metis Inr_inject)
  then show "fc_ok c \<longleftrightarrow> (\<nexists>e r'. execute_intent H env solver (on_chain i) (word_of_int a) r = (Inl (Fail e), r'))"
    unfolding execute_intent_errors [OF auth] by (cases ?ff) auto
  assume run: "execute_intent H env solver (on_chain i) (word_of_int a) r = (Inr rc, r')"
  then obtain f p where split: "split_fill (on_chain i) (word_of_int a) = Inr (f, p)"
    and adm: "admissible H env solver (on_chain i) (word_of_int a) r"
    and settle: "settle_fill H env solver (on_chain i) (word_of_int a) (get_intent_hash H (on_chain i)) f p r = (Inr rc, r')"
    unfolding execute_intent_ok by blast
  have pre: "0 < sint (oc_min_buy_amount (on_chain i))"
    "sint (oc_min_buy_amount (on_chain i)) \<le> sint (word_of_int a :: i128)" "oc_solver_fee_bps (on_chain i) \<le> 10000"
    using adm by (auto simp: admissible_def)
  note v = split_fill_values [OF split pre]
  have "fc_ok c"
    unfolding ok using run execute_intent_errors [OF auth, of H r] by (cases ?ff) auto
  then have c: "fc_solverFee c = bps_share a (num_int (solverFeeBps i))"
    "fc_traderProceeds c = a - bps_share a (num_int (solverFeeBps i))"
    using check_of_valid [OF assms(1), of a "Fin (of_int now)"] assms(12) by (metis Inr_inject)+
  have "sint f = fc_solverFee c" "sint p = fc_traderProceeds c"
    using v(1,2) by (simp_all add: c on_chain_values [OF assms(1,2)] assms(3))
  moreover have "w = word_of_int (sint w)" for w :: i128
    by simp
  ultimately have "f = word_of_int (fc_solverFee c)" "p = word_of_int (fc_traderProceeds c)"
    by metis+
  then show "rt_events r' = rt_events r @ [IntentFilled (trader i) (rc_intent_hash rc) solver
        (word_of_int (fc_traderProceeds c)) (word_of_int (fc_solverFee c)) (rc_timestamp rc)]"
    using settle by (auto simp: settle_fill_ok filled_state_def on_chain_def)
qed

subsection \<open>The hash\<close>

text \<open>
  How the host serializes the contract's struct (the documentation of \<open>TraderIntent\<close> in
  types.rs): the fields in their declared order, each as the ScVal of its Rust type, become
  a map whose symbol keys are sorted.  The encoders are those of the Stellar SDK.
\<close>

definition struct_fields :: "('sv, 'x) stellar_sdk_scheme \<Rightarrow> onchain_intent \<Rightarrow> (string \<times> 'sv) list result" where
  "struct_fields S ob =
     rbind (address_scval S (oc_trader ob)) (\<lambda>tr.
     rbind (address_scval S (oc_sell_token ob)) (\<lambda>st.
     rbind (address_scval S (oc_buy_token ob)) (\<lambda>bt.
     rbind (i128_scval S (sint (oc_sell_amount ob))) (\<lambda>sa.
     rbind (i128_scval S (sint (oc_min_buy_amount ob))) (\<lambda>mb.
     rbind (u32_scval S (Fin (of_int (uint (oc_max_slippage_bps ob))))) (\<lambda>sl.
     rbind (u64_scval S (uint (oc_deadline ob))) (\<lambda>dl.
     rbind (u64_scval S (uint (oc_nonce ob))) (\<lambda>nc.
     rbind (u32_scval S (Fin (of_int (uint (oc_solver_fee_bps ob))))) (\<lambda>sf.
     Inr [(''trader'', tr), (''sell_token'', st), (''buy_token'', bt), (''sell_amount'', sa),
          (''min_buy_amount'', mb), (''max_slippage_bps'', sl), (''deadline'', dl), (''nonce'', nc),
          (''solver_fee_bps'', sf)])))))))))"

definition canonical_host :: "('t, 'y) soroban_scheme \<Rightarrow> ('sv, 'x) stellar_sdk_scheme \<Rightarrow> bool" where
  "canonical_host H S \<longleftrightarrow> host_sha256 H = sha256 S \<and>
     (\<forall>ob fs. struct_fields S ob = Inr fs \<longrightarrow>
        intent_xdr H ob = to_xdr S (map_scval S (map (\<lambda>(k, v). (symbol_scval S k, v)) (sort_key fst fs))))"

lemma struct_fields_sorted:
  assumes "intent_valid A i" and "representable i" and "byField S i = Inr fs"
  shows "\<exists>gs. struct_fields S (on_chain i) = Inr gs \<and> sort_key fst gs = fs"
proof -
  obtain t b d where n: "maxSlippageBps i = Fin (of_int t)" "solverFeeBps i = Fin (of_int b)"
    "deadline i = Fin (of_int d)"
    using intent_valid_numbers [OF assms(1)] by metis
  obtain gs where gs: "struct_fields S (on_chain i) = Inr gs" and "mset gs = mset fs"
    using assms(3) unfolding struct_fields_def on_chain_values [OF assms(1,2)] on_chain_address
    by (auto simp: byField_def scval_defs result_simps n)
  moreover have keys: "map fst fs = SCVAL_FIELD_ORDER"
    using assms(3) by (rule byField_keys)
  have "sorted SCVAL_FIELD_ORDER" "distinct SCVAL_FIELD_ORDER"
    by code_simp+
  then have "sorted (map fst fs)" "inj_on fst (set fs)"
    by (simp_all add: keys distinct_map flip: keys)
  ultimately show ?thesis
    using sort_key_inj_key_eq [of gs fs fst] by (metis set_mset_mset)
qed

lemma hashes_agree:
  assumes "intent_valid A i" and "representable i" and "canonical_host H S"
    and "intentDigest S i = Inr d"
  shows "get_intent_hash H (on_chain i) = d"
proof -
  obtain fs where fs: "byField S i = Inr fs"
    using assms(4) by (auto simp: intentDigest_def intentToScVal_def result_simps)
  have d: "d = sha256 S (to_xdr S (map_scval S (map (\<lambda>(k, v). (symbol_scval S k, v)) fs)))"
    using assms(4) intentToScVal_fields [OF fs] by (simp add: intentDigest_def symbolScVal_def)
  obtain gs where "struct_fields S (on_chain i) = Inr gs" "sort_key fst gs = fs"
    using struct_fields_sorted [OF assms(1,2) fs] by blast
  then show ?thesis
    using assms(3) by (auto simp: get_intent_hash_def canonical_host_def d)
qed

section \<open>Properties\<close>

text \<open>The sample intent, on chain and off chain.\<close>

lemma sample_representable: "representable sample_intent"
  by (simp add: representable_def sample_intent_def i128_range_def num_int_def)

lemma sample_values: "trader sample_intent = ''T''" "minBuyAmount sample_intent = 990"
  by (simp_all add: sample_intent_def)

lemma sample_on_chain:
  "status_of (deployed life t) h = Active" "\<not> nonce_used (deployed life t) x n"
  by (simp_all add: views deployed_def st_get_def)

text \<open>(C7) The evaluator mirrors the router: for a valid, representable intent that is still
  open, a solver other than the trader, both authorisations of the call and a fee product within
  \<open>i128\<close>, \<open>checkFillAgainstIntent\<close> accepts a fill exactly when \<open>execute_intent\<close> does not answer
  with an error code, and a fill that settles pays the proceeds and the fee it predicted.\<close>

theorem evaluator_agrees_with_router:
  assumes "intent_valid A i" and "representable i" and "i128_range a" and "0 \<le> now" and "now < 2 ^ 64"
    and "env_timestamp env = word_of_int now" and "solver \<noteq> trader i" and "both_authorised env solver (on_chain i) (word_of_int a)"
    and "status_of r (get_intent_hash H (on_chain i)) = Active"
    and "\<not> nonce_used r (trader i) (oc_nonce (on_chain i))"
    and "i128_range (a * num_int (solverFeeBps i))"
    and "checkFillAgainstIntent i a (Fin (of_int now)) = Inr c"
  shows "(fc_ok c \<longleftrightarrow>
      (\<nexists>e r'. execute_intent H env solver (on_chain i) (word_of_int a) r = (Inl (Fail e), r'))) \<and>
    (\<forall>rc r'. execute_intent H env solver (on_chain i) (word_of_int a) r = (Inr rc, r') \<longrightarrow>
      rt_events r' = rt_events r @ [IntentFilled (trader i) (rc_intent_hash rc) solver
        (word_of_int (fc_traderProceeds c)) (word_of_int (fc_solverFee c)) (rc_timestamp rc)])"
  using verdicts_agree [OF assms] by blast

theorem evaluator_agrees_with_router_witness:
  "\<exists>c. checkFillAgainstIntent sample_intent 990 (Fin 1000) = Inr c \<and>
     (fc_ok c \<longleftrightarrow> (\<nexists>e r'. execute_intent reference_host (fill_env (on_chain sample_intent) 990) ''S'' (on_chain sample_intent) 990
       (deployed 0 ()) = (Inl (Fail e), r')))"
proof (rule sample_accepted)
  fix c assume c: "checkFillAgainstIntent sample_intent 990 (Fin 1000) = Inr c" "fc_ok c"
  have "checkFillAgainstIntent sample_intent 990 (Fin (of_int 1000)) = Inr c"
    using c(1) by simp
  then show ?thesis
    using evaluator_agrees_with_router [OF sample_intent_valid sample_representable _ _ _ _ _ _
      sample_on_chain, where a = 990 and now = 1000 and env = "fill_env (on_chain sample_intent) 990"
      and solver = "''S''" and H = reference_host and c = c] c(1) sample_values
    by (simp add: fill_env_values on_chain_address i128_range_def)
       (simp add: sample_intent_def i128_range_def num_int_def)
qed

text \<open>(C10) The hash the SDK computes is the hash the router computes: the digest of the SDK's
  field order and encodings equals the digest of the host's form of the contract's struct.\<close>

theorem sdk_hash_is_router_hash:
  assumes "intent_valid A i" and "representable i" and "canonical_host H S"
    and "intentDigest S i = Inr d"
  shows "get_intent_hash H (on_chain i) = d \<and> hashIntent S i = Inr (to_hex (get_intent_hash H (on_chain i)))"
  using hashes_agree [OF assms] assms(4) by (simp add: hashIntent_def)

definition sdk_host :: "unit soroban" where
  "sdk_host = \<lparr>intent_xdr = (\<lambda>ob. case struct_fields reference_sdk ob of
       Inr fs \<Rightarrow> net_map (sort_key fst fs) | Inl _ \<Rightarrow> []),
     host_sha256 = sha256 reference_sdk, token_transfer = (\<lambda>_ _ _ _ _ t. (Inr (), t))\<rparr>"

theorem sdk_hash_is_router_hash_witness:
  "\<exists>d. intentDigest reference_sdk sample_intent = Inr d \<and> get_intent_hash sdk_host (on_chain sample_intent) = d"
proof -
  have host: "canonical_host sdk_host reference_sdk"
    by (auto simp: canonical_host_def sdk_host_def reference_sdk_def split: prod.split)
  obtain d where d: "intentDigest reference_sdk sample_intent = Inr d"
    by (simp add: intentDigest_def intentToScVal_def byField_def scval_defs reference_sdk_def sample_intent_def)
  from sdk_hash_is_router_hash [OF sample_intent_valid sample_representable host d] d show ?thesis
    by blast
qed

text \<open>The router's arithmetic overflows exactly when the amount times the fee rate leaves
  \<open>i128\<close>: the subtractions, the scaled shortfall and the divisions never do.\<close>

lemma split_overflow_bound:
  assumes "0 < sint (oc_min_buy_amount i)" and "sint (oc_min_buy_amount i) \<le> sint a"
    and "oc_solver_fee_bps i \<le> 10000"
  shows "split_fill i a = Inl (Fail MathOverflow) \<longleftrightarrow> 2 ^ 127 \<le> sint a * uint (oc_solver_fee_bps i)"
proof -
  have "0 \<le> sint a * uint (oc_solver_fee_bps i)"
    using assms by simp
  then have "i128_range (sint a * uint (oc_solver_fee_bps i)) \<longleftrightarrow>
      \<not> 2 ^ 127 \<le> sint a * uint (oc_solver_fee_bps i)"
    by (auto simp: i128_range_def)
  then show ?thesis
    unfolding split_fill_eq [OF assms] Let_def by simp
qed

lemma split_overflow_bound_witness:
  "split_fill (sample_order 0) (word_of_int (2 ^ 127 - 1)) = Inl (Fail MathOverflow)"
  by (subst split_overflow_bound) (simp_all add: sample_order_def i128_range_def)

text \<open>The evaluator's unbounded arithmetic has no such limit: it accepts a fill that the router
  refuses with \<open>MathOverflow\<close>.\<close>

lemma evaluator_misses_overflow:
  "(\<exists>c. checkFillAgainstIntent sample_intent (2 ^ 127 - 1) (Fin 1000) = Inr c \<and> fc_ok c) \<and>
   execute_intent reference_host (fill_env (on_chain sample_intent) (word_of_int (2 ^ 127 - 1))) ''S''
     (on_chain sample_intent) (word_of_int (2 ^ 127 - 1)) (deployed 0 ()) = (Inl (Fail MathOverflow), deployed 0 ())"
proof (rule conjI)
  have "fill_within_terms 990 50 10 990"
    by (simp add: fill_within_terms_def shortfall_bps_def bps_share_def)
  then have "fill_within_terms 990 50 10 (2 ^ 127 - 1)"
    by (rule fill_within_terms_mono [rotated 3]) simp_all
  then show "\<exists>c. checkFillAgainstIntent sample_intent (2 ^ 127 - 1) (Fin 1000) = Inr c \<and> fc_ok c"
    using check_of_valid [OF sample_intent_valid, of "2 ^ 127 - 1" "Fin 1000"]
    by (auto simp: sample_intent_def num_int_def)
  show "execute_intent reference_host (fill_env (on_chain sample_intent) (word_of_int (2 ^ 127 - 1))) ''S''
     (on_chain sample_intent) (word_of_int (2 ^ 127 - 1)) (deployed 0 ()) = (Inl (Fail MathOverflow), deployed 0 ())"
    by (subst execute_intent_errors [OF fill_env_values(3)])
       (simp_all add: fill_env_values on_chain_def sample_intent_def fill_checks_def Let_def
         views deployed_def st_get_def i128_range_def num_int_def)
qed

end
