(* ===== verification/Queries.thy ===== *)
theory Queries
  imports Agreement Client
begin

section \<open>The client reads the router\<close>

text \<open>
  The read calls of the SDK's client against the router's state.  A node simulates an
  operation by running it on the ledger it has, and returns the ScVal of the result; this is
  the assumption \<open>node_reads\<close>, about the RPC server and the Stellar SDK.  What the client
  makes of it (the operation it builds, the digest it decodes from the hexadecimal hash, the
  checks of the result's type) is the code's.
\<close>

text \<open>Every transaction with this call is simulated, and returns the value.\<close>

definition node_returns ::
  "('sv, 'op, 'acct, 'tx, 'au, 'rest, 'w, 'x) chain_api_scheme \<Rightarrow> slipguard_client \<Rightarrow> string
     \<Rightarrow> 'sv list \<Rightarrow> 'sv \<Rightarrow> bool" where
  "node_returns C cl f args v \<longleftrightarrow> (\<forall>acct fee w. \<exists>tx res rest w'.
     build_tx C acct fee (cl_networkPassphrase cl) (contract_call C (cl_contractId cl) f args) 60 = Inr tx \<and>
     simulate_tx C tx w = (Inr (SimulationSuccess (Some res) rest), w') \<and> sim_retval res = Some v)"

definition node_reads ::
  "('sv, 'op, 'acct, 'tx, 'au, 'rest, 'w, 'x) chain_api_scheme \<Rightarrow> slipguard_client
     \<Rightarrow> ('t, 'y) soroban_scheme \<Rightarrow> 't router \<Rightarrow> trader_intent \<Rightarrow> bool" where
  "node_reads C cl H r i \<longleftrightarrow>
     (\<forall>v. intentToScVal C i = Inr v \<longrightarrow> (\<exists>ret. node_returns C cl ''get_intent_hash'' [v] ret \<and>
        scval_type C ret = ''scvBytes'' \<and> scval_bytes C ret = get_intent_hash H (on_chain i))) \<and>
     (\<forall>h. length h = 32 \<longrightarrow> (\<exists>ret. node_returns C cl ''get_intent_status'' [bytes_scval C h] ret \<and>
        scval_type C ret = ''scvU32'' \<and> scval_u32 C ret = status_code (status_of r h)))"

lemma simulateRead_returns:
  assumes "node_returns C cl f args v" and "get_account C key w = (Inr acct, w1)" and "key \<noteq> []"
    and "case publicKey of Some k \<Rightarrow> k = key | None \<Rightarrow> cl_publicKey cl = Some key"
  shows "\<exists>w'. simulateRead C cl (contract_call C (cl_contractId cl) f args) publicKey w = (Inr v, w')"
proof -
  obtain tx res rest w' where "build_tx C acct (base_fee C) (cl_networkPassphrase cl)
      (contract_call C (cl_contractId cl) f args) 60 = Inr tx"
    "simulate_tx C tx w1 = (Inr (SimulationSuccess (Some res) rest), w')" "sim_retval res = Some v"
    using assms(1) unfolding node_returns_def by blast
  then show ?thesis
    using assms(2-4)
    by (auto simp: simulateRead_def sourceAccount_def buildTransaction_def abind_def alift_def Let_def
        split: option.splits)
qed

lemma queries_read_router:
  assumes "intent_valid A i" and "representable i" and "canonical_host H C" and "\<forall>x. length (sha256 C x) = 32"
    and "client_hashIntent C cl i = Inr h" and "node_reads C cl H r i"
    and "get_account C key w = (Inr acct, w1)" and "key \<noteq> []"
    and "case publicKey of Some k \<Rightarrow> k = key | None \<Rightarrow> cl_publicKey cl = Some key"
  shows "(\<exists>w'. getIntentHash C cl i publicKey w = (Inr h, w')) \<and>
    (\<exists>w'. getIntentStatus C cl i publicKey w = (Inr (status_code (status_of r (get_intent_hash H (on_chain i)))), w'))"
proof -
  obtain v d where v: "intentToScVal C i = Inr v" and d: "intentDigest C i = Inr d" "h = to_hex d"
    using assms(5) by (auto simp: client_hashIntent_def hashIntent_def intentDigest_def result_simps)
  have hash: "get_intent_hash H (on_chain i) = d"
    by (rule hashes_agree [OF assms(1-3) d(1)])
  have len: "length d = 32"
    using assms(4) d(1) by (auto simp: intentDigest_def result_simps)
  note read = simulateRead_returns [OF _ assms(7-9)]
  obtain ret where ret: "node_returns C cl ''get_intent_hash'' [v] ret" "scval_type C ret = ''scvBytes''"
    "scval_bytes C ret = d"
    using assms(6) v hash unfolding node_reads_def by blast
  obtain st where st: "node_returns C cl ''get_intent_status'' [bytes_scval C d] st" "scval_type C st = ''scvU32''"
    "scval_u32 C st = status_code (status_of r d)"
    using assms(6) len unfolding node_reads_def by blast
  have "\<exists>w'. getIntentHash C cl i publicKey w = (Inr h, w')"
    using read [OF ret(1)] ret(2,3) v d(2)
    by (auto simp: getIntentHash_def buildGetIntentHashOperation_def abind_def alift_def aret_def)
  moreover have "rbind (hashIntent C i) (buildGetIntentStatusOperation C cl)
      = Inr (contract_call C (cl_contractId cl) ''get_intent_status'' [bytes_scval C d])"
    by (rule status_query_sends_digest [OF assms(4) d(1)])
  then have "\<exists>w'. getIntentStatus C cl i publicKey w = (Inr (status_code (status_of r d)), w')"
    using read [OF st(1)] st(2,3) by (auto simp: getIntentStatus_def abind_def alift_def aret_def)
  ultimately show ?thesis
    by (simp add: hash)
qed

section \<open>Properties\<close>

text \<open>(C27) The client tells what the router holds: when the node answers from the ledger,
  \<open>getIntentHash\<close> returns what the local \<open>hashIntent\<close> of the client does, and \<open>getIntentStatus\<close> the
  number of the status the router has stored for the intent; neither throws.\<close>

theorem client_reads_router:
  assumes "intent_valid A i" and "representable i" and "canonical_host H C" and "\<forall>x. length (sha256 C x) = 32"
    and "client_hashIntent C cl i = Inr h" and "node_reads C cl H r i"
    and "get_account C key w = (Inr acct, w1)" and "key \<noteq> []"
    and "case publicKey of Some k \<Rightarrow> k = key | None \<Rightarrow> cl_publicKey cl = Some key"
  shows "(\<exists>w'. getIntentHash C cl i publicKey w = (Inr h, w')) \<and>
    (\<exists>w'. getIntentStatus C cl i publicKey w = (Inr (status_code (status_of r (get_intent_hash H (on_chain i)))), w'))"
  using assms by (rule queries_read_router)

text \<open>A node with a fresh router: a hash is simulated by hashing the encoded intent, and every
  status is \<open>Active\<close>, the number 0.\<close>

definition padded_api :: "(string, string, string, string, string, unit, clock_world) chain_api" where
  "padded_api = clock_api\<lparr>sha256 := (\<lambda>s. replicate 32 (char_of (length s mod 256)))\<rparr>"

definition reading_api :: "(string, string, string, string, string, unit, clock_world) chain_api" where
  "reading_api = padded_api\<lparr>contract_call := (\<lambda>c m vs. m @ concat vs), build_tx := (\<lambda>a f p op t. Inr op),
     scval_type := (\<lambda>v. if v = [] then ''scvU32'' else ''scvBytes''),
     simulate_tx := (\<lambda>tx. aret (SimulationSuccess (Some \<lparr>sim_retval =
       Some (if take 15 tx = ''get_intent_hash'' then sha256 padded_api (drop 15 tx) else []),
       sim_auth = []\<rparr>) ()))\<rparr>"

definition reading_host :: "unit soroban" where
  "reading_host = \<lparr>intent_xdr = intent_xdr sdk_host, host_sha256 = sha256 padded_api,
     token_transfer = (\<lambda>_ _ _ _ _ t. (Inr (), t))\<rparr>"

lemmas reading_defs = reading_api_def padded_api_def clock_api_def stellar_sdk.defs

lemma reading_canonical: "canonical_host reading_host reading_api"
proof -
  have "struct_fields reading_api ob = struct_fields reference_sdk ob" for ob
    by (simp add: struct_fields_def reading_defs reference_sdk_def)
  then show ?thesis
    by (auto simp: canonical_host_def reading_host_def sdk_host_def)
       (simp_all add: reading_defs reference_sdk_def split_def)
qed

lemma reading_node: "node_reads reading_api sample_client reading_host (deployed 0 ()) sample_intent"
proof -
  have sha: "sha256 reading_api = sha256 padded_api" "to_xdr reading_api = (\<lambda>v. v)"
    by (simp_all add: reading_defs reference_sdk_def)
  have calls: "node_returns reading_api sample_client ''get_intent_hash'' [v] (sha256 padded_api v)"
    "node_returns reading_api sample_client ''get_intent_status'' [v] []" for v
    by (simp_all add: node_returns_def reading_api_def aret_def)
  have "get_intent_hash reading_host (on_chain sample_intent) = sha256 padded_api v"
    if "intentToScVal reading_api sample_intent = Inr v" for v
    by (rule hashes_agree [OF sample_intent_valid sample_representable reading_canonical])
       (simp add: intentDigest_def that sha)
  moreover have "scval_bytes reading_api s = s" "scval_type reading_api [] = ''scvU32''" "scval_u32 reading_api [] = 0"
    "scval_type reading_api (sha256 padded_api s) = ''scvBytes''" for s
    by (simp_all add: reading_defs)
  ultimately show ?thesis
    unfolding node_reads_def using calls by (fastforce simp: sample_on_chain)
qed

theorem client_reads_router_witness:
  "\<exists>h w'. client_hashIntent reading_api sample_client sample_intent = Inr h \<and>
     getIntentHash reading_api sample_client sample_intent (Some ''G'') (0, 0) = (Inr h, w')"
proof -
  obtain h where h: "client_hashIntent reading_api sample_client sample_intent = Inr h"
    by (simp add: client_hashIntent_def hashIntent_def intentDigest_def intentToScVal_def byField_def scval_defs reading_defs
        reference_sdk_def sample_intent_def)
  have len: "\<forall>x. length (sha256 reading_api x) = 32" and acct: "get_account reading_api ''G'' (0, 0) = (Inr ''G'', (0, 0))"
    by (simp_all add: reading_defs aret_def)
  from client_reads_router [OF sample_intent_valid sample_representable reading_canonical len h reading_node acct,
      of "Some ''G''"] h show ?thesis
    by auto
qed

end
