(* ===== verification/ClosedOrders.thy ===== *)
theory ClosedOrders
  imports Submissions Agreement
begin

section \<open>Closed orders are not submitted\<close>

text \<open>
  The bot does not ask the router for the status of an intent before it fills it.  What keeps it
  from sending a fill of an order that is already filled or cancelled is the simulation: the
  node runs the call on the ledger it has, the router refuses it there, and the client throws.
  This theory puts the bot and the router together over the node's simulation.
\<close>

text \<open>What the router may have become: a state that a longer run of it reaches.\<close>

definition router_leads :: "('t, 'x) soroban_scheme \<Rightarrow> 't router \<Rightarrow> 't router \<Rightarrow> bool" where
  "router_leads H r r' \<longleftrightarrow> (\<forall>qs. router_run H qs r \<longrightarrow> (\<exists>qs'. router_run H (qs @ qs') r'))"

interpretation leads: effect_order "router_leads H" for H
proof
  show "router_leads H r r" for r
    unfolding router_leads_def by (metis append_Nil2)
  show "router_leads H r1 r3" if "router_leads H r1 r2" "router_leads H r2 r3" for r1 r2 r3
    using that unfolding router_leads_def by (metis append.assoc)
qed

definition order_closed :: "('t, 'x) soroban_scheme \<Rightarrow> onchain_intent \<Rightarrow> 't router \<Rightarrow> bool" where
  "order_closed H i r \<longleftrightarrow>
     status_of r (get_intent_hash H i) \<noteq> Active \<or> nonce_used r (oc_trader i) (oc_nonce i)"

lemma closed_in_book:
  assumes "consistent r" and "status_of r h \<noteq> Active"
  shows "\<exists>c. ob_closed (abs_book r) h = Some c"
proof -
  have "status_of r h \<noteq> Expired" "status_of r h = Filled \<longleftrightarrow> receipt_of r h \<noteq> None"
    using assms(1) unfolding consistent_def by blast+
  with assms(2) show ?thesis
    by (cases "status_of r h") (auto simp: abs_book_def)
qed

lemma closed_for_good:
  assumes "router_run H qs r" and "router_run H (qs @ qs') r'" and "order_closed H i r"
  shows "order_closed H i r'"
proof -
  have "replay (entries H (qs @ qs')) empty_book = Some (abs_book r')"
    using run_refines [OF assms(2)] by blast
  then have replayed: "replay (entries H qs') (abs_book r) = Some (abs_book r')"
    using run_refines [OF assms(1)] by (simp add: entries_def replay_append)
  show ?thesis
  proof (cases "nonce_used r (oc_trader i) (oc_nonce i)")
    case True
    then have "(oc_trader i, oc_nonce i) \<in> ob_used (abs_book r')"
      using replay_keys [OF replayed] by (simp add: abs_book_def)
    then show ?thesis
      by (simp add: order_closed_def abs_book_def)
  next
    case False
    then obtain c where "ob_closed (abs_book r) (get_intent_hash H i) = Some c"
      using assms(3) closed_in_book run_refines [OF assms(1)] by (metis order_closed_def)
    then have "ob_closed (abs_book r') (get_intent_hash H i) = Some c"
      using replay_closed [OF replayed] by blast
    then show ?thesis
      by (auto simp: order_closed_def abs_book_def)
  qed
qed

lemma cancel_closes: "cancel_intent H env i r = (Inr u, r') \<Longrightarrow> order_closed H i r'"
  by (auto simp: cancel_intent_ok order_closed_def views)

lemma closed_refused: "order_closed H i r \<Longrightarrow> \<exists>e r'. execute_intent H env solver i a r = (Inl e, r')"
  by (cases "execute_intent H env solver i a r"; cases "fst (execute_intent H env solver i a r)")
     (auto simp: execute_intent_ok admissible_def order_closed_def)

section \<open>The node\<close>

text \<open>
  A node simulates a transaction by running its call on the ledger it has; when the contract
  fails, the answer is an error.  \<open>ledger\<close> is the router's part of that ledger and \<open>env\<close> what the
  node supplies to the call (the time, and the authorisations it records).
\<close>

definition node_simulates ::
  "('sv, 'op, 'acct, 'tx, 'au, 'rest, 'w, 'x) chain_api_scheme \<Rightarrow> slipguard_client
     \<Rightarrow> ('t, 'y) soroban_scheme \<Rightarrow> ('w \<Rightarrow> call_env) \<Rightarrow> ('w \<Rightarrow> 't router) \<Rightarrow> bool" where
  "node_simulates C cl H env ledger \<longleftrightarrow>
     (\<forall>solver i a s v n acct fee tx w e r'. intent_valid (address_ok C) i \<longrightarrow> representable i \<longrightarrow> i128_range a \<longrightarrow>
        address_scval C solver = Inr s \<longrightarrow> intentToScVal C i = Inr v \<longrightarrow> i128_scval C a = Inr n \<longrightarrow>
        build_tx C acct fee (cl_networkPassphrase cl)
          (contract_call C (cl_contractId cl) ''execute_intent'' [s, v, n]) 60 = Inr tx \<longrightarrow>
        execute_intent H (env w) solver (on_chain i) (word_of_int a) (ledger w) = (Inl e, r') \<longrightarrow>
        (\<exists>msg w'. simulate_tx C tx w = (Inr (SimulationError msg), w')))"

lemma prepare_refused:
  assumes "node_simulates B cl H env ledger" and "calm_api (router_leads H) ledger B"
    and "intent_valid (address_ok B) (ep_intent p)" and "representable (ep_intent p)"
    and "i128_range (ep_actualBuyAmount p)"
    and "router_run H qs (ledger w)" and "order_closed H (on_chain (ep_intent p)) (ledger w)"
  shows "\<exists>e w'. prepareExecuteIntent B cl p w = (Inl e, w')"
proof -
  obtain x w1 where a: "get_account B (kp_publicKey (ep_solver p)) w = (x, w1)"
    by (rule prod.exhaust)
  have "router_leads H (ledger w) (ledger w1)"
    using assms(2) a by (metis calm_api_def snd_conv)
  then obtain qs' where "router_run H (qs @ qs') (ledger w1)"
    using assms(6) by (auto simp: router_leads_def)
  from closed_refused [OF closed_for_good [OF assms(6) this assms(7)]]
  obtain e r' where refused: "execute_intent H (env w1) (kp_publicKey (ep_solver p)) (on_chain (ep_intent p))
      (word_of_int (ep_actualBuyAmount p)) (ledger w1) = (Inl e, r')"
    by blast
  have "\<exists>msg w'. simulate_tx B tx w1 = (Inr (SimulationError msg), w')"
    if "buildExecuteIntentOperation B cl (kp_publicKey (ep_solver p)) (ep_intent p) (ep_actualBuyAmount p) = Inr op"
      "buildTransaction B cl acct op fee = Inr tx" for op acct fee tx
    using that assms(1,3-5) refused unfolding node_simulates_def
    by (simp add: buildExecuteIntentOperation_def buildTransaction_def result_simps) blast
  then show ?thesis
    using a by (cases x) (fastforce simp: prepareExecuteIntent_def abind_def alift_def split: sum.split)+
qed

definition judgement :: "candidate_intent \<Rightarrow> evaluation_result \<Rightarrow> meta" where
  "judgement c e = [(''hash'', JStr (ca_hash c)), (''source'', JStr (source_name (ca_source c))),
     (''profitable'', JBool (er_profitable e)), (''reason'', JStr (er_reason e)),
     (''netProfit'', JStr (bigint_to_string (er_netProfit e))),
     (''fillAmount'', JStr (bigint_to_string (er_fillAmount e)))]"

lemma closed_handled:
  assumes "records_sends sub B" and "node_simulates B (ex_client ex) H env ledger"
    and "calm_api (router_leads H) ledger B"
    and "intent_valid (address_ok B) (ca_intent c)" and "representable (ca_intent c)"
    and "router_run H qs (ledger w)" and "order_closed H (on_chain (ca_intent c)) (ledger w)"
  shows "\<exists>r w'. handle B cfg lg ex c w = Some (r, w') \<and> sub w' = sub w \<and>
    (\<forall>e. evaluateFromPrices (date_now B w) (ca_intent c) (minBuyAmount (ca_intent c)) (cfg_tokenPrices cfg)
        (cfg_txCost cfg) (cfg_minProfit cfg) None = Inr e \<longrightarrow>
      er_profitable e \<longrightarrow> \<not> cfg_dryRun cfg \<longrightarrow> (\<exists>err. r = Inl err))"
proof -
  let ?eval = "evaluateFromPrices (date_now B w) (ca_intent c) (minBuyAmount (ca_intent c)) (cfg_tokenPrices cfg)
        (cfg_txCost cfg) (cfg_minProfit cfg) None"
  note steps = handle_def pbind_def prun_def aret_def
  show ?thesis
  proof (cases "\<exists>e. ?eval = Inr e \<and> er_profitable e \<and> \<not> cfg_dryRun cfg")
    case False
    have "\<exists>r w'. handle B cfg lg ex c w = Some (r, w') \<and> sub w' = sub w"
    proof (cases "cfg_dryRun cfg")
      case True
      obtain r w' where h: "handle B cfg lg ex c w = Some (r, w')"
        using returns_dry_handle [OF True, of B lg ex c] by (fastforce simp: returns_def)
      from stays_pD [OF stays.dry_handle_keeps [OF records_quiet [OF assms(1)] True] h] h show ?thesis
        by blast
    next
      case live: False
      show ?thesis
      proof (cases ?eval)
        case (Inr e)
        let ?meta = "judgement c e"
        obtain x w1 where l: "log_msg B lg Info ''evaluated intent'' ?meta w = (x, w1)"
          by (rule prod.exhaust)
        have "sub w1 = sub w"
          by (rule staysD [OF stays.log_keeps [OF records_quiet [OF assms(1)]] l])
        then show ?thesis
          using False live Inr l by (cases x) (auto simp: steps judgement_def)
      qed (simp add: steps)
    qed
    with False show ?thesis
      by blast
  next
    case True
    then obtain e where e: "?eval = Inr e" "er_profitable e" and live: "\<not> cfg_dryRun cfg"
      by blast
    have amount: "er_fillAmount e = minBuyAmount (ca_intent c)"
      using e(1) by (rule evaluation_amount)
    have range: "i128_range (minBuyAmount (ca_intent c))"
      using assms(5) by (simp add: representable_def)
    let ?meta = "judgement c e"
    obtain x w1 where l: "log_msg B lg Info ''evaluated intent'' ?meta w = (x, w1)"
      by (rule prod.exhaust)
    have w1: "sub w1 = sub w"
      by (rule staysD [OF stays.log_keeps [OF records_quiet [OF assms(1)]] l])
    have "router_leads H (ledger w) (ledger w1)"
      by (rule leads.keepsD [OF leads.log_keeps [OF calm_quiet [OF assms(3)]] l])
    then obtain qs' where run: "router_run H (qs @ qs') (ledger w1)"
      using assms(6) by (auto simp: router_leads_def)
    have refused: "\<exists>err w2. prepareExecuteIntent B (ex_client ex)
        (fill_params cfg ex c (minBuyAmount (ca_intent c)) auth) w1 = (Inl err, w2)" for auth
      using prepare_refused [OF assms(2,3) _ _ _ run closed_for_good] assms(4-7) range run
      by (simp add: fill_params_def)
    have sends: "sub w2 = sub w1" if "prepareExecuteIntent B (ex_client ex) q w1 = (y, w2)" for q y w2
      by (rule staysD [OF prepare_sends_nothing [OF assms(1)] that])
    have "\<exists>err w'. execute B cfg lg ex c (minBuyAmount (ca_intent c)) w1 = Some (Inl err, w') \<and> sub w' = sub w1"
    proof (cases "decodeAuthEntries B (ca_traderAuthEntry c)")
      case (Inr auth)
      obtain err w2 where p: "prepareExecuteIntent B (ex_client ex)
          (fill_params cfg ex c (minBuyAmount (ca_intent c)) auth) w1 = (Inl err, w2)"
        using refused by blast
      then show ?thesis
        using Inr live sends [OF p] by (simp add: execute_def pbind_def prun_def alift_def)
    qed (simp add: execute_def live pbind_def prun_def alift_def)
    then show ?thesis
      using e l w1 by (cases x) (auto simp: steps amount judgement_def)
  qed
qed

section \<open>A node with a withdrawn order\<close>

text \<open>Values with their type, and a node that reads the order back from the call it simulates.\<close>

datatype plain_val =
    PAddress string
  | PInt int
  | PSymbol string
  | PMap "(plain_val \<times> plain_val) list"

fun plain_address :: "plain_val \<Rightarrow> string" where
  "plain_address (PAddress a) = a"
| "plain_address _ = []"

fun plain_int :: "plain_val \<Rightarrow> int" where
  "plain_int (PInt n) = n"
| "plain_int _ = 0"

fun plain_field :: "plain_val \<Rightarrow> string \<Rightarrow> plain_val" where
  "plain_field (PMap kvs) k = (case map_of kvs (PSymbol k) of Some v \<Rightarrow> v | None \<Rightarrow> PInt 0)"
| "plain_field _ _ = PInt 0"

definition plain_order :: "plain_val \<Rightarrow> onchain_intent" where
  "plain_order v = \<lparr>oc_trader = plain_address (plain_field v ''trader''),
     oc_sell_token = plain_address (plain_field v ''sell_token''),
     oc_buy_token = plain_address (plain_field v ''buy_token''),
     oc_sell_amount = word_of_int (plain_int (plain_field v ''sell_amount'')),
     oc_min_buy_amount = word_of_int (plain_int (plain_field v ''min_buy_amount'')),
     oc_max_slippage_bps = word_of_int (plain_int (plain_field v ''max_slippage_bps'')),
     oc_deadline = word_of_int (plain_int (plain_field v ''deadline'')),
     oc_nonce = word_of_int (plain_int (plain_field v ''nonce'')),
     oc_solver_fee_bps = word_of_int (plain_int (plain_field v ''solver_fee_bps''))\<rparr>"

text \<open>The ledger: the sample order has been withdrawn by its trader.\<close>

definition cancel_env :: call_env where
  "cancel_env = sample_env\<lparr>env_auths := {(''T'', \<lparr>inv_contract = ''R'', inv_function = ''cancel_intent'',
     inv_args = [intent_arg (on_chain sample_intent)]\<rparr>)}\<rparr>"

definition withdrawn_ledger :: "unit router" where
  "withdrawn_ledger = snd (cancel_intent reference_host cancel_env (on_chain sample_intent) (deployed 0 ()))"

text \<open>A simulation records the authorisations a call asks for, so it misses none.\<close>

definition recording_env :: call_env where
  "recording_env = sample_env\<lparr>env_auths := UNIV\<rparr>"

fun plain_simulate :: "string \<times> plain_val list \<Rightarrow> (plain_val, string, unit) simulation" where
  "plain_simulate (f, [s, v, n]) =
     (if f = ''execute_intent'' then
        case fst (execute_intent reference_host recording_env (plain_address s) (plain_order v) (word_of_int (plain_int n)) withdrawn_ledger) of
          Inl e \<Rightarrow> SimulationError ''HostError''
        | Inr rc \<Rightarrow> SimulationSuccess (Some \<lparr>sim_retval = None, sim_auth = []\<rparr>) ()
      else SimulationSuccess None ())"
| "plain_simulate _ = SimulationSuccess None ()"

definition plain_solver ::
  "(plain_val, string \<times> plain_val list, string, string \<times> plain_val list, string, unit, clock_world) solver_api" where
  "plain_solver = \<lparr>address_ok = (\<lambda>a. a \<noteq> []), address_scval = (\<lambda>a. Inr (PAddress a)),
     i128_scval = (\<lambda>n. Inr (PInt n)), u64_scval = (\<lambda>n. Inr (PInt n)),
     u32_scval = (\<lambda>x. rbind (bigint_of_num x) (\<lambda>n. Inr (PInt n))), symbol_scval = PSymbol, map_scval = PMap,
     to_xdr = (\<lambda>v. oc_trader (plain_order v)), sha256 = (\<lambda>s. s),
     new_server = (\<lambda>_ _. Inr ()), new_contract = (\<lambda>_. Inr ()), contract_call = (\<lambda>c f vs. (f, vs)),
     bytes_scval = PSymbol, scval_type = (\<lambda>_. ''scvVoid''), scval_bytes = plain_address,
     scval_u32 = (\<lambda>v. nat (plain_int v)), base_fee = ''100'', build_tx = (\<lambda>acct fee p op t. Inr op),
     assemble_tx = (\<lambda>tx sim. Inr tx), sign_tx = (\<lambda>kp tx. tx), date_now = date_now reference_solver,
     wait_ms = wait_ms reference_solver, get_account = aret, simulate_tx = (\<lambda>tx. aret (plain_simulate tx)),
     send_tx = (\<lambda>tx. aret \<lparr>se_status = ''PENDING'', se_hash = fst tx, se_error_json = []\<rparr>),
     get_tx = get_tx reference_solver, iso_time = iso_time reference_solver, sink = sink reference_solver,
     scval_sym = plain_address, latest_ledger = latest_ledger reference_solver,
     get_events = (\<lambda>_ _ _. aret \<lparr>evr_events = [], evr_latestLedger = Fin 5\<rparr>),
     fetch_url = fetch_url reference_solver, keypair_from_secret = keypair_from_secret reference_solver,
     auth_from_xdr = Inr, take_signals = (\<lambda>w. ([], w))\<rparr>"

definition plain_bot ::
  "(plain_val, string \<times> plain_val list, string, string \<times> plain_val list, string, unit,
    clock_world \<times> (string \<times> plain_val list) list) solver_api" where
  "plain_bot = recording plain_solver"

lemma plain_bot_sdk:
  "address_ok plain_bot = (\<lambda>a. a \<noteq> [])" "address_scval plain_bot = (\<lambda>a. Inr (PAddress a))"
  "i128_scval plain_bot = (\<lambda>n. Inr (PInt n))" "build_tx plain_bot acct fee p op t = Inr op"
  "contract_call plain_bot k f vs = (f, vs)" "simulate_tx plain_bot tx = beside (aret (plain_simulate tx))"
  by (simp_all add: plain_bot_def recording_def plain_solver_def)

lemma plain_order_encodes:
  assumes "intentToScVal plain_bot i = Inr v"
  shows "plain_order v = on_chain i"
proof -
  have num: "bigint_of_num x = Inr n \<Longrightarrow> num_int x = n" for x n
    by (cases x) (auto simp: num_int_def split: if_splits)
  from assms show ?thesis
    by (auto simp: intentToScVal_def byField_def scval_defs result_simps plain_bot_def recording_def plain_solver_def
        plain_order_def on_chain_def SCVAL_FIELD_ORDER_def num split: if_splits)
qed

lemma plain_node: "node_simulates plain_bot cl reference_host (\<lambda>w. recording_env) (\<lambda>w. withdrawn_ledger)"
  unfolding node_simulates_def
  by (auto simp: plain_bot_sdk beside_def on_world_def aret_def plain_order_encodes)

lemma withdrawn_run: "router_run reference_host [Cancel (on_chain sample_intent)] withdrawn_ledger"
  and withdrawn_closed: "order_closed reference_host (on_chain sample_intent) withdrawn_ledger"
proof -
  let ?i = "on_chain sample_intent" and ?d = "deployed 0 () :: unit router"
  have "authorised cancel_env (oc_trader ?i) ''cancel_intent'' [intent_arg ?i]"
    by (simp add: cancel_env_def authorised_def sample_env_def on_chain_address sample_values)
  then have "\<exists>r. cancel_intent reference_host cancel_env ?i ?d = (Inr (), r)"
    by (simp add: cancel_intent_ok sample_on_chain)
  then have c: "cancel_intent reference_host cancel_env ?i ?d = (Inr (), withdrawn_ledger)"
    by (auto simp: withdrawn_ledger_def)
  then have "invoke (serve reference_host cancel_env (Cancel ?i)) ?d = (Inr (), withdrawn_ledger)"
    by (simp add: invoke_ok)
  from router_run.served [OF router_run.deploy this]
  show "router_run reference_host [Cancel ?i] withdrawn_ledger"
    by simp
  show "order_closed reference_host ?i withdrawn_ledger"
    by (rule cancel_closes [OF c])
qed

section \<open>Property\<close>

text \<open>(C33) An order that is already filled or cancelled is not submitted: whatever the feed, the
  prices and the log do, handling a candidate whose order the router has closed returns and
  sends nothing; if its fill is judged profitable, the call throws, because the node simulates
  it on a ledger where the router refuses it.  The order stays closed while the bot works: the
  node's ledger moves only by calls of the router.  No status query is involved.\<close>

theorem closed_order_not_submitted:
  assumes "records_sends sub B" and "node_simulates B (ex_client ex) H env ledger"
    and "calm_api (router_leads H) ledger B"
    and "intent_valid (address_ok B) (ca_intent c)" and "representable (ca_intent c)"
    and "router_run H qs (ledger w)"
    and "status_of (ledger w) (get_intent_hash H (on_chain (ca_intent c))) \<noteq> Active \<or>
      nonce_used (ledger w) (trader (ca_intent c)) (oc_nonce (on_chain (ca_intent c)))"
  shows "\<exists>r w'. handle B cfg lg ex c w = Some (r, w') \<and> sub w' = sub w \<and>
    (\<forall>e. evaluateFromPrices (date_now B w) (ca_intent c) (minBuyAmount (ca_intent c)) (cfg_tokenPrices cfg)
        (cfg_txCost cfg) (cfg_minProfit cfg) None = Inr e \<longrightarrow>
      er_profitable e \<longrightarrow> \<not> cfg_dryRun cfg \<longrightarrow> (\<exists>err. r = Inl err))"
  using assms(7) by (intro closed_handled [OF assms(1-6)]) (simp add: order_closed_def on_chain_address)

theorem closed_order_not_submitted_witness:
  "\<exists>err w'. handle plain_bot priced_config sample_logger sample_executor sample_candidate ((1000000, 0), [])
     = Some (Inl err, w') \<and> snd w' = []"
proof -
  have bot: "records_sends snd plain_bot" "date_now plain_bot ((1000000, 0), []) = Fin 1000000"
    by (simp_all add: plain_bot_def recording_records)
       (simp add: recording_def plain_solver_def reference_solver_defs)
  have calm: "calm_api (router_leads reference_host) (\<lambda>w. withdrawn_ledger) plain_bot"
    by (simp add: calm_api_def quiet_api_def leads.refl)
  have c: "ca_intent sample_candidate = sample_intent"
    by (simp add: sample_candidate_def)
  have valid: "intent_valid (address_ok plain_bot) (ca_intent sample_candidate)"
    using sample_intent_valid by (simp add: c plain_bot_sdk)
  have rep: "representable (ca_intent sample_candidate)"
    by (simp add: c sample_representable)
  have closed: "status_of withdrawn_ledger (get_intent_hash reference_host (on_chain (ca_intent sample_candidate))) \<noteq> Active \<or>
      nonce_used withdrawn_ledger (trader (ca_intent sample_candidate)) (oc_nonce (on_chain (ca_intent sample_candidate)))"
    using withdrawn_closed by (simp add: c order_closed_def on_chain_address)
  have cfg: "\<not> cfg_dryRun priced_config" "cfg_txCost priced_config = 0" "cfg_minProfit priced_config = 0"
    by (simp_all add: priced_config_def feed_config_def default_config_def)
  obtain e where e: "evaluateFromPrices (Fin 1000000) sample_intent 990
      (cfg_tokenPrices priced_config) 0 0 None = Inr e" "er_profitable e"
    by (rule sample_evaluation)
  have eval: "evaluateFromPrices (date_now plain_bot ((1000000, 0), [])) (ca_intent sample_candidate)
      (minBuyAmount (ca_intent sample_candidate)) (cfg_tokenPrices priced_config) (cfg_txCost priced_config)
      (cfg_minProfit priced_config) None = Inr e"
    using e(1) by (simp add: c bot cfg sample_values)
  from closed_order_not_submitted [OF bot(1) plain_node calm valid rep withdrawn_run closed, of priced_config sample_logger]
    eval e(2) cfg(1)
  show ?thesis
    by fastforce
qed

end
