(* ===== verification/MockToken.thy ===== *)
theory MockToken
  imports RustCore
begin

section \<open>The mock token\<close>

text \<open>
  contracts/mock_token/src/lib.rs: the SEP-41 token the router is exercised with.  Its state
  has the instance entries and one storage per constructor of \<open>DataKey\<close> that takes
  arguments; its operations are calls in a \<open>call_env\<close> that fail only by panicking.
\<close>

record allowance_data =
  al_amount :: i128
  al_expiration :: u32

record mock_token =
  mt_admin :: "string option"
  mt_decimals :: "u32 option"
  mt_name :: "string option"
  mt_symbol :: "string option"
  mt_instance_life :: nat
  mt_balances :: "(string, i128) storage"
  mt_allowances :: "(string \<times> string, allowance_data) storage"

type_synonym 'a token_call = "mock_token \<Rightarrow> (unit failure + 'a) \<times> mock_token"

definition fresh_token :: mock_token where
  "fresh_token = \<lparr>mt_admin = None, mt_decimals = None, mt_name = None, mt_symbol = None,
     mt_instance_life = 0, mt_balances = Map.empty, mt_allowances = Map.empty\<rparr>"

definition initialize ::
  "call_env \<Rightarrow> string \<Rightarrow> u32 \<Rightarrow> string \<Rightarrow> string \<Rightarrow> unit token_call" where
  "initialize env admin decimals name symbol =
     abind (state_read mt_admin) (\<lambda>a.
     if a \<noteq> None then panic ''already initialized''
     else
       abind (require_auth env ''initialize''
         [AddressArg admin, U32Arg decimals, TextArg name, TextArg symbol] admin) (\<lambda>_.
       state_write (\<lambda>t. t\<lparr>mt_admin := Some admin, mt_decimals := Some decimals,
         mt_name := Some name, mt_symbol := Some symbol,
         mt_instance_life := (if mt_instance_life t < env_sequence env + TTL_THRESHOLD
           then env_sequence env + TTL_EXTEND_TO else mt_instance_life t)\<rparr>)))"

definition read_admin :: "string token_call" where
  "read_admin = abind (state_read mt_admin) (\<lambda>a. alift (or_trap ''token not initialized'' a))"

definition balance_of :: "mock_token \<Rightarrow> string \<Rightarrow> i128" where
  "balance_of t a = (case st_get (mt_balances t) a of Some b \<Rightarrow> b | None \<Rightarrow> 0)"

definition read_balance :: "string \<Rightarrow> i128 token_call" where
  "read_balance a = state_read (\<lambda>t. balance_of t a)"

definition write_balance :: "call_env \<Rightarrow> string \<Rightarrow> i128 \<Rightarrow> unit token_call" where
  "write_balance env a n = state_write (\<lambda>t. t\<lparr>mt_balances :=
     st_write env TTL_THRESHOLD TTL_EXTEND_TO a n (mt_balances t)\<rparr>)"

definition mint :: "call_env \<Rightarrow> string \<Rightarrow> i128 \<Rightarrow> unit token_call" where
  "mint env to amount =
     abind read_admin (\<lambda>admin.
     abind (require_auth env ''mint'' [AddressArg to, I128Arg amount] admin) (\<lambda>_.
     if sint amount < 0 then panic ''negative mint''
     else
       abind (read_balance to) (\<lambda>b.
       abind (alift (or_trap ''overflow'' (checked_add b amount))) (\<lambda>n.
       write_balance env to n))))"

definition move_balance :: "call_env \<Rightarrow> string \<Rightarrow> string \<Rightarrow> i128 \<Rightarrow> unit token_call" where
  "move_balance env from to amount =
     abind (read_balance from) (\<lambda>from_balance.
     if sint from_balance < sint amount then panic ''insufficient balance''
     else
       abind (alift (or_trap ''overflow'' (checked_sub from_balance amount))) (\<lambda>n.
       abind (write_balance env from n) (\<lambda>_.
       abind (read_balance to) (\<lambda>b.
       abind (alift (or_trap ''overflow'' (checked_add b amount))) (\<lambda>m.
       write_balance env to m)))))"

definition transfer :: "call_env \<Rightarrow> string \<Rightarrow> string \<Rightarrow> i128 \<Rightarrow> unit token_call" where
  "transfer env from to amount =
     abind (require_auth env ''transfer'' (transfer_args from to amount) from) (\<lambda>_.
     if sint amount < 0 then panic ''negative transfer''
     else move_balance env from to amount)"

definition no_allowance :: allowance_data where
  "no_allowance = \<lparr>al_amount = 0, al_expiration = 0\<rparr>"

definition read_allowance :: "string \<Rightarrow> string \<Rightarrow> allowance_data token_call" where
  "read_allowance from spender = state_read (\<lambda>t.
     case st_get (mt_allowances t) (from, spender) of Some d \<Rightarrow> d | None \<Rightarrow> no_allowance)"

definition write_allowance ::
  "call_env \<Rightarrow> string \<Rightarrow> string \<Rightarrow> allowance_data \<Rightarrow> unit token_call" where
  "write_allowance env from spender data = state_write (\<lambda>t. t\<lparr>mt_allowances :=
     st_write env TTL_THRESHOLD TTL_EXTEND_TO (from, spender) data (mt_allowances t)\<rparr>)"

definition spendable :: "call_env \<Rightarrow> allowance_data \<Rightarrow> i128" where
  "spendable env d = (if unat (al_expiration d) > env_sequence env then al_amount d else 0)"

definition allowance :: "call_env \<Rightarrow> string \<Rightarrow> string \<Rightarrow> i128 token_call" where
  "allowance env from spender =
     abind (read_allowance from spender) (\<lambda>d. aret (spendable env d))"

definition approve :: "call_env \<Rightarrow> string \<Rightarrow> string \<Rightarrow> i128 \<Rightarrow> u32 \<Rightarrow> unit token_call" where
  "approve env from spender amount expiration_ledger =
     abind (require_auth env ''approve''
       [AddressArg from, AddressArg spender, I128Arg amount, U32Arg expiration_ledger] from) (\<lambda>_.
     if sint amount < 0 then panic ''negative allowance''
     else if sint amount > 0 \<and> unat expiration_ledger < env_sequence env then
       panic ''expiration ledger in the past''
     else write_allowance env from spender
       \<lparr>al_amount = amount, al_expiration = expiration_ledger\<rparr>)"

definition spend_allowance :: "call_env \<Rightarrow> string \<Rightarrow> string \<Rightarrow> i128 \<Rightarrow> unit token_call" where
  "spend_allowance env from spender amount =
     abind (read_allowance from spender) (\<lambda>d.
     if sint (spendable env d) < sint amount then panic ''insufficient allowance''
     else
       abind (alift (or_trap ''overflow'' (checked_sub (spendable env d) amount))) (\<lambda>n.
       write_allowance env from spender \<lparr>al_amount = n, al_expiration = al_expiration d\<rparr>))"

definition transfer_from ::
  "call_env \<Rightarrow> string \<Rightarrow> string \<Rightarrow> string \<Rightarrow> i128 \<Rightarrow> unit token_call" where
  "transfer_from env spender from to amount =
     abind (require_auth env ''transfer_from''
       [AddressArg spender, AddressArg from, AddressArg to, I128Arg amount] spender) (\<lambda>_.
     if sint amount < 0 then panic ''negative transfer''
     else abind (spend_allowance env from spender amount) (\<lambda>_. move_balance env from to amount))"

definition burn_balance :: "call_env \<Rightarrow> string \<Rightarrow> i128 \<Rightarrow> unit token_call" where
  "burn_balance env from amount =
     abind (read_balance from) (\<lambda>b.
     if sint b < sint amount then panic ''insufficient balance''
     else
       abind (alift (or_trap ''overflow'' (checked_sub b amount))) (\<lambda>n.
       write_balance env from n))"

definition burn :: "call_env \<Rightarrow> string \<Rightarrow> i128 \<Rightarrow> unit token_call" where
  "burn env from amount =
     abind (require_auth env ''burn'' [AddressArg from, I128Arg amount] from) (\<lambda>_.
     if sint amount < 0 then panic ''negative burn'' else burn_balance env from amount)"

definition burn_from :: "call_env \<Rightarrow> string \<Rightarrow> string \<Rightarrow> i128 \<Rightarrow> unit token_call" where
  "burn_from env spender from amount =
     abind (require_auth env ''burn_from''
       [AddressArg spender, AddressArg from, I128Arg amount] spender) (\<lambda>_.
     if sint amount < 0 then panic ''negative burn''
     else abind (spend_allowance env from spender amount) (\<lambda>_. burn_balance env from amount))"

definition token_admin :: "string token_call" where
  "token_admin = read_admin"

definition token_balance :: "string \<Rightarrow> i128 token_call" where
  "token_balance a = read_balance a"

definition decimals :: "u32 token_call" where
  "decimals = abind (state_read mt_decimals) (\<lambda>d. alift (or_trap ''token not initialized'' d))"

definition token_name :: "string token_call" where
  "token_name = abind (state_read mt_name) (\<lambda>d. alift (or_trap ''token not initialized'' d))"

definition token_symbol :: "string token_call" where
  "token_symbol = abind (state_read mt_symbol) (\<lambda>d. alift (or_trap ''token not initialized'' d))"

section \<open>What a transfer does\<close>

text \<open>The SEP-41 contract: a transfer that returns moves exactly the amount, from a holder who
  has it, and touches nobody else.\<close>

definition moved :: "(string \<Rightarrow> int) \<Rightarrow> string \<Rightarrow> string \<Rightarrow> int \<Rightarrow> string \<Rightarrow> int" where
  "moved b from to n = (\<lambda>a. b a - (if a = from then n else 0) + (if a = to then n else 0))"

locale sep41 =
  fixes send :: "string \<Rightarrow> string \<Rightarrow> i128 \<Rightarrow> 't \<Rightarrow> ('f + unit) \<times> 't"
    and bal :: "'t \<Rightarrow> string \<Rightarrow> int"
  assumes send_moves: "send from to n t = (Inr (), t') \<Longrightarrow> bal t' = moved (bal t) from to (sint n)"
    and send_funded: "send from to n t = (Inr (), t') \<Longrightarrow> 0 \<le> sint n \<and> sint n \<le> bal t from"
begin

lemma send_other: "send from to n t = (Inr (), t') \<Longrightarrow> a \<noteq> from \<Longrightarrow> a \<noteq> to \<Longrightarrow> bal t' a = bal t a"
  by (simp add: send_moves moved_def)

text \<open>Supply over any set of holders that has both parties is constant.\<close>

lemma send_supply:
  assumes "send from to n t = (Inr (), t')" and "finite A" and "from \<in> A" and "to \<in> A"
  shows "sum (bal t') A = sum (bal t) A"
  using assms
  by (simp add: send_moves moved_def sum.distrib sum_subtractf sum.delta)

end

definition holding :: "mock_token \<Rightarrow> string \<Rightarrow> int" where
  "holding t a = sint (balance_of t a)"

lemma holding_write:
  "write_balance env a n t = (Inr (), t') \<Longrightarrow> holding t' = (holding t)(a := sint n)"
  by (auto simp: write_balance_def state_write_def holding_def balance_of_def fun_eq_iff)

lemma move_balance_ok:
  assumes "move_balance env from to n t = (Inr (), t')"
  shows "holding t' = moved (holding t) from to (sint n) \<and> sint n \<le> holding t from"
proof -
  obtain x y t1 where enough: "sint n \<le> holding t from"
    and x: "checked_sub (balance_of t from) n = Some x" and t1: "write_balance env from x t = (Inr (), t1)"
    and y: "checked_add (balance_of t1 to) n = Some y" and t': "write_balance env to y t1 = (Inr (), t')"
    using assms unfolding move_balance_def
    by (auto simp: call_eqs result_simps read_balance_def holding_def
        split: if_splits)
  have "sint x = holding t from - sint n" "sint y = holding t1 to + sint n"
    using to_i128_sint x y unfolding checked_sub_def checked_add_def holding_def by blast+
  then show ?thesis
    using enough holding_write [OF t1] holding_write [OF t'] by (auto simp: moved_def fun_eq_iff)
qed

lemma transfer_ok:
  assumes "transfer env from to n t = (Inr (), t')"
  shows "authorised env from ''transfer'' (transfer_args from to n) \<and> 0 \<le> sint n \<and> move_balance env from to n t = (Inr (), t')"
  using assms unfolding transfer_def
  by (auto simp: call_eqs split: if_splits)

interpretation mock: sep41 "transfer env" holding for env
  by unfold_locales (auto dest!: transfer_ok move_balance_ok)

section \<open>Supply and allowances\<close>

text \<open>The sum of all balances, of which finitely many are not zero.\<close>

definition total :: "(string \<Rightarrow> int) \<Rightarrow> int" where
  "total h = (\<Sum>a | h a \<noteq> 0. h a)"

definition finite_support :: "(string \<Rightarrow> int) \<Rightarrow> bool" where
  "finite_support h \<longleftrightarrow> finite {a. h a \<noteq> 0}"

lemma finite_support_upd: "finite_support h \<Longrightarrow> finite_support (h(a := n))"
  unfolding finite_support_def by (rule finite_subset [of _ "insert a {a. h a \<noteq> 0}"]) auto

lemma total_over: "finite A \<Longrightarrow> {a. h a \<noteq> 0} \<subseteq> A \<Longrightarrow> total h = sum h A"
  unfolding total_def by (rule sum.mono_neutral_left) auto

lemma total_upd:
  assumes "finite_support h"
  shows "total (h(a := n)) = total h - h a + n"
proof -
  let ?A = "insert a {a. h a \<noteq> 0}"
  have A: "finite ?A"
    using assms by (simp add: finite_support_def)
  have "total (h(a := n)) = sum (h(a := n)) ?A"
    by (rule total_over [OF A]) auto
  also have "\<dots> = n + sum h (?A - {a})"
    using A by (simp add: sum.remove [of ?A a] cong: sum.cong_simp)
  also have "sum h (?A - {a}) = total h - h a"
    using A total_over [OF A, of h] by (simp add: sum.remove [of ?A a] subset_insertI)
  finally show ?thesis by (simp add: fun_upd_def)
qed

lemma moved_eq: "moved h from to n = (let g = h(from := h from - n) in g(to := g to + n))"
  by (auto simp: moved_def Let_def fun_eq_iff)

lemma total_moved: "finite_support h \<Longrightarrow> total (moved h from to n) = total h"
  by (simp add: moved_eq Let_def total_upd finite_support_upd)

lemma finite_support_moved: "finite_support h \<Longrightarrow> finite_support (moved h from to n)"
  by (simp add: moved_eq Let_def finite_support_upd)

text \<open>The calls that write, and how much each issues.\<close>

datatype token_request =
    Initialize string u32 string string
  | Mint string i128
  | Transfer string string i128
  | Approve string string i128 u32
  | TransferFrom string string string i128
  | Burn string i128
  | BurnFrom string string i128

fun token_serve :: "call_env \<Rightarrow> token_request \<Rightarrow> unit token_call" where
  "token_serve env (Initialize admin d n s) = initialize env admin d n s"
| "token_serve env (Mint to n) = mint env to n"
| "token_serve env (Transfer from to n) = transfer env from to n"
| "token_serve env (Approve from spender n e) = approve env from spender n e"
| "token_serve env (TransferFrom spender from to n) = transfer_from env spender from to n"
| "token_serve env (Burn from n) = burn env from n"
| "token_serve env (BurnFrom spender from n) = burn_from env spender from n"

fun issued :: "token_request \<Rightarrow> int" where
  "issued (Mint _ n) = sint n"
| "issued (Burn _ n) = - sint n"
| "issued (BurnFrom _ _ n) = - sint n"
| "issued _ = 0"

inductive token_run :: "token_request list \<Rightarrow> mock_token \<Rightarrow> bool" where
  new: "token_run [] fresh_token"
| served: "token_run qs t \<Longrightarrow> invoke (token_serve env q) t = (Inr u, t') \<Longrightarrow> token_run (qs @ [q]) t'"
| refused: "token_run qs t \<Longrightarrow> invoke (token_serve env q) t = (Inl f, t') \<Longrightarrow> token_run qs t'"

text \<open>A sound token: no debts, no negative allowance, finitely many holders.\<close>

definition sound :: "mock_token \<Rightarrow> bool" where
  "sound t \<longleftrightarrow> (\<forall>a. 0 \<le> holding t a) \<and> finite_support (holding t) \<and>
     (\<forall>p d. st_get (mt_allowances t) p = Some d \<longrightarrow> 0 \<le> sint (al_amount d))"

definition allowed :: "mock_token \<Rightarrow> (string \<times> string \<Rightarrow> allowance_data option)" where
  "allowed t = st_get (mt_allowances t)"

lemma write_balance_ok:
  "write_balance env a n t = (Inr (), t') \<Longrightarrow>
     holding t' = (holding t)(a := sint n) \<and> allowed t' = allowed t"
  using holding_write [of env a n t t'] by (auto simp: write_balance_def call_eqs allowed_def)

lemma checked_values:
  "checked_add a b = Some c \<Longrightarrow> sint c = sint a + sint b"
  "checked_sub a b = Some c \<Longrightarrow> sint c = sint a - sint b"
  by (auto simp: checked_add_def checked_sub_def dest: to_i128_sint)

lemma read_balance_eq: "read_balance a t = (x, t') \<longleftrightarrow> x = Inr (balance_of t a) \<and> t' = t"
  by (auto simp: read_balance_def call_eqs)

lemma mint_ok:
  assumes "mint env to n t = (Inr (), t')"
  shows "0 \<le> sint n \<and> holding t' = (holding t)(to := holding t to + sint n) \<and> allowed t' = allowed t"
  using assms unfolding mint_def read_admin_def
  by (auto simp: call_eqs result_simps read_balance_eq holding_def dest!: write_balance_ok checked_values
      split: if_splits)

lemma move_balance_allowed: "move_balance env from to n t = (Inr (), t') \<Longrightarrow> allowed t' = allowed t"
  unfolding move_balance_def
  by (auto simp: call_eqs result_simps read_balance_eq dest!: write_balance_ok split: if_splits)

lemma burn_balance_ok:
  assumes "burn_balance env from n t = (Inr (), t')"
  shows "sint n \<le> holding t from \<and> holding t' = (holding t)(from := holding t from - sint n) \<and> allowed t' = allowed t"
  using assms unfolding burn_balance_def
  by (auto simp: call_eqs result_simps read_balance_eq holding_def dest!: write_balance_ok checked_values
      split: if_splits)

lemma approve_ok:
  assumes "approve env from spender n e t = (Inr (), t')"
  shows "0 \<le> sint n \<and> holding t' = holding t \<and> allowed t' = (allowed t)((from, spender) \<mapsto> \<lparr>al_amount = n, al_expiration = e\<rparr>)"
  using assms unfolding approve_def write_allowance_def
  by (auto simp: call_eqs allowed_def holding_def balance_of_def fun_eq_iff split: if_splits)

lemma spend_allowance_ok:
  assumes "spend_allowance env from spender n t = (Inr (), t')" and "0 \<le> sint n"
  shows "holding t' = holding t \<and>
    (\<exists>d. 0 \<le> sint (al_amount d) \<and> allowed t' = (allowed t)((from, spender) \<mapsto> d))"
proof -
  define d where "d = (case st_get (mt_allowances t) (from, spender) of Some d \<Rightarrow> d | None \<Rightarrow> no_allowance)"
  obtain m where m: "sint n \<le> sint (spendable env d)" "checked_sub (spendable env d) n = Some m"
    and w: "write_allowance env from spender \<lparr>al_amount = m, al_expiration = al_expiration d\<rparr> t = (Inr (), t')"
    using assms(1) unfolding spend_allowance_def read_allowance_def d_def
    by (auto simp: call_eqs result_simps not_less split: if_splits)
  have "0 \<le> sint m"
    using m(1) checked_values(2) [OF m(2)] by simp
  with w show ?thesis
    by (intro conjI exI [of _ "\<lparr>al_amount = m, al_expiration = al_expiration d\<rparr>"])
       (auto simp: write_allowance_def call_eqs allowed_def holding_def balance_of_def fun_eq_iff)
qed

lemma sound_views:
  "sound t \<longleftrightarrow> (\<forall>a. 0 \<le> holding t a) \<and> finite_support (holding t) \<and>
     (\<forall>p d. allowed t p = Some d \<longrightarrow> 0 \<le> sint (al_amount d))"
  by (simp add: sound_def allowed_def)

lemma moved_sound:
  assumes "sound t" and "holding t' = moved (holding t) from to n" and "0 \<le> n" and "n \<le> holding t from"
    and "\<And>p d. allowed t' p = Some d \<Longrightarrow> 0 \<le> sint (al_amount d)"
  shows "sound t'" and "total (holding t') = total (holding t)"
proof -
  have "\<forall>a. 0 \<le> moved (holding t) from to n a"
    using assms(1,3,4) by (simp add: sound_views moved_def)
  then show "sound t'" and "total (holding t') = total (holding t)"
    using assms by (simp_all add: sound_views finite_support_moved total_moved)
qed

text \<open>Every call keeps a token sound and changes the supply by what it issues.\<close>

lemma token_serve_sound:
  assumes "sound t" and "token_serve env q t = (Inr (), t')"
  shows "sound t' \<and> total (holding t') = total (holding t) + issued q"
proof (cases q)
  case (Initialize admin d n s)
  then have "holding t' = holding t \<and> allowed t' = allowed t"
    using assms(2) by (auto simp: initialize_def call_eqs holding_def balance_of_def allowed_def
        fun_eq_iff split: if_splits)
  then show ?thesis
    using assms(1) Initialize by (simp add: sound_views)
next
  case (Mint to n)
  then show ?thesis
    using assms mint_ok [of env to n t t'] by (auto simp: sound_views finite_support_upd total_upd)
next
  case (Transfer "from" to n)
  then have ok: "0 \<le> sint n" "move_balance env from to n t = (Inr (), t')"
    using assms(2) transfer_ok by auto
  with Transfer show ?thesis
    using moved_sound [OF assms(1), of t' "from" to "sint n"] move_balance_ok [OF ok(2)]
      move_balance_allowed [OF ok(2)] assms(1) by (auto simp: sound_views)
next
  case (Approve "from" spender n e)
  then show ?thesis
    using assms approve_ok [of env "from" spender n e t t'] by (auto simp: sound_views split: if_splits)
next
  case (TransferFrom spender "from" to n)
  then obtain t1 where n: "0 \<le> sint n" and spend: "spend_allowance env from spender n t = (Inr (), t1)"
    and move: "move_balance env from to n t1 = (Inr (), t')"
    using assms(2) by (auto simp: transfer_from_def call_eqs split: if_splits)
  have t1: "sound t1" "holding t1 = holding t"
    using assms(1) spend_allowance_ok [OF spend n] by (auto simp: sound_views split: if_splits)
  with TransferFrom show ?thesis
    using moved_sound [OF t1(1), of t' "from" to "sint n"] move_balance_ok [OF move]
      move_balance_allowed [OF move] n by (auto simp: sound_views)
next
  case (Burn "from" n)
  then have n: "0 \<le> sint n" and b: "burn_balance env from n t = (Inr (), t')"
    using assms(2) by (auto simp: burn_def call_eqs split: if_splits)
  show ?thesis
    using assms(1) burn_balance_ok [OF b] Burn by (auto simp: sound_views finite_support_upd total_upd)
next
  case (BurnFrom spender "from" n)
  then obtain t1 where n: "0 \<le> sint n" and spend: "spend_allowance env from spender n t = (Inr (), t1)"
    and b: "burn_balance env from n t1 = (Inr (), t')"
    using assms(2) by (auto simp: burn_from_def call_eqs split: if_splits)
  have t1: "sound t1" "holding t1 = holding t"
    using assms(1) spend_allowance_ok [OF spend n] by (auto simp: sound_views split: if_splits)
  show ?thesis
    using t1 burn_balance_ok [OF b] BurnFrom by (auto simp: sound_views finite_support_upd total_upd)
qed

lemma token_run_sound: "token_run qs t \<Longrightarrow> sound t \<and> total (holding t) = sum_list (map issued qs)"
proof (induction rule: token_run.induct)
  case new
  then show ?case
    by (auto simp: sound_def total_def finite_support_def holding_def balance_of_def fresh_token_def st_get_def)
next
  case (served qs t env q u t')
  then show ?case
    using token_serve_sound [of t env q t'] by (simp add: invoke_ok)
next
  case (refused qs t env q f t')
  then show ?case
    by (simp add: invoke_failed)
qed

section \<open>Properties\<close>

text \<open>(C40) Over any calls of the token, no balance and no allowance is ever negative, and the
  balances add up to what was minted less what was burned.\<close>

theorem token_supply_is_conserved:
  assumes "token_run qs t"
  shows "0 \<le> holding t a \<and> total (holding t) = sum_list (map issued qs) \<and>
    (\<forall>d. st_get (mt_allowances t) p = Some d \<longrightarrow> 0 \<le> sint (al_amount d))"
  using token_run_sound [OF assms] unfolding sound_def by blast

text \<open>Two calls: the administrator sets the token up and mints.\<close>

definition admin_env :: call_env where
  "admin_env = \<lparr>env_timestamp = 0, env_sequence = 7, env_min_ttl = 4096, env_auths =
     {(''M'', \<lparr>inv_contract = ''A'', inv_function = ''initialize'',
         inv_args = [AddressArg ''M'', U32Arg 7, TextArg ''Token'', TextArg ''TOK'']\<rparr>),
      (''M'', \<lparr>inv_contract = ''A'', inv_function = ''mint'', inv_args = [AddressArg ''T'', I128Arg 1000]\<rparr>)},
     env_invoker = None, env_contract = ''A''\<rparr>"

lemma sample_token_run:
  "\<exists>t. token_run [Initialize ''M'' 7 ''Token'' ''TOK'', Mint ''T'' 1000] t"
proof -
  obtain t1 where t1: "invoke (token_serve admin_env (Initialize ''M'' 7 ''Token'' ''TOK'')) fresh_token = (Inr (), t1)"
    and v: "mt_admin t1 = Some ''M''" "mt_balances t1 = Map.empty"
    by (auto simp: invoke_ok initialize_def call_eqs authorised_def admin_env_def fresh_token_def)
  obtain t2 where "invoke (token_serve admin_env (Mint ''T'' 1000)) t1 = (Inr (), t2)"
    using v by (auto simp: invoke_ok mint_def read_admin_def call_eqs result_simps authorised_def admin_env_def
        read_balance_eq write_balance_def balance_of_def st_get_def checked_add_def to_i128_def i128_range_def)
  from token_run.served [OF token_run.served [OF token_run.new t1] this] show ?thesis
    by auto
qed

theorem token_supply_is_conserved_witness:
  "\<exists>t. total (holding t) = 1000"
proof -
  obtain t where t: "token_run [Initialize ''M'' 7 ''Token'' ''TOK'', Mint ''T'' 1000] t"
    using sample_token_run by blast
  from token_supply_is_conserved [OF t] show ?thesis
    by auto
qed

end
