(* ===== verification/RouterSettlement.thy ===== *)
theory RouterSettlement
  imports RouterLedger MockToken
begin

section \<open>What a fill pays\<close>

text \<open>
  The router against token contracts that keep the SEP-41 promise: a transfer that returns
  moves the amount and nothing else.  The locale \<open>settlement\<close> states that for all tokens at
  once, shows that the four transfers of a fill come to an atomic swap, and is interpreted
  on the mock tokens of the repository, deployed at any addresses.
\<close>

type_synonym balances = "string \<Rightarrow> string \<Rightarrow> int"

definition paid :: "string \<Rightarrow> string \<Rightarrow> string \<Rightarrow> int \<Rightarrow> balances \<Rightarrow> balances" where
  "paid tok from to n B = B(tok := moved (B tok) from to n)"

text \<open>The swap the two parties agreed on: the sold amount one way, the proceeds the other.\<close>

definition swapped :: "onchain_intent \<Rightarrow> string \<Rightarrow> int \<Rightarrow> balances \<Rightarrow> balances" where
  "swapped i solver p B = paid (oc_buy_token i) solver (oc_trader i) p
     (paid (oc_sell_token i) (oc_trader i) solver (sint (oc_sell_amount i)) B)"

lemma paid_twice: "paid tok a b m (paid tok a b n B) = paid tok a b (m + n) B"
  by (auto simp: paid_def moved_def fun_eq_iff)

text \<open>Paying through an intermediary, part of it back, is paying directly.\<close>

lemma paid_through:
  "m = n + k \<Longrightarrow> paid tok r s k (paid tok r t n (paid tok s r m B)) = paid tok s t n B"
  by (auto simp: paid_def moved_def fun_eq_iff)

lemma paid_zero [simp]: "paid tok a b 0 B = B"
  by (simp add: paid_def moved_def)

locale settlement =
  fixes send :: "call_env \<Rightarrow> string \<Rightarrow> string \<Rightarrow> string \<Rightarrow> i128 \<Rightarrow> 't \<Rightarrow> (unit failure + unit) \<times> 't"
    and bal :: "'t \<Rightarrow> balances"
  assumes send_pays: "send env tok from to n t = (Inr (), t') \<Longrightarrow> bal t' = paid tok from to (sint n) (bal t)"
    and send_funded: "send env tok from to n t = (Inr (), t') \<Longrightarrow> 0 \<le> sint n \<and> sint n \<le> bal t tok from"
begin

lemma payments_swap:
  assumes "payments H env solver i a fee p t t'" and "token_transfer H = send"
    and "sint a = sint p + sint fee" and "0 \<le> sint fee"
  shows "bal t' = swapped i solver (sint p) (bal t)"
proof -
  let ?send = "\<lambda>tok. send (token_env env tok) tok" and ?R = "env_contract env"
  obtain t1 t2 t3 where sends: "?send (oc_sell_token i) (oc_trader i) solver (oc_sell_amount i) t = (Inr (), t1)"
    "?send (oc_buy_token i) solver ?R a t1 = (Inr (), t2)"
    "?send (oc_buy_token i) ?R (oc_trader i) p t2 = (Inr (), t3)"
    and last: "if 0 < sint fee then ?send (oc_buy_token i) ?R solver fee t3 = (Inr (), t') else t' = t3"
    using assms(1) unfolding payments_def assms(2) Let_def by blast
  have "bal t' = paid (oc_buy_token i) ?R solver (sint fee) (bal t3)"
    using last assms(4) by (cases "0 < sint fee") (auto dest: send_pays)
  then show ?thesis
    using assms(3) by (simp add: send_pays [OF sends(1)] send_pays [OF sends(2)] send_pays [OF sends(3)]
        swapped_def paid_through)
qed

end

text \<open>One token at a time, the promise is that of \<open>sep41\<close>, so no payment changes a supply.\<close>

sublocale settlement \<subseteq> token: sep41 "send env tok" "\<lambda>t. bal t tok" for env tok
  by unfold_locales (auto simp: paid_def dest: send_pays send_funded)

section \<open>Mock tokens at their addresses\<close>

type_synonym mock_world = "string \<Rightarrow> mock_token"

text \<open>\<open>TokenClient::transfer\<close>: the call runs in the contract at the token's address.\<close>

definition mock_transfer ::
  "call_env \<Rightarrow> string \<Rightarrow> string \<Rightarrow> string \<Rightarrow> i128 \<Rightarrow> mock_world \<Rightarrow> (unit failure + unit) \<times> mock_world" where
  "mock_transfer env tok from to n w =
     (case transfer env from to n (w tok) of (x, t) \<Rightarrow> (x, w(tok := t)))"

definition holdings :: "mock_world \<Rightarrow> balances" where
  "holdings w tok = holding (w tok)"

lemma mock_transfer_ok:
  "mock_transfer env tok from to n w = (Inr (), w') \<longleftrightarrow>
     (\<exists>t. transfer env from to n (w tok) = (Inr (), t) \<and> w' = w(tok := t))"
  by (auto simp: mock_transfer_def split: prod.split)

interpretation mock_tokens: settlement mock_transfer holdings
  by unfold_locales
     (auto simp: mock_transfer_ok holdings_def paid_def fun_eq_iff
       dest: mock.send_moves mock.send_funded)

lemma execute_swaps:
  assumes "execute_intent H env solver i a r = (Inr rc, r')" and "token_transfer H = mock_transfer"
  shows "\<exists>p fee. split_fill i a = Inr (fee, p) \<and> sint p + sint fee = sint a \<and> 0 \<le> sint fee \<and> 0 \<le> sint p \<and>
    sint (oc_min_buy_amount i) * (10000 - (uint (oc_max_slippage_bps i) + 1)) < sint p * 10000 \<and>
    holdings (rt_tokens r') = swapped i solver (sint p) (holdings (rt_tokens r)) \<and>
    rt_events r' = rt_events r @ [IntentFilled (oc_trader i) (rc_intent_hash rc) solver p fee (rc_timestamp rc)]"
proof -
  let ?m = "sint (oc_min_buy_amount i)" and ?b = "uint (oc_solver_fee_bps i)"
  obtain fee p where adm: "admissible H env solver i a r" and split: "split_fill i a = Inr (fee, p)"
    and settle: "settle_fill H env solver i a (get_intent_hash H i) fee p r = (Inr rc, r')"
    using assms(1) unfolding execute_intent_ok by blast
  have pre: "0 < ?m" "?m \<le> sint a" "oc_solver_fee_bps i \<le> 10000" "0 \<le> ?b"
    using adm by (auto simp: admissible_def)
  note v = split_fill_values [OF split pre(1-3)]
  obtain t where "payments H env solver i a fee p (rt_tokens r) t"
    and rc: "rc_intent_hash rc = get_intent_hash H i" "rc_timestamp rc = env_timestamp env"
    and r': "r' = filled_state env i (get_intent_hash H i) rc
      (IntentFilled (oc_trader i) (get_intent_hash H i) solver p fee (env_timestamp env)) t r"
    using settle by (auto simp: settle_fill_ok)
  then have "holdings t = swapped i solver (sint p) (holdings (rt_tokens r))"
    using mock_tokens.payments_swap [OF _ assms(2)] v by simp
  moreover have "(?m - sint p) * 10000 < (uint (oc_max_slippage_bps i) + 1) * ?m"
    using v(3) pre(1) by (simp add: shortfall_le_iff)
  then have "?m * (10000 - (uint (oc_max_slippage_bps i) + 1)) < sint p * 10000"
    by (simp add: algebra_simps)
  moreover have "sint p + sint fee = sint a"
    using v(2) by simp
  ultimately show ?thesis
    using split v(4,5) rc by (intro exI [of _ p] exI [of _ fee]) (simp add: r' filled_state_def)
qed

text \<open>The other direction: enough balance, and no overflow, makes a transfer return.\<close>

lemma read_write_balance:
  "read_balance x t = (Inr (balance_of t x), t)"
  "write_balance env x n t = (Inr (), t\<lparr>mt_balances :=
     st_write env TTL_THRESHOLD TTL_EXTEND_TO x n (mt_balances t)\<rparr>)"
  by (simp_all add: read_balance_def write_balance_def state_read_def state_write_def)

lemma transfer_succeeds:
  assumes "authorised env from ''transfer'' (transfer_args from to n)" and "from \<noteq> to" and "0 \<le> sint n" and "sint n \<le> holding t from"
    and "i128_range (holding t to + sint n)"
  shows "\<exists>t'. transfer env from to n t = (Inr (), t')"
proof -
  let ?w = "\<lambda>x n t. t\<lparr>mt_balances := st_write env TTL_THRESHOLD TTL_EXTEND_TO x n (mt_balances t)\<rparr>"
  have "i128_range (holding t from - sint n)"
    using assms(3,4) sint_range [of "balance_of t from"] unfolding holding_def
    by (intro i128_range_between [OF sint_range [of "balance_of t from"]]) simp_all
  then obtain x where x: "checked_sub (balance_of t from) n = Some x"
    unfolding checked_sub_def holding_def using to_i128_value by blast
  obtain y where y: "checked_add (balance_of t to) n = Some y"
    using to_i128_value [OF assms(5)] unfolding checked_add_def holding_def by blast
  have "balance_of (?w from x t) to = balance_of t to"
    using assms(2) by (simp add: balance_of_def)
  with x y have "move_balance env from to n t = (Inr (), ?w to y (?w from x t))"
    using assms(4) by (simp add: move_balance_def abind_def alift_def read_write_balance or_trap_def
        holding_def del: mock_token.update_convs)
  then show ?thesis
    using assms(1,3) by (simp add: transfer_def abind_def require_auth_def alift_def)
qed

lemma mock_transfer_succeeds:
  assumes "authorised env from ''transfer'' (transfer_args from to n)" and "from \<noteq> to" and "0 \<le> sint n" and "sint n \<le> holdings w tok from"
    and "i128_range (holdings w tok to + sint n)"
  shows "\<exists>w'. mock_transfer env tok from to n w = (Inr (), w')"
  using transfer_succeeds [of env "from" to n "w tok"] assms by (auto simp: mock_transfer_ok holdings_def)

lemma holdings_paid:
  "mock_transfer env tok from to n w = (Inr (), w') \<Longrightarrow> holdings w' = paid tok from to (sint n) (holdings w)"
  by (rule mock_tokens.send_pays)

text \<open>The two transfers out of the parties' balances need their authorisations too, as
  sub-invocations; for its own the router is the direct invoker.\<close>

definition payments_authorised :: "call_env \<Rightarrow> string \<Rightarrow> onchain_intent \<Rightarrow> i128 \<Rightarrow> bool" where
  "payments_authorised env solver i a \<longleftrightarrow>
     authorised (token_env env (oc_sell_token i)) (oc_trader i) ''transfer''
       (transfer_args (oc_trader i) solver (oc_sell_amount i)) \<and>
     authorised (token_env env (oc_buy_token i)) solver ''transfer''
       (transfer_args solver (env_contract env) a)"

lemma own_transfer: "authorised (token_env env tok) (env_contract env) f args"
  by (simp add: authorised_def token_env_def)

lemma payments_succeed:
  assumes H: "token_transfer H = mock_transfer" and auth: "payments_authorised env solver i a"
    and parties: "solver \<noteq> oc_trader i" "solver \<noteq> env_contract env" "oc_trader i \<noteq> env_contract env"
    and tokens: "oc_sell_token i \<noteq> oc_buy_token i"
    and amounts: "0 \<le> sint (oc_sell_amount i)" "0 \<le> sint a" "0 \<le> sint p" "0 \<le> sint fee" "sint p + sint fee = sint a"
    and funds: "sint (oc_sell_amount i) \<le> holdings w (oc_sell_token i) (oc_trader i)"
      "sint a \<le> holdings w (oc_buy_token i) solver" "0 \<le> holdings w (oc_buy_token i) (env_contract env)"
    and room: "i128_range (holdings w (oc_sell_token i) solver + sint (oc_sell_amount i))"
      "i128_range (holdings w (oc_buy_token i) (env_contract env) + sint a)"
      "i128_range (holdings w (oc_buy_token i) (oc_trader i) + sint p)"
  shows "\<exists>w'. payments H env solver i a fee p w w'"
proof -
  let ?R = "env_contract env" and ?S = "oc_sell_token i" and ?B = "oc_buy_token i" and ?T = "oc_trader i"
  note env = auth [unfolded payments_authorised_def] own_transfer
  obtain w1 where w1: "mock_transfer (token_env env ?S) ?S ?T solver (oc_sell_amount i) w = (Inr (), w1)"
    using mock_transfer_succeeds [of "token_env env ?S" ?T solver "oc_sell_amount i" w ?S]
      parties amounts funds room by (auto simp: env)
  note h1 = holdings_paid [OF w1]
  have b1: "holdings w1 ?B = holdings w ?B"
    using tokens by (simp add: h1 paid_def)
  obtain w2 where w2: "mock_transfer (token_env env ?B) ?B solver ?R a w1 = (Inr (), w2)"
    using mock_transfer_succeeds [of "token_env env ?B" solver ?R a w1 ?B]
      parties amounts funds room by (auto simp: env b1)
  note h2 = holdings_paid [OF w2]
  have b2: "holdings w2 ?B = moved (holdings w ?B) solver ?R (sint a)"
    by (simp add: h2 paid_def b1)
  obtain w3 where w3: "mock_transfer (token_env env ?B) ?B ?R ?T p w2 = (Inr (), w3)"
    using mock_transfer_succeeds [of "token_env env ?B" ?R ?T p w2 ?B]
      parties amounts funds room by (auto simp: env b2 moved_def)
  note h3 = holdings_paid [OF w3]
  have b3: "holdings w3 ?B = moved (moved (holdings w ?B) solver ?R (sint a)) ?R ?T (sint p)"
    by (simp add: h3 paid_def b2)
  have "i128_range (holdings w ?B solver - sint a + sint fee)"
    using funds(2) amounts sint_range [of "balance_of (w ?B) solver"]
    by (intro i128_range_between [OF sint_range [of "balance_of (w ?B) solver"]])
       (simp_all add: holdings_def holding_def)
  then obtain w4 where "mock_transfer (token_env env ?B) ?B ?R solver fee w3 = (Inr (), w4)"
    using mock_transfer_succeeds [of "token_env env ?B" ?R solver fee w3 ?B]
      parties amounts funds by (auto simp: env b3 moved_def)
  then show ?thesis
    unfolding payments_def Let_def H using w1 w2 w3 by (cases "0 < sint fee") auto
qed

lemma execute_succeeds:
  assumes H: "token_transfer H = mock_transfer" and auth: "both_authorised env solver i a" "payments_authorised env solver i a"
    and checks: "first_failure (fill_checks H env solver i a r) = Inr ()"
    and parties: "solver \<noteq> env_contract env" "oc_trader i \<noteq> env_contract env"
    and tokens: "oc_sell_token i \<noteq> oc_buy_token i"
    and funds: "sint (oc_sell_amount i) \<le> holdings (rt_tokens r) (oc_sell_token i) (oc_trader i)"
      "sint a \<le> holdings (rt_tokens r) (oc_buy_token i) solver"
      "0 \<le> holdings (rt_tokens r) (oc_buy_token i) (env_contract env)"
      "0 \<le> holdings (rt_tokens r) (oc_buy_token i) (oc_trader i)"
    and room: "i128_range (holdings (rt_tokens r) (oc_sell_token i) solver + sint (oc_sell_amount i))"
      "i128_range (holdings (rt_tokens r) (oc_buy_token i) (env_contract env) + sint a)"
      "i128_range (holdings (rt_tokens r) (oc_buy_token i) (oc_trader i) + sint a)"
  shows "\<exists>rc r'. execute_intent H env solver i a r = (Inr rc, r')"
proof -
  have pass: "solver \<noteq> oc_trader i" "0 < sint (oc_sell_amount i)" "0 < sint (oc_min_buy_amount i)"
    "oc_solver_fee_bps i \<le> 10000" "sint (oc_min_buy_amount i) \<le> sint a"
    using checks unfolding first_failure_ok fill_checks_def Let_def by simp_all
  have "fst (admit_fill H env solver i a r) \<noteq> Inl e" for e
    unfolding admit_fill_table [OF auth(1)] using checks by simp
  then obtain fee p where adm: "admissible H env solver i a r" and split: "split_fill i a = Inr (fee, p)"
    by (metis admit_fill_ok prod.collapse old.sum.exhaust)
  note v = split_fill_values [OF split pass(3,5,4)]
  have "i128_range (holdings (rt_tokens r) (oc_buy_token i) (oc_trader i) + sint p)"
    using v(2,4,5) funds(4) by (intro i128_range_between [OF room(3)]) simp_all
  then have "\<exists>w'. payments H env solver i a fee p (rt_tokens r) w'"
    using pass v funds room
    by (intro payments_succeed [OF H auth(2) pass(1) parties tokens]) simp_all
  then show ?thesis
    unfolding execute_intent_ok settle_fill_ok using adm split by blast
qed

section \<open>A funded sample\<close>

definition sample_host :: "mock_world soroban" where
  "sample_host = \<lparr>intent_xdr = intent_xdr reference_host, host_sha256 = host_sha256 reference_host,
     token_transfer = mock_transfer\<rparr>"

text \<open>The trader holds 1000 of \<open>A\<close>, the solver 2000 of \<open>B\<close>.\<close>

definition sample_world :: mock_world where
  "sample_world = (\<lambda>_. fresh_token)
     (''A'' := fresh_token\<lparr>mt_balances := [''T'' \<mapsto> (1000, 0)]\<rparr>,
      ''B'' := fresh_token\<lparr>mt_balances := [''S'' \<mapsto> (2000, 0)]\<rparr>)"

lemma sample_holdings:
  "holdings sample_world tok x =
     (if tok = ''A'' \<and> x = ''T'' then 1000 else if tok = ''B'' \<and> x = ''S'' then 2000 else 0)"
  by (simp add: holdings_def holding_def balance_of_def sample_world_def fresh_token_def st_get_def)

lemma sample_passes:
  "first_failure (fill_checks sample_host sample_env ''S'' (sample_order 0) 2000 (deployed 0 sample_world)) = Inr ()"
  by (simp add: fill_checks_def Let_def sample_auths sample_order_values views deployed_def st_get_def
      i128_range_def shortfall_bps_def bps_share_def)

lemma sample_payments: "payments_authorised sample_env ''S'' (sample_order 0) 2000"
  by (simp add: payments_authorised_def authorised_def token_env_def sample_env_def sample_fill_auths_def
      sample_order_values)

lemma sample_fill:
  "\<exists>rc r'. execute_intent sample_host sample_env ''S'' (sample_order 0) 2000 (deployed 0 sample_world) = (Inr rc, r')"
  by (rule execute_succeeds [OF _ _ _ sample_passes])
     (simp_all add: sample_host_def sample_auths sample_payments sample_order_values deployed_def sample_holdings
       i128_range_def)

section \<open>Properties\<close>

text \<open>(C8) A fill against the mock tokens is an atomic swap and nothing else: the trader's
  \<open>sell_amount\<close> goes to the solver, the proceeds go from the solver to the trader, the router
  keeps nothing, nobody else is touched.  The proceeds and the fee split the delivered
  amount, fall short of the minimum by less than the tolerance plus one basis point, and
  are what the event reports.\<close>

theorem fill_is_atomic_swap:
  assumes "execute_intent H env solver i a r = (Inr rc, r')" and "token_transfer H = mock_transfer"
  shows "\<exists>p fee. sint p + sint fee = sint a \<and> 0 \<le> sint fee \<and>
    sint (oc_min_buy_amount i) * (10000 - (uint (oc_max_slippage_bps i) + 1)) < sint p * 10000 \<and>
    holdings (rt_tokens r') = swapped i solver (sint p) (holdings (rt_tokens r)) \<and>
    rt_events r' = rt_events r @ [IntentFilled (oc_trader i) (rc_intent_hash rc) solver p fee (rc_timestamp rc)]"
  using execute_swaps [OF assms] by blast

theorem fill_is_atomic_swap_witness:
  "\<exists>rc r'. execute_intent sample_host sample_env ''S'' (sample_order 0) 2000 (deployed 0 sample_world) = (Inr rc, r') \<and>
     (\<exists>p. holdings (rt_tokens r') = swapped (sample_order 0) ''S'' p (holdings sample_world))"
proof -
  obtain rc r' where run: "execute_intent sample_host sample_env ''S'' (sample_order 0) 2000
      (deployed 0 sample_world) = (Inr rc, r')"
    using sample_fill by blast
  have "token_transfer sample_host = mock_transfer"
    by (simp add: sample_host_def)
  from fill_is_atomic_swap [OF run this] run show ?thesis
    by (auto simp: deployed_def)
qed

text \<open>(C24) A fill that is owed goes through: when both parties have authorised it and the transfer it
  makes of their tokens, every check
  of the table passes, both hold what they owe, and no balance overflows, the call returns
  a receipt.\<close>

theorem funded_fill_succeeds:
  assumes "token_transfer H = mock_transfer" and "both_authorised env solver i a" and "payments_authorised env solver i a"
    and "first_failure (fill_checks H env solver i a r) = Inr ()"
    and "solver \<noteq> env_contract env" and "oc_trader i \<noteq> env_contract env"
    and "oc_sell_token i \<noteq> oc_buy_token i"
    and "sint (oc_sell_amount i) \<le> holdings (rt_tokens r) (oc_sell_token i) (oc_trader i)"
    and "sint a \<le> holdings (rt_tokens r) (oc_buy_token i) solver"
    and "0 \<le> holdings (rt_tokens r) (oc_buy_token i) (env_contract env)"
    and "0 \<le> holdings (rt_tokens r) (oc_buy_token i) (oc_trader i)"
    and "i128_range (holdings (rt_tokens r) (oc_sell_token i) solver + sint (oc_sell_amount i))"
    and "i128_range (holdings (rt_tokens r) (oc_buy_token i) (env_contract env) + sint a)"
    and "i128_range (holdings (rt_tokens r) (oc_buy_token i) (oc_trader i) + sint a)"
  shows "\<exists>rc r'. execute_intent H env solver i a r = (Inr rc, r')"
  using assms by (rule execute_succeeds)

theorem funded_fill_succeeds_witness:
  "\<exists>rc r'. execute_intent sample_host sample_env ''S'' (sample_order 0) 2000 (deployed 0 sample_world) = (Inr rc, r')"
  by (rule funded_fill_succeeds [OF _ _ _ sample_passes])
     (simp_all add: sample_host_def sample_auths sample_payments sample_order_values deployed_def sample_holdings
       i128_range_def)

end
