(* ===== verification/Consent.thy ===== *)
theory Consent
  imports RouterSettlement
begin

section \<open>Nobody pays without consent\<close>

text \<open>
  What authorisation buys.  A signature names one call: a contract, a function and all the
  arguments.  On the mock token a balance falls only in a call its holder authorised, or a
  spender did within the allowance the holder gave; and through the router a balance falls
  only in the fill that its holder authorised, by no more than the order says.
\<close>

subsection \<open>The token\<close>

text \<open>The call a request is, as a signature names it, and whose it is to authorise.\<close>

fun signature :: "token_request \<Rightarrow> string \<times> call_arg list" where
  "signature (Initialize admin d n s) = (''initialize'', [AddressArg admin, U32Arg d, TextArg n, TextArg s])"
| "signature (Mint to n) = (''mint'', [AddressArg to, I128Arg n])"
| "signature (Transfer from to n) = (''transfer'', transfer_args from to n)"
| "signature (Approve from spender n e) =
     (''approve'', [AddressArg from, AddressArg spender, I128Arg n, U32Arg e])"
| "signature (TransferFrom spender from to n) =
     (''transfer_from'', [AddressArg spender, AddressArg from, AddressArg to, I128Arg n])"
| "signature (Burn from n) = (''burn'', [AddressArg from, I128Arg n])"
| "signature (BurnFrom spender from n) = (''burn_from'', [AddressArg spender, AddressArg from, I128Arg n])"

definition signed :: "call_env \<Rightarrow> token_request \<Rightarrow> string \<Rightarrow> bool" where
  "signed env q a \<longleftrightarrow> authorised env a (fst (signature q)) (snd (signature q))"

text \<open>What \<open>spender\<close> may still take from \<open>from\<close>.\<close>

definition granted :: "call_env \<Rightarrow> mock_token \<Rightarrow> string \<Rightarrow> string \<Rightarrow> int" where
  "granted env t from spender = sint (spendable env (case allowed t (from, spender) of
     Some d \<Rightarrow> d | None \<Rightarrow> no_allowance))"

lemma spend_allowance_granted:
  assumes "spend_allowance env from spender n t = (Inr (), t')"
  shows "sint n \<le> granted env t from spender" and "holding t' = holding t"
  using assms unfolding spend_allowance_def read_allowance_def write_allowance_def granted_def allowed_def
  by (auto simp: call_eqs result_simps holding_def balance_of_def fun_eq_iff split: if_splits)

lemma transfer_from_ok:
  assumes "transfer_from env spender from to n t = (Inr (), t')"
  shows "signed env (TransferFrom spender from to n) spender \<and> 0 \<le> sint n \<and> sint n \<le> granted env t from spender \<and>
    holding t' = moved (holding t) from to (sint n)"
  using assms unfolding transfer_from_def
  by (auto simp: call_eqs signed_def dest!: move_balance_ok dest: spend_allowance_granted split: if_splits)

lemma burn_ok:
  assumes "burn env from n t = (Inr (), t')"
  shows "signed env (Burn from n) from \<and> 0 \<le> sint n \<and> holding t' = (holding t)(from := holding t from - sint n)"
  using assms unfolding burn_def
  by (auto simp: call_eqs signed_def dest!: burn_balance_ok split: if_splits)

lemma burn_from_ok:
  assumes "burn_from env spender from n t = (Inr (), t')"
  shows "signed env (BurnFrom spender from n) spender \<and> 0 \<le> sint n \<and> sint n \<le> granted env t from spender \<and>
    holding t' = (holding t)(from := holding t from - sint n)"
  using assms unfolding burn_from_def
  by (auto simp: call_eqs signed_def dest!: burn_balance_ok dest: spend_allowance_granted split: if_splits)

lemma token_loss:
  assumes "token_serve env q t = (Inr (), t')" and "holding t' x < holding t x"
  shows "signed env q x \<or>
    (\<exists>s. signed env q s \<and> holding t x - holding t' x \<le> granted env t x s)"
proof (cases q)
  case (Transfer "from" to n)
  then show ?thesis
    using assms mock.send_moves [of env "from" to n t t'] transfer_ok [of env "from" to n t t']
    by (auto simp: signed_def moved_def split: if_splits)
next
  case (TransferFrom spender "from" to n)
  then show ?thesis
    using assms transfer_from_ok [of env spender "from" to n t t']
    by (auto simp: moved_def split: if_splits)
next
  case (Burn "from" n)
  then show ?thesis
    using assms burn_ok [of env "from" n t t'] by (auto split: if_splits)
next
  case (BurnFrom spender "from" n)
  then show ?thesis
    using assms burn_from_ok [of env spender "from" n t t'] by (auto split: if_splits)
next
  case (Mint to n)
  then show ?thesis
    using assms mint_ok [of env to n t t'] by (auto split: if_splits)
next
  case (Approve "from" spender n e)
  then show ?thesis
    using assms approve_ok [of env "from" spender n e t t'] by simp
next
  case (Initialize admin d n s)
  then have "holding t' = holding t"
    using assms(1) by (auto simp: initialize_def call_eqs holding_def balance_of_def fun_eq_iff split: if_splits)
  then show ?thesis
    using assms(2) by simp
qed
text \<open>Only the holder gives an allowance, and spending never raises one.\<close>

lemma granted_upd:
  "allowed t' = (allowed t)((from, s) \<mapsto> d) \<Longrightarrow>
     granted env t' x y = (if (x, y) = (from, s) then sint (spendable env d) else granted env t x y)"
  by (simp add: granted_def)

lemma spend_allowance_lowers:
  assumes "spend_allowance env from spender n t = (Inr (), t')" and "0 \<le> sint n"
  shows "granted env t' x s \<le> granted env t x s"
proof -
  define d where "d = (case allowed t (from, spender) of Some d \<Rightarrow> d | None \<Rightarrow> no_allowance)"
  obtain m where m: "checked_sub (spendable env d) n = Some m" "sint n \<le> sint (spendable env d)"
    and t': "allowed t' = (allowed t)((from, spender) \<mapsto> \<lparr>al_amount = m, al_expiration = al_expiration d\<rparr>)"
    using assms(1) unfolding spend_allowance_def read_allowance_def write_allowance_def d_def allowed_def
    by (auto simp: call_eqs result_simps not_less split: if_splits)
  have "sint (spendable env \<lparr>al_amount = m, al_expiration = al_expiration d\<rparr>) \<le> sint (spendable env d)"
    using checked_values(2) [OF m(1)] assms(2) m(2) by (simp add: spendable_def split: if_splits)
  then show ?thesis
    unfolding granted_upd [OF t'] by (auto simp: granted_def d_def)
qed

lemma granted_same: "allowed t' = allowed t \<Longrightarrow> granted env t' x s = granted env t x s"
  by (simp add: granted_def)

lemma allowance_growth:
  assumes "token_serve env q t = (Inr (), t')" and "granted env t x s < granted env t' x s"
  shows "\<exists>n e. q = Approve x s n e \<and> signed env q x \<and> granted env t' x s \<le> sint n"
proof (cases q)
  case (Transfer "from" to n)
  then have "allowed t' = allowed t"
    using assms(1) transfer_ok move_balance_allowed by fastforce
  then show ?thesis
    using assms(2) by (simp add: granted_def)
next
  case (TransferFrom spender "from" to n)
  then obtain t1 where n: "0 \<le> sint n" and spend: "spend_allowance env from spender n t = (Inr (), t1)"
    and move: "move_balance env from to n t1 = (Inr (), t')"
    using assms(1) by (auto simp: transfer_from_def call_eqs split: if_splits)
  then show ?thesis
    using assms(2) spend_allowance_lowers [OF spend n, of x s] granted_same [OF move_balance_allowed [OF move]]
    by simp
next
  case (Burn "from" n)
  then have "allowed t' = allowed t"
    using assms(1) by (auto simp: burn_def call_eqs dest: burn_balance_ok split: if_splits)
  then show ?thesis
    using assms(2) by (simp add: granted_def)
next
  case (BurnFrom spender "from" n)
  then obtain t1 where n: "0 \<le> sint n" and spend: "spend_allowance env from spender n t = (Inr (), t1)"
    and burn: "burn_balance env from n t1 = (Inr (), t')"
    using assms(1) by (auto simp: burn_from_def call_eqs split: if_splits)
  then show ?thesis
    using assms(2) spend_allowance_lowers [OF spend n, of x s] granted_same [of t' t1] burn_balance_ok [OF burn]
    by simp
next
  case (Mint to n)
  then show ?thesis
    using assms mint_ok [of env to n t t'] granted_same [of t' t] by simp
next
  case (Approve "from" spender n e)
  have "signed env q from" and up: "allowed t' = (allowed t)((from, spender) \<mapsto> \<lparr>al_amount = n, al_expiration = e\<rparr>)"
    and n: "0 \<le> sint n"
    using assms(1) Approve approve_ok [of env "from" spender n e t t']
    by (auto simp: approve_def call_eqs signed_def split: if_splits)
  then show ?thesis
    using assms(2) Approve by (auto simp: granted_upd [OF up] spendable_def split: if_splits)
next
  case (Initialize admin d n s)
  then have "allowed t' = allowed t"
    using assms(1) by (auto simp: initialize_def call_eqs allowed_def split: if_splits)
  then show ?thesis
    using assms(2) by (simp add: granted_def)
qed
subsection \<open>The router\<close>

text \<open>Who loses what in a swap: the trader of the sold token, the solver of the bought one.\<close>

lemma swapped_loss:
  assumes "solver \<noteq> oc_trader i" and "0 \<le> p" and "0 \<le> sint (oc_sell_amount i)"
    and "swapped i solver p B tok x < B tok x"
  shows "(x = oc_trader i \<and> tok = oc_sell_token i \<and> B tok x - swapped i solver p B tok x \<le> sint (oc_sell_amount i)) \<or>
    (x = solver \<and> tok = oc_buy_token i \<and> B tok x - swapped i solver p B tok x \<le> p)"
  using assms by (auto simp: swapped_def paid_def moved_def split: if_splits)

lemma payments_signed:
  assumes "payments H env solver i a fee p w w'" and "token_transfer H = mock_transfer"
  shows "payments_authorised env solver i a"
proof -
  obtain w1 w2 where "mock_transfer (token_env env (oc_sell_token i)) (oc_sell_token i) (oc_trader i) solver
      (oc_sell_amount i) w = (Inr (), w1)"
    "mock_transfer (token_env env (oc_buy_token i)) (oc_buy_token i) solver (env_contract env) a w1 = (Inr (), w2)"
    using assms(1) unfolding payments_def Let_def assms(2) by blast
  then show ?thesis
    by (auto simp: mock_transfer_ok payments_authorised_def dest: transfer_ok)
qed

lemma execute_loss:
  assumes "execute_intent H env solver i a r = (Inr rc, r')" and "token_transfer H = mock_transfer"
    and "holdings (rt_tokens r') tok x < holdings (rt_tokens r) tok x"
  shows "both_authorised env solver i a \<and> payments_authorised env solver i a \<and>
    (let loss = holdings (rt_tokens r) tok x - holdings (rt_tokens r') tok x in
     (x = oc_trader i \<and> tok = oc_sell_token i \<and> loss \<le> sint (oc_sell_amount i)) \<or>
     (x = solver \<and> tok = oc_buy_token i \<and> loss \<le> sint a))"
proof -
  obtain fee p where adm: "admissible H env solver i a r"
    and settle: "settle_fill H env solver i a (get_intent_hash H i) fee p r = (Inr rc, r')"
    using assms(1) unfolding execute_intent_ok by blast
  have signed: "payments_authorised env solver i a"
    using settle payments_signed [OF _ assms(2)] by (auto simp: settle_fill_ok)
  obtain p' fee' :: i128 where swap: "sint p' + sint fee' = sint a" "0 \<le> sint fee'" "0 \<le> sint p'"
    "holdings (rt_tokens r') = swapped i solver (sint p') (holdings (rt_tokens r))"
    using execute_swaps [OF assms(1,2)] by blast
  have "solver \<noteq> oc_trader i" "0 \<le> sint (oc_sell_amount i)"
    using adm by (auto simp: admissible_def)
  note loss = swapped_loss [OF this(1) swap(3) this(2), of "holdings (rt_tokens r)" tok x,
      folded swap(4), OF assms(3)]
  then show ?thesis
    using adm signed swap(1,2) by (auto simp: admissible_def Let_def)
qed

lemma queries_keep_tokens:
  assumes "serve H env q r = (Inr u, r')" and "\<nexists>solver i a. q = Execute solver i a"
  shows "rt_tokens r' = rt_tokens r"
  using assms
  by (cases q) (auto simp: router_eqs init_def cancel_intent_def get_fill_receipt_def Let_def split: if_splits)

lemma router_loss:
  assumes "invoke (serve H env q) r = (z, r')" and "token_transfer H = mock_transfer"
    and "holdings (rt_tokens r') tok x < holdings (rt_tokens r) tok x"
  shows "\<exists>solver i a. q = Execute solver i a \<and> both_authorised env solver i a \<and>
    payments_authorised env solver i a \<and>
    (let loss = holdings (rt_tokens r) tok x - holdings (rt_tokens r') tok x in
     (x = oc_trader i \<and> tok = oc_sell_token i \<and> loss \<le> sint (oc_sell_amount i)) \<or>
     (x = solver \<and> tok = oc_buy_token i \<and> loss \<le> sint a))"
proof (cases z)
  case (Inl f)
  then show ?thesis
    using assms(1,3) by (auto simp: invoke_failed)
next
  case (Inr u)
  then have ok: "serve H env q r = (Inr u, r')"
    using assms(1) by (simp add: invoke_ok)
  show ?thesis
  proof (cases "\<exists>solver i a. q = Execute solver i a")
    case True
    then obtain solver i a where q: "q = Execute solver i a"
      by blast
    obtain rc where "execute_intent H env solver i a r = (Inr rc, r')"
      using ok by (auto simp: q call_eqs)
    from execute_loss [OF this assms(2,3)] q show ?thesis
      by blast
  next
    case False
    then show ?thesis
      using queries_keep_tokens [OF ok] assms(3) by simp
  qed
qed

text \<open>A signature is good for one fill only: not for another order, another amount or another
  solver.\<close>

lemma unsigned_fill:
  assumes "\<not> authorised env solver ''execute_intent'' (fill_args solver i a)"
  shows "execute_intent H env solver i a r = (Inl (Trap ''authorization missing''), r)"
  using assms by (simp add: execute_intent_def admit_fill_def abind_def require_auth_def alift_def)

lemma trader_unsigned_fill:
  assumes "\<not> authorised env (oc_trader i) ''execute_intent'' (fill_args solver i a)"
  shows "execute_intent H env solver i a r = (Inl (Trap ''authorization missing''), r) \<or>
    execute_intent H env solver i a r = (Inl (Fail UnauthorizedTrader), r)"
  using assms
  by (cases "authorised env solver ''execute_intent'' (fill_args solver i a)")
     (auto simp: execute_intent_def admit_fill_def abind_def require_auth_def reject_if_def alift_def)

lemma other_fill_unsigned:
  assumes "env_invoker env = None"
    and "\<forall>args. (oc_trader i, \<lparr>inv_contract = env_contract env, inv_function = ''execute_intent'', inv_args = args\<rparr>)
      \<in> env_auths env \<longrightarrow> args = fill_args solver' i' a'"
    and "(solver, i, a) \<noteq> (solver', i', a')"
  shows "\<not> authorised env (oc_trader i) ''execute_intent'' (fill_args solver i a)"
  using assms by (auto simp: authorised_def fill_args_inj)

section \<open>Properties\<close>

text \<open>(C5) No funds move without consent: if a call of the router makes anybody's balance of any
  token smaller, the call is a fill that its solver and its trader have both authorised with
  exactly these arguments, as well as the transfers out of their balances; the poorer one is
  the trader, by at most the \<open>sell_amount\<close> of the signed intent and in the sold token, or the
  solver, by at most the amount it offered and in the bought token.\<close>

theorem funds_move_by_consent:
  assumes "invoke (serve H env q) r = (z, r')" and "token_transfer H = mock_transfer"
    and "holdings (rt_tokens r') tok x < holdings (rt_tokens r) tok x"
  shows "\<exists>solver i a. q = Execute solver i a \<and> both_authorised env solver i a \<and>
    payments_authorised env solver i a \<and>
    (let loss = holdings (rt_tokens r) tok x - holdings (rt_tokens r') tok x in
     (x = oc_trader i \<and> tok = oc_sell_token i \<and> loss \<le> sint (oc_sell_amount i)) \<or>
     (x = solver \<and> tok = oc_buy_token i \<and> loss \<le> sint a))"
  using assms by (rule router_loss)

theorem funds_move_by_consent_witness:
  "\<exists>r'. invoke (serve sample_host sample_env (Execute ''S'' (sample_order 0) 2000)) (deployed 0 sample_world)
      = (Inr (), r') \<and>
    holdings sample_world ''A'' ''T'' - holdings (rt_tokens r') ''A'' ''T'' \<le> 1000"
proof -
  obtain rc r' where run: "execute_intent sample_host sample_env ''S'' (sample_order 0) 2000
      (deployed 0 sample_world) = (Inr rc, r')"
    using sample_fill by blast
  then have call: "invoke (serve sample_host sample_env (Execute ''S'' (sample_order 0) 2000))
      (deployed 0 sample_world) = (Inr (), r')"
    by (simp add: invoke_ok call_eqs)
  have H: "token_transfer sample_host = mock_transfer"
    by (simp add: sample_host_def)
  have "holdings (rt_tokens r') ''A'' ''T'' < holdings (rt_tokens (deployed 0 sample_world)) ''A'' ''T''"
    using execute_swaps [OF run H]
    by (auto simp: swapped_def paid_def moved_def sample_order_values sample_holdings deployed_def)
  from funds_move_by_consent [OF call H this] call show ?thesis
    by (auto simp: Let_def sample_order_values deployed_def)
qed

text \<open>(C6) A trader's signature fits one fill: when what the trader has signed is one call of
  \<open>execute_intent\<close>, with its solver, its intent and its amount, then every other fill of the
  trader's orders, with another intent, another amount or by another solver, is refused
  before anything is written.\<close>

theorem signature_fits_one_fill:
  assumes "env_invoker env = None"
    and "\<forall>args. (oc_trader i, \<lparr>inv_contract = env_contract env, inv_function = ''execute_intent'', inv_args = args\<rparr>)
      \<in> env_auths env \<longrightarrow> args = fill_args solver' i' a'"
    and "(solver, i, a) \<noteq> (solver', i', a')"
  shows "execute_intent H env solver i a r = (Inl (Trap ''authorization missing''), r) \<or>
    execute_intent H env solver i a r = (Inl (Fail UnauthorizedTrader), r)"
  by (rule trader_unsigned_fill [OF other_fill_unsigned [OF assms]])

text \<open>The sample trader has signed a fill by \<open>S\<close>; the solver \<open>Q\<close> cannot use the signature, whatever
  it signs itself.\<close>

theorem signature_fits_one_fill_witness:
  "execute_intent sample_host (fill_env (sample_order 0) 2000) ''Q'' (sample_order 0) 2000 (deployed 0 sample_world)
     = (Inl (Trap ''authorization missing''), deployed 0 sample_world)"
proof -
  let ?env = "fill_env (sample_order 0) 2000"
  have "env_invoker ?env = None" "\<forall>args. (oc_trader (sample_order 0), \<lparr>inv_contract = env_contract ?env,
      inv_function = ''execute_intent'', inv_args = args\<rparr>) \<in> env_auths ?env \<longrightarrow> args = fill_args ''S'' (sample_order 0) 2000"
    by (auto simp: fill_env_def sample_env_def sample_fill_auths_def sample_order_values)
  from signature_fits_one_fill [OF this, of "''Q''" 2000 sample_host "deployed 0 sample_world"]
  have "execute_intent sample_host ?env ''Q'' (sample_order 0) 2000 (deployed 0 sample_world)
        = (Inl (Trap ''authorization missing''), deployed 0 sample_world) \<or>
      execute_intent sample_host ?env ''Q'' (sample_order 0) 2000 (deployed 0 sample_world)
        = (Inl (Fail UnauthorizedTrader), deployed 0 sample_world)"
    by simp
  moreover have "\<not> authorised ?env ''Q'' ''execute_intent'' (fill_args ''Q'' (sample_order 0) 2000)"
    by (simp add: authorised_def fill_env_def sample_env_def sample_fill_auths_def)
  ultimately show ?thesis
    using unsigned_fill by metis
qed

text \<open>(C39) The same of the token itself: a balance falls only in a call its holder authorised, or
  one a spender authorised within the allowance the holder had granted; and an allowance
  grows only in an \<open>approve\<close> of the holder, to at most the amount approved.\<close>

theorem token_moves_by_consent:
  assumes "token_serve env q t = (Inr (), t')"
  shows "(holding t' x < holding t x \<longrightarrow> signed env q x \<or>
      (\<exists>s. signed env q s \<and> holding t x - holding t' x \<le> granted env t x s)) \<and>
    (granted env t x s < granted env t' x s \<longrightarrow>
      (\<exists>n e. q = Approve x s n e \<and> signed env q x \<and> granted env t' x s \<le> sint n))"
  using token_loss [OF assms] allowance_growth [OF assms] by blast

text \<open>The trader pays the solver all it has.\<close>

lemma sample_token_transfer:
  "\<exists>t'. token_serve (token_env sample_env ''A'') (Transfer ''T'' ''S'' 1000) (sample_world ''A'') = (Inr (), t') \<and>
     holding t' ''T'' < holding (sample_world ''A'') ''T''"
proof -
  have "authorised (token_env sample_env ''A'') ''T'' ''transfer'' (transfer_args ''T'' ''S'' 1000)"
    using sample_payments by (simp add: payments_authorised_def sample_order_values)
  then obtain t' where t': "transfer (token_env sample_env ''A'') ''T'' ''S'' 1000 (sample_world ''A'') = (Inr (), t')"
    using transfer_succeeds [of "token_env sample_env ''A''" "''T''" "''S''" 1000 "sample_world ''A''"]
      sample_holdings [of "''A''"] by (auto simp: holdings_def i128_range_def)
  then show ?thesis
    using mock.send_moves [OF t'] sample_holdings [of "''A''" "''T''"]
    by (auto simp: holdings_def moved_def)
qed

theorem token_moves_by_consent_witness:
  "\<exists>t'. token_serve (token_env sample_env ''A'') (Transfer ''T'' ''S'' 1000) (sample_world ''A'') = (Inr (), t') \<and>
     (\<exists>x. signed (token_env sample_env ''A'') (Transfer ''T'' ''S'' 1000) x)"
proof -
  obtain t' where run: "token_serve (token_env sample_env ''A'') (Transfer ''T'' ''S'' 1000) (sample_world ''A'') = (Inr (), t')"
    and loss: "holding t' ''T'' < holding (sample_world ''A'') ''T''"
    using sample_token_transfer by blast
  from token_moves_by_consent [OF run, of "''T''"] loss run show ?thesis
    by blast
qed

end
