(* ===== verification/EvaluatorTests.thy ===== *)
theory EvaluatorTests
  imports Evaluator
begin

section \<open>The tests of the evaluator\<close>

text \<open>
  packages/solver-bot/src/tests/evaluator.test.ts on the model: a lemma is a test case (or the
  cases of one group), in the order of the file, and states what the assertions expect; where a
  test matches a message with a regular expression, the lemma has the whole message.
\<close>

definition NOW :: rat where
  "NOW = 1800000000"

definition makeIntent :: trader_intent where
  "makeIntent = \<lparr>trader = ''GAAAAAAAAAAAAAAAAAAAAAAAAAAAAAAAAAAAAAAAAAAAAAAAAAAAWHF5'',
     sellToken = ''CAAAAAAAAAAAAAAAAAAAAAAAAAAAAAAAAAAAAAAAAAAAAAAAAAAABSC4'',
     buyToken = ''CAAAAAAAAAAAAAAAAAAAAAAAAAAAAAAAAAAAAAAAAAAAAAAAAAAABSC5'',
     sellAmount = 1000000, minBuyAmount = 1000000, maxSlippageBps = Fin 100,
     deadline = Fin (NOW + 600), nonce = 1, solverFeeBps = Fin 50\<rparr>"

lemma test_bpsOf_floors:
  "bpsOf 1000000 (Fin 50) = Inr 5000"
  "bpsOf 1000000 (Fin 0) = Inr 0"
  "bpsOf 1 (Fin 50) = Inr 0"
  by code_simp+

lemma test_bpsOf_rejects:
  "bpsOf 1 (Fin (- 1)) = Inl (RangeError ''bps must be a non-negative integer'')"
  "bpsOf 1 (Fin (3 / 2)) = Inl (RangeError ''bps must be a non-negative integer'')"
  by code_simp+

lemma test_check_accepts:
  "checkFillAgainstIntent makeIntent 1000000 (Fin NOW) =
     Inr \<lparr>fc_ok = True, fc_reason = ''fill accepted'', fc_solverFee = 5000, fc_traderProceeds = 995000,
       fc_shortfallBps = 50\<rparr>"
  by code_simp

lemma test_check_expired:
  "checkFillAgainstIntent makeIntent 1000000 (Fin (NOW + 601)) = Inr (rejected ''intent expired'')"
  by code_simp

lemma test_check_below_minimum:
  "checkFillAgainstIntent makeIntent 999999 (Fin NOW) =
     Inr (rejected (''fill below the trader'' @ [CHR 0x27] @ ''s minimum buy amount''))"
  by code_simp

lemma test_check_slippage:
  "checkFillAgainstIntent (makeIntent\<lparr>solverFeeBps := Fin 500\<rparr>) 1000000 (Fin NOW) =
     Inr \<lparr>fc_ok = False, fc_reason = ''trader slippage tolerance exceeded'', fc_solverFee = 50000,
       fc_traderProceeds = 950000, fc_shortfallBps = 500\<rparr>"
  by code_simp

lemma test_check_malformed:
  "checkFillAgainstIntent (makeIntent\<lparr>sellAmount := 0\<rparr>) 1000000 (Fin NOW) =
     Inr (rejected ''intent amounts must be positive'')"
  "checkFillAgainstIntent (makeIntent\<lparr>maxSlippageBps := Fin 10001\<rparr>) 1000000 (Fin NOW) =
     Inr (rejected ''intent basis points out of range'')"
  by code_simp+

text \<open>The inputs of the four tests of \<open>evaluateIntent\<close>; the clock is not read.\<close>

definition fill_input :: "trader_intent \<Rightarrow> int \<Rightarrow> int \<Rightarrow> int \<Rightarrow> evaluation_input" where
  "fill_input i value cost profit = \<lparr>ei_intent = i, ei_fillAmount = 1000000, ei_marketValueOfSell = value,
     ei_txCost = cost, ei_minProfit = profit, ei_now = Some (Fin NOW)\<rparr>"

definition verdict :: "evaluation_result result \<Rightarrow> (bool \<times> string \<times> int) result" where
  "verdict r = rbind r (\<lambda>e. Inr (er_profitable e, er_reason e, er_netProfit e))"

lemma test_evaluate:
  "verdict (evaluateIntent NaN (fill_input makeIntent 1200000 20000 0)) = Inr (True, ''profitable'', 185000)"
  "verdict (evaluateIntent NaN (fill_input makeIntent 900000 20000 0)) =
     Inr (False, ''net profit below the configured minimum'', - 115000)"
  "verdict (evaluateIntent NaN (fill_input makeIntent 1200000 20000 200000)) =
     Inr (False, ''net profit below the configured minimum'', 185000)"
  "verdict (evaluateIntent NaN (fill_input (makeIntent\<lparr>solverFeeBps := Fin 500\<rparr>) 10000000 0 0)) =
     Inr (False, ''trader slippage tolerance exceeded'', 0)"
  by code_simp+

text \<open>Prices of whole dollars, where the valuation is exact.\<close>

lemma whole_prices:
  assumes "0 \<le> amount" and "0 < p" "p \<le> 2 ^ 30" and "0 < q" "q \<le> 2 ^ 30"
  shows "marketValueInQuote amount (Fin (of_int p)) (Fin (of_int q)) = Inr (amount * p div q)"
proof -
  have "round_double (of_int (n * 10 ^ 6) / 10 ^ 6) = Fin (of_int n)" if "0 < n" "n \<le> 2 ^ 30" for n :: int
    using is_double_of_int [of n] that by (simp add: is_double_def)
  then show ?thesis
    using market_value_prices [of amount "p * 10 ^ 6" "q * 10 ^ 6"] assms by simp
qed

lemma test_marketValue:
  "marketValueInQuote 1000000 (Fin 1) (Fin 2) = Inr 500000"
  "marketValueInQuote 1000000 (Fin 2) (Fin 1) = Inr 2000000"
  "marketValueInQuote 1 (Fin 0) (Fin 1) = Inl (RangeError ''prices must be positive'')"
  using whole_prices [of 1000000 1 2] whole_prices [of 1000000 2 1]
  by (simp_all add: marketValueInQuote_def)

lemma test_evaluateFromPrices:
  "evaluateFromPrices NaN makeIntent 1000000 [(sellToken makeIntent, Fin 2), (buyToken makeIntent, Fin 1)]
       10000 0 (Some (Fin NOW)) =
     Inr \<lparr>er_profitable = True, er_reason = ''profitable'', er_fillAmount = 1000000, er_solverFee = 5000,
       er_traderProceeds = 995000, er_marketValueOfSell = 2000000, er_txCost = 10000, er_netProfit = 995000\<rparr>"
  "verdict (evaluateFromPrices NaN makeIntent 1000000 [(sellToken makeIntent, Fin 1)] 0 0 (Some (Fin NOW))) =
     Inr (False, ''missing price for sell or buy token'', 0)"
proof -
  have "sellToken makeIntent \<noteq> buyToken makeIntent" "sellAmount makeIntent = 1000000"
    by code_simp+
  moreover have "evaluateIntent NaN \<lparr>ei_intent = makeIntent, ei_fillAmount = 1000000,
      ei_marketValueOfSell = 2000000, ei_txCost = 10000, ei_minProfit = 0, ei_now = Some (Fin NOW)\<rparr> =
    Inr \<lparr>er_profitable = True, er_reason = ''profitable'', er_fillAmount = 1000000, er_solverFee = 5000,
       er_traderProceeds = 995000, er_marketValueOfSell = 2000000, er_txCost = 10000, er_netProfit = 995000\<rparr>"
    by code_simp
  ultimately show "evaluateFromPrices NaN makeIntent 1000000
       [(sellToken makeIntent, Fin 2), (buyToken makeIntent, Fin 1)] 10000 0 (Some (Fin NOW)) =
     Inr \<lparr>er_profitable = True, er_reason = ''profitable'', er_fillAmount = 1000000, er_solverFee = 5000,
       er_traderProceeds = 995000, er_marketValueOfSell = 2000000, er_txCost = 10000, er_netProfit = 995000\<rparr>"
    and "verdict (evaluateFromPrices NaN makeIntent 1000000 [(sellToken makeIntent, Fin 1)] 0 0 (Some (Fin NOW))) =
     Inr (False, ''missing price for sell or buy token'', 0)"
    by (simp_all add: evaluateFromPrices_def test_marketValue verdict_def)
qed

end
