(* ===== verification/Sha256.thy ===== *)
theory Sha256
  imports Main
begin

section \<open>SHA-256\<close>

text \<open>
  The hash of the Secure Hash Standard, on byte strings, for the instance of \<open>StellarXdr\<close>: both
  \<open>node:crypto\<close> and the Soroban host promise it.  A 32-bit word is the list of its bits,
  the lowest first, so that the simplifier evaluates a digest: rotations move the bits, sums
  carry along them.
\<close>

type_synonym bits = "bool list"

text \<open>Bytes are characters; the bits of a byte string, the highest of each byte first, and back.\<close>

fun byte_bits :: "string \<Rightarrow> bool list" where
  "byte_bits (Char b0 b1 b2 b3 b4 b5 b6 b7 # s) = b7 # b6 # b5 # b4 # b3 # b2 # b1 # b0 # byte_bits s"
| "byte_bits [] = []"

fun bits_bytes :: "bool list \<Rightarrow> string" where
  "bits_bytes (b7 # b6 # b5 # b4 # b3 # b2 # b1 # b0 # s) = Char b0 b1 b2 b3 b4 b5 b6 b7 # bits_bytes s"
| "bits_bytes _ = []"

text \<open>The last \<open>k\<close> bytes of an integer, the highest first.\<close>

fun big_endian :: "nat \<Rightarrow> int \<Rightarrow> string" where
  "big_endian 0 n = []"
| "big_endian (Suc k) n = big_endian k (n div 256) @ [char_of n]"

lemma length_big_endian [simp]: "length (big_endian k n) = k"
  by (induction k arbitrary: n) simp_all

fun int_bits :: "nat \<Rightarrow> int \<Rightarrow> bits" where
  "int_bits 0 n = []"
| "int_bits (Suc k) n = (n mod 2 = 1) # int_bits k (n div 2)"

definition rotr :: "nat \<Rightarrow> bits \<Rightarrow> bits" where
  "rotr n x = drop n x @ take n x"

definition shr :: "nat \<Rightarrow> bits \<Rightarrow> bits" where
  "shr n x = drop n x @ replicate n False"

fun xor3 :: "bits \<Rightarrow> bits \<Rightarrow> bits \<Rightarrow> bits" where
  "xor3 (a # x) (b # y) (c # z) = (a = (b = c)) # xor3 x y z"
| "xor3 _ _ _ = []"

fun pick :: "bits \<Rightarrow> bits \<Rightarrow> bits \<Rightarrow> bits" where
  "pick (a # x) (b # y) (c # z) = (if a then b else c) # pick x y z"
| "pick _ _ _ = []"

fun majority :: "bits \<Rightarrow> bits \<Rightarrow> bits \<Rightarrow> bits" where
  "majority (a # x) (b # y) (c # z) = (if a = b then a else c) # majority x y z"
| "majority _ _ _ = []"

fun add_carry :: "bool \<Rightarrow> bits \<Rightarrow> bits \<Rightarrow> bits" where
  "add_carry c (a # x) (b # y) = (a = (b = c)) # add_carry (if a = b then a else c) x y"
| "add_carry _ _ _ = []"

abbreviation plus32 :: "bits \<Rightarrow> bits \<Rightarrow> bits" where
  "plus32 x y \<equiv> add_carry False x y"

text \<open>The sum of words is the sum of their values, modulo \<open>2 ^ 32\<close>.\<close>

lemma add_carry_int_bits:
  "add_carry c (int_bits k m) (int_bits k n) = int_bits k (m + n + of_bool c)"
proof (induction k arbitrary: c m n)
  case (Suc k)
  let ?c = "if (m mod 2 = 1) = (n mod 2 = 1) then m mod 2 = 1 else c"
  have "(m + n + of_bool c) div 2 = m div 2 + n div 2 + of_bool ?c"
    "((m + n + of_bool c) mod 2 = 1) = ((m mod 2 = 1) = ((n mod 2 = 1) = c))"
    by (cases c; auto; presburger)+
  then show ?case
    by (simp add: Suc.IH)
qed simp

text \<open>The round constants: the first 32 bits of the fractional parts of the cube roots of the
  first 64 primes; the initial hash: of the square roots of the first eight.\<close>

definition round_constants :: "bits list" where
  "round_constants = map (int_bits 32)
     [1116352408, 1899447441, 3049323471, 3921009573, 961987163, 1508970993, 2453635748, 2870763221,
      3624381080, 310598401, 607225278, 1426881987, 1925078388, 2162078206, 2614888103, 3248222580,
      3835390401, 4022224774, 264347078, 604807628, 770255983, 1249150122, 1555081692, 1996064986,
      2554220882, 2821834349, 2952996808, 3210313671, 3336571891, 3584528711, 113926993, 338241895,
      666307205, 773529912, 1294757372, 1396182291, 1695183700, 1986661051, 2177026350, 2456956037,
      2730485921, 2820302411, 3259730800, 3345764771, 3516065817, 3600352804, 4094571909, 275423344,
      430227734, 506948616, 659060556, 883997877, 958139571, 1322822218, 1537002063, 1747873779,
      1955562222, 2024104815, 2227730452, 2361852424, 2428436474, 2756734187, 3204031479, 3329325298]"

definition initial_hash :: "bits list" where
  "initial_hash = map (int_bits 32)
     [1779033703, 3144134277, 1013904242, 2773480762, 1359893119, 2600822924, 528734635, 1541459225]"

text \<open>One round on the eight working words, and the sliding window of the message schedule.\<close>

fun shift_in :: "bits \<Rightarrow> bits \<Rightarrow> bits list \<Rightarrow> bits list" where
  "shift_in t u [a, b, c, d, e, f, g, h] = [plus32 t u, a, b, c, plus32 d t, e, f, g]"
| "shift_in t u st = st"

fun sha_round :: "bits \<Rightarrow> bits \<Rightarrow> bits list \<Rightarrow> bits list" where
  "sha_round k w [a, b, c, d, e, f, g, h] = shift_in
     (plus32 (plus32 (plus32 h (xor3 (rotr 6 e) (rotr 11 e) (rotr 25 e))) (plus32 k w)) (pick e f g))
     (plus32 (xor3 (rotr 2 a) (rotr 13 a) (rotr 22 a)) (majority a b c))
     [a, b, c, d, e, f, g, h]"
| "sha_round k w st = st"

fun next_window :: "bits list \<Rightarrow> bits list" where
  "next_window [w0, w1, w2, w3, w4, w5, w6, w7, w8, w9, w10, w11, w12, w13, w14, w15] =
     [w1, w2, w3, w4, w5, w6, w7, w8, w9, w10, w11, w12, w13, w14, w15,
      plus32 (plus32 (xor3 (rotr 17 w14) (rotr 19 w14) (shr 10 w14)) w9)
        (plus32 (xor3 (rotr 7 w1) (rotr 18 w1) (shr 3 w1)) w0)]"
| "next_window ws = ws"

fun sha_rounds :: "bits list \<Rightarrow> bits list \<Rightarrow> bits list \<Rightarrow> bits list" where
  "sha_rounds [] ws st = st"
| "sha_rounds (k # ks) ws st = sha_rounds ks (next_window ws) (sha_round k (hd ws) st)"

definition compress :: "bits list \<Rightarrow> bits list \<Rightarrow> bits list \<Rightarrow> bits list" where
  "compress ks st block = map2 (add_carry False) st (sha_rounds ks block st)"

text \<open>Words and bytes: a word is four bytes, the highest first.\<close>

fun byte_words :: "string \<Rightarrow> bits list" where
  "byte_words (c3 # c2 # c1 # c0 # s) =
     (case (c0, c1, c2, c3) of
        (Char a0 a1 a2 a3 a4 a5 a6 a7, Char b0 b1 b2 b3 b4 b5 b6 b7,
         Char d0 d1 d2 d3 d4 d5 d6 d7, Char e0 e1 e2 e3 e4 e5 e6 e7) \<Rightarrow>
        [a0, a1, a2, a3, a4, a5, a6, a7, b0, b1, b2, b3, b4, b5, b6, b7,
         d0, d1, d2, d3, d4, d5, d6, d7, e0, e1, e2, e3, e4, e5, e6, e7]) # byte_words s"
| "byte_words _ = []"

definition word_bytes :: "bits \<Rightarrow> string" where
  "word_bytes w = bits_bytes (rev w)"

definition padded :: "string \<Rightarrow> string" where
  "padded s = s @ CHR 0x80 # replicate (63 - (length s + 8) mod 64) (CHR 0x00)
     @ big_endian 8 (8 * int (length s))"

function sha_blocks :: "bits list \<Rightarrow> bits list \<Rightarrow> bits list \<Rightarrow> bits list" where
  "sha_blocks ks ws st =
     (if ws = [] then st else sha_blocks ks (drop 16 ws) (compress ks st (take 16 ws)))"
  by auto
termination
  by (relation "measure (\<lambda>(ks, ws, st). length ws)") auto

declare sha_blocks.simps [simp del]

text \<open>A message can be hashed in parts.\<close>

lemma sha_blocks_append:
  "16 dvd length ws \<Longrightarrow> sha_blocks ks (ws @ vs) st = sha_blocks ks vs (sha_blocks ks ws st)"
proof (induction ks ws st rule: sha_blocks.induct)
  case (1 ks ws st)
  show ?case
  proof (cases "ws = []")
    case False
    then have "16 \<le> length ws"
      using 1(2) by (auto simp: dvd_imp_le)
    then show ?thesis
      using 1 False sha_blocks.simps [of ks "ws @ vs" st] sha_blocks.simps [of ks ws st] by simp
  qed (simp add: sha_blocks.simps [of ks "[]"])
qed

definition sha256_digest :: "string \<Rightarrow> string" where
  "sha256_digest s = concat (map word_bytes (sha_blocks round_constants (byte_words (padded s)) initial_hash))"

subsection \<open>A digest has 32 bytes\<close>

lemma length_int_bits [simp]: "length (int_bits k n) = k"
  by (induction k arbitrary: n) simp_all

lemma length_rotr [simp]: "length (rotr n x) = length x"
  by (simp add: rotr_def)

lemma length_add_carry: "length (add_carry c x y) = min (length x) (length y)"
  by (induction c x y rule: add_carry.induct) simp_all

lemma length_xor3: "length (xor3 x y z) = min (length x) (min (length y) (length z))"
  by (induction x y z rule: xor3.induct) simp_all

lemma length_pick: "length (pick x y z) = min (length x) (min (length y) (length z))"
  by (induction x y z rule: pick.induct) simp_all

lemma length_majority: "length (majority x y z) = min (length x) (min (length y) (length z))"
  by (induction x y z rule: majority.induct) simp_all

lemmas bits_length = length_add_carry length_xor3 length_pick length_majority

definition words :: "nat \<Rightarrow> bits list \<Rightarrow> bool" where
  "words n ws \<longleftrightarrow> length ws = n \<and> (\<forall>w \<in> set ws. length w = 32)"

lemma words_round: "words 8 st \<Longrightarrow> length k = 32 \<Longrightarrow> length w = 32 \<Longrightarrow> words 8 (sha_round k w st)"
  by (induction k w st rule: sha_round.induct) (simp_all add: words_def Let_def bits_length)

lemma words_window: "words 16 ws \<Longrightarrow> words 16 (next_window ws)"
  by (induction ws rule: next_window.induct) (simp_all add: words_def Let_def bits_length shr_def)

lemma words_rounds:
  "words 16 ws \<Longrightarrow> words 8 st \<Longrightarrow> \<forall>k \<in> set ks. length k = 32 \<Longrightarrow> words 8 (sha_rounds ks ws st)"
proof (induction ks arbitrary: ws st)
  case (Cons k ks)
  have "length (hd ws) = 32"
    using Cons.prems(1) by (cases ws) (simp_all add: words_def)
  then show ?case
    using Cons by (simp add: words_round words_window)
qed simp

lemma words_compress:
  assumes "words 64 ks" and "words 16 block" and "words 8 st"
  shows "words 8 (compress ks st block)"
proof -
  have "words 8 (sha_rounds ks block st)"
    using assms by (intro words_rounds) (simp_all add: words_def)
  with assms(3) show ?thesis
    by (auto simp: words_def compress_def bits_length set_zip)
qed

lemma words_blocks:
  "words 64 ks \<Longrightarrow> words n ws \<Longrightarrow> 16 dvd n \<Longrightarrow> words 8 st \<Longrightarrow> words 8 (sha_blocks ks ws st)"
proof (induction ks ws st arbitrary: n rule: sha_blocks.induct)
  case (1 ks ws st)
  show ?case
  proof (cases "ws = []")
    case False
    then have "16 \<le> n"
      using 1(3,4) by (auto simp: words_def dvd_imp_le)
    then have "words 16 (take 16 ws)" "words (n - 16) (drop 16 ws)" "16 dvd n - 16"
      using 1(3,4) by (auto simp: words_def dvd_diff_nat dest: in_set_takeD in_set_dropD)
    then show ?thesis
      using 1 False by (subst sha_blocks.simps) (simp add: words_compress)
  qed (use 1(5) in \<open>simp add: sha_blocks.simps\<close>)
qed

lemma words_bytes: "length s = 4 * n \<Longrightarrow> words n (byte_words s)"
proof (induction s arbitrary: n rule: byte_words.induct)
  case (1 c3 c2 c1 c0 s)
  then obtain m where "n = Suc m" "length s = 4 * m"
    by (cases n) simp_all
  then show ?case
    using 1 by (simp add: words_def split: char.split)
qed (auto simp: words_def)

lemma length_padded: "length (padded s) = 64 * ((length s + 8) div 64 + 1)"
proof -
  have "length (padded s) = l + (1 + (63 - l mod 64))" if "l = length s + 8" for l
    using that by (simp add: padded_def)
  moreover have "l + (1 + (63 - l mod 64)) = 64 * (l div 64 + 1)" for l :: nat
    by presburger
  ultimately show ?thesis
    by presburger
qed

lemma length_bits_bytes: "length (bits_bytes bs) = length bs div 8"
  by (induction bs rule: bits_bytes.induct) simp_all

lemma length_sha256: "length (sha256_digest s) = 32"
proof -
  obtain m where "length (padded s) = 4 * (16 * m)"
    using that [of "(length s + 8) div 64 + 1"] length_padded [of s] by simp
  then have "words 8 (sha_blocks round_constants (byte_words (padded s)) initial_hash)"
    by (intro words_blocks [where n = "16 * m"] words_bytes) (simp_all add: words_def initial_hash_def round_constants_def)
  then show ?thesis
    by (simp add: sha256_digest_def length_concat words_def word_bytes_def length_bits_bytes
        comp_def sum_list_triv cong: map_cong)
qed

end
