(* ===== verification/StellarXdr.thy ===== *)
theory StellarXdr
  imports IntentCodec Sha256
begin

section \<open>The published formats behind the Stellar SDK\<close>

text \<open>
  An instance of \<open>stellar_sdk\<close> that computes: addresses as strkeys (base32 of a version
  byte, 32 bytes and a CRC-16), ScVals as a datatype, and their XDR text as the Stellar
  protocol defines it.  The intent encoding of the SDK and of the router runs on it, so the
  bytes both sides hash can be computed; SHA-256 stays a parameter.  Account and contract
  addresses are covered; muxed ones are rejected.
\<close>

datatype address = Account string | Contract string

datatype scval =
    ScU32 int
  | ScU64 int
  | ScI128 int
  | ScSymbol string
  | ScAddress address
  | ScMap "(scval \<times> scval) list"

subsection \<open>Strkeys\<close>

definition base32_alphabet :: string where
  "base32_alphabet = ''ABCDEFGHIJKLMNOPQRSTUVWXYZ234567''"

definition bit_value :: "bool \<Rightarrow> nat" where
  "bit_value b = (if b then 1 else 0)"

fun base32_text :: "bool list \<Rightarrow> string" where
  "base32_text (a # b # c # d # e # s) =
     base32_alphabet ! (16 * bit_value a + 8 * bit_value b + 4 * bit_value c + 2 * bit_value d + bit_value e)
       # base32_text s"
| "base32_text _ = []"

text \<open>The five bits of a letter.\<close>

definition letter_bits :: "char \<Rightarrow> bool list option" where
  "letter_bits = map_of (zip base32_alphabet (map rev (List.n_lists 5 [False, True])))"

fun base32_bits :: "string \<Rightarrow> bool list" where
  "base32_bits [] = []"
| "base32_bits (c # s) = (case letter_bits c of None \<Rightarrow> [] | Some bs \<Rightarrow> bs @ base32_bits s)"

text \<open>CRC-16/XMODEM: a register of sixteen bits, the highest first, fed one bit at a time.\<close>

fun crc_step :: "bool list \<Rightarrow> bool \<Rightarrow> bool list" where
  "crc_step [c15, c14, c13, c12, c11, c10, c9, c8, c7, c6, c5, c4, c3, c2, c1, c0] m =
     (let f = (c15 \<noteq> m)
      in [c14, c13, c12, c11 \<noteq> f, c10, c9, c8, c7, c6, c5, c4 \<noteq> f, c3, c2, c1, c0, f])"
| "crc_step c m = c"

definition crc16 :: "bool list \<Rightarrow> bool list" where
  "crc16 bits = foldl crc_step (replicate 16 False) bits"

definition strkey :: "char \<Rightarrow> string \<Rightarrow> string" where
  "strkey version payload =
     (let bits = byte_bits (version # payload); crc = crc16 bits
      in base32_text (bits @ drop 8 crc @ take 8 crc))"

definition account_version :: char where
  "account_version = CHR 0x30"

definition contract_version :: char where
  "contract_version = CHR 0x10"

fun address_text :: "address \<Rightarrow> string" where
  "address_text (Account k) = strkey account_version k"
| "address_text (Contract k) = strkey contract_version k"

text \<open>Reading decodes the letters and compares the text with that of the decoded address, so the
  checksum and the spare bits are checked along.\<close>

definition read_address :: "string \<Rightarrow> address option" where
  "read_address s = (case bits_bytes (base32_bits s) of
       [] \<Rightarrow> None
     | version # rest \<Rightarrow>
         let k = take 32 rest;
             a = (if version = account_version then Account k else Contract k)
         in if length k = 32 \<and> address_text a = s then Some a else None)"

lemma read_address_text: "read_address s = Some a \<Longrightarrow> address_text a = s"
  by (auto simp: read_address_def Let_def split: list.splits if_splits)

lemma read_address_key: "read_address s = Some (Account k) \<Longrightarrow> length k = 32"
  "read_address s = Some (Contract k) \<Longrightarrow> length k = 32"
  by (auto simp: read_address_def Let_def split: list.splits if_splits)

subsection \<open>XDR\<close>

lemma big_endian_mod: "big_endian k m = big_endian k n \<Longrightarrow> m mod 256 ^ k = n mod 256 ^ k"
proof (induction k arbitrary: m n)
  case (Suc k)
  have "big_endian k (m div 256) = big_endian k (n div 256)" and last: "(char_of m :: char) = char_of n"
    using Suc.prems by simp_all
  then have "m div 256 mod 256 ^ k = n div 256 mod 256 ^ k"
    using Suc.IH by blast
  moreover have "m mod 256 = n mod 256"
    using arg_cong [OF last, of "of_char :: char \<Rightarrow> int"] by simp
  ultimately show ?case
    by (simp add: zmod_zmult2_eq)
qed simp

lemma big_endian_inj:
  "big_endian k m = big_endian k n \<Longrightarrow> 0 \<le> m \<Longrightarrow> m < 256 ^ k \<Longrightarrow> 0 \<le> n \<Longrightarrow> n < 256 ^ k \<Longrightarrow> m = n"
  by (drule big_endian_mod) simp

text \<open>The two's complement of a signed value is its residue.\<close>

lemma big_endian_signed_inj:
  assumes "big_endian 16 m = big_endian 16 n"
    and "- (2 ^ 127) \<le> m" "m < 2 ^ 127" "- (2 ^ 127) \<le> n" "n < 2 ^ 127"
  shows "m = n"
proof (rule ccontr)
  assume "m \<noteq> n"
  have "m mod 2 ^ 128 = n mod 2 ^ 128"
    using big_endian_mod [OF assms(1)] by simp
  then have "2 ^ 128 dvd m - n"
    by (simp add: mod_eq_dvd_iff)
  then have "\<bar>2 ^ 128\<bar> \<le> \<bar>m - n\<bar>"
    using \<open>m \<noteq> n\<close> by (intro dvd_imp_le_int) simp_all
  then show False
    using assms(2-5) by simp
qed

fun xdr :: "scval \<Rightarrow> string" where
  "xdr (ScU32 n) = big_endian 4 3 @ big_endian 4 n"
| "xdr (ScU64 n) = big_endian 4 5 @ big_endian 8 n"
| "xdr (ScI128 n) = big_endian 4 10 @ big_endian 16 n"
| "xdr (ScSymbol s) = big_endian 4 15 @ big_endian 4 (int (length s)) @ s
     @ replicate ((4 - length s mod 4) mod 4) (CHR 0x00)"
| "xdr (ScAddress (Account k)) = big_endian 4 18 @ big_endian 4 0 @ big_endian 4 0 @ k"
| "xdr (ScAddress (Contract k)) = big_endian 4 18 @ big_endian 4 1 @ k"
| "xdr (ScMap kvs) = big_endian 4 17 @ big_endian 4 1 @ big_endian 4 (int (length kvs)) 
     @ concat (map (\<lambda>(k, v). xdr k @ xdr v) kvs)"

subsection \<open>The instance\<close>

definition in_range :: "int \<Rightarrow> int \<Rightarrow> (int \<Rightarrow> scval) \<Rightarrow> int \<Rightarrow> scval result" where
  "in_range lo hi con n = (if lo \<le> n \<and> n < hi then Inr (con n)
     else Inl (RangeError ''value out of range''))"

definition stellar_formats :: "(string \<Rightarrow> string) \<Rightarrow> scval stellar_sdk" where
  "stellar_formats sha = \<lparr>address_ok = (\<lambda>s. read_address s \<noteq> None),
     address_scval = (\<lambda>s. rbind (from_option (PlainError (''Unsupported address type: '' @ s)) (read_address s))
       (\<lambda>a. Inr (ScAddress a))),
     i128_scval = in_range (- (2 ^ 127)) (2 ^ 127) ScI128,
     u64_scval = in_range 0 (2 ^ 64) ScU64,
     u32_scval = (\<lambda>x. rbind (bigint_of_num x) (in_range 0 (2 ^ 32) ScU32)),
     symbol_scval = ScSymbol, map_scval = ScMap, to_xdr = xdr, sha256 = sha\<rparr>"

lemma stellar_formats_encoders: "encoders_injective (stellar_formats sha)"
  by (auto simp: encoders_injective_def stellar_formats_def in_range_def result_simps
      dest: bigint_of_num_inj read_address_text split: if_splits)

text \<open>No encoding is a prefix of another.\<close>

lemma encoded_cases:
  assumes "encoded_value (stellar_formats sha) v"
  obtains (u32) n where "v = ScU32 n" "0 \<le> n" "n < 2 ^ 32"
    | (u64) n where "v = ScU64 n" "0 \<le> n" "n < 2 ^ 64"
    | (i128) n where "v = ScI128 n" "- (2 ^ 127) \<le> n" "n < 2 ^ 127"
    | (account) k where "v = ScAddress (Account k)" "length k = 32"
    | (contract) k where "v = ScAddress (Contract k)" "length k = 32"
proof -
  have "(\<exists>n. v = ScU32 n \<and> 0 \<le> n \<and> n < 2 ^ 32) \<or> (\<exists>n. v = ScU64 n \<and> 0 \<le> n \<and> n < 2 ^ 64) \<or>
      (\<exists>n. v = ScI128 n \<and> - (2 ^ 127) \<le> n \<and> n < 2 ^ 127) \<or>
      (\<exists>a s. v = ScAddress a \<and> read_address s = Some a)"
    using assms by (auto simp: encoded_value_def stellar_formats_def in_range_def result_simps
        split: if_splits)
  then show thesis
    using that read_address_key by (metis address.exhaust)
qed

lemma tag_append:
  "length s = length t \<Longrightarrow> s @ r = t @ r' \<longleftrightarrow> s = t \<and> r = r'"
  by simp

lemma encoded_prefix:
  assumes "encoded_value (stellar_formats sha) v" and "encoded_value (stellar_formats sha) v'"
    and "xdr v @ r = xdr v' @ r'"
  shows "v = v' \<and> r = r'"
proof -
  have tags: "distinct (map (big_endian 4) [3, 5, 10, 18, 0, 1])"
    by code_simp
  show ?thesis
    by (cases rule: encoded_cases [OF assms(1)]; cases rule: encoded_cases [OF assms(2)])
       (use assms(3) tags in \<open>auto dest: big_endian_signed_inj big_endian_inj [where k = 4, simplified]
          big_endian_inj [where k = 8, simplified]\<close>)
qed

lemma entries_prefix:
  assumes "map fst xs = map fst ys"
    and "\<forall>v \<in> set (map snd xs) \<union> set (map snd ys). encoded_value (stellar_formats sha) v"
    and "concat (map (\<lambda>(k, v). xdr k @ xdr v) xs) = concat (map (\<lambda>(k, v). xdr k @ xdr v) ys)"
  shows "xs = ys"
  using assms
proof (induction xs arbitrary: ys)
  case (Cons x xs)
  obtain k v where x: "x = (k, v)"
    by fastforce
  obtain v' zs where ys: "ys = (k, v') # zs" "map fst xs = map fst zs"
    using Cons.prems(1) by (cases ys) (auto simp: x)
  have "xdr v @ concat (map (\<lambda>(k, v). xdr k @ xdr v) xs) = xdr v' @ concat (map (\<lambda>(k, v). xdr k @ xdr v) zs)"
    using Cons.prems(3) by (simp add: x ys)
  then have "v = v' \<and> concat (map (\<lambda>(k, v). xdr k @ xdr v) xs) = concat (map (\<lambda>(k, v). xdr k @ xdr v) zs)"
    using Cons.prems(2) by (intro encoded_prefix [where sha = sha]) (simp_all add: x ys)
  then show ?case
    using Cons.IH [OF ys(2)] Cons.prems(2) by (simp add: x ys)
qed simp

lemma stellar_formats_xdr: "xdr_injective (stellar_formats sha)"
  unfolding xdr_injective_def
proof (intro allI impI)
  fix xs ys
  assume "intent_entries (stellar_formats sha) xs" "intent_entries (stellar_formats sha) ys"
    and eq: "to_xdr (stellar_formats sha) (map_scval (stellar_formats sha) xs)
      = to_xdr (stellar_formats sha) (map_scval (stellar_formats sha) ys)"
  then have keys: "map fst xs = map fst ys"
    and "\<forall>v \<in> set (map snd xs) \<union> set (map snd ys). encoded_value (stellar_formats sha) v"
    by (auto simp: intent_entries_def)
  moreover have "length xs = length ys"
    using arg_cong [OF keys, of length] by simp
  then have "concat (map (\<lambda>(k, v). xdr k @ xdr v) xs) = concat (map (\<lambda>(k, v). xdr k @ xdr v) ys)"
    using eq by (simp add: stellar_formats_def)
  ultimately show "xs = ys"
    by (rule entries_prefix)
qed

end
