(* ===== verification/RecordedHash.thy ===== *)
theory RecordedHash
  imports Sha256
begin

section \<open>A recorded digest\<close>

text \<open>
  The bytes of the intent whose hash the test suites of the SDK and of the router record, and
  their digest, evaluated.  \<open>ReferenceVector\<close> shows that both sides encode the intent so.
\<close>

definition hex_bits :: "string \<Rightarrow> bits" where
  "hex_bits s = concat (map (the \<circ> map_of (zip ''0123456789abcdef'' (map rev (List.n_lists 4 [False, True])))) s)"

definition hex_bytes :: "string \<Rightarrow> string" where
  "hex_bytes s = bits_bytes (hex_bits s)"

definition vector_bytes :: string where
  "vector_bytes = hex_bytes
    (''0000001100000001000000090000000f000000096275795f746f6b656e000000000000120000000000000000ed4928c6'' @
     ''28d1c2c6eae90338905995612959273a5c63f93636c14614ac8737d10000000f00000008646561646c696e6500000005'' @
     ''000000006b49d4580000000f000000106d61785f736c6970706167655f62707300000003000000320000000f0000000e'' @
     ''6d696e5f6275795f616d6f756e7400000000000a0000000000000000000000000090f5600000000f000000056e6f6e63'' @
     ''650000000000000500000000000000010000000f0000000b73656c6c5f616d6f756e74000000000a0000000000000000'' @
     ''00000000009896800000000f0000000a73656c6c5f746f6b656e00000000001200000000000000008139770ea87d175f'' @
     ''56a35466c34c7ecccb8d8a91b4ee37a25df60f5b8fc9b3940000000f0000000e736f6c7665725f6665655f6270730000'' @
     ''00000003000000000000000f0000000674726164657200000000001200000000000000008a88e3dd7409f195fd52db2d'' @
     ''3cba5d72ca6709bf1d94121bf3748801b40f6f5c'')"

lemma vector_words: "length (byte_words (padded vector_bytes)) = 112"
  by code_simp

text \<open>Four of the seven blocks, then the other three.\<close>

lemma vector_half: "sha_blocks round_constants (take 64 (byte_words (padded vector_bytes))) initial_hash =
    byte_words (hex_bytes (''d1c8c0df94200ca39c458c96adaa02cb'' @ ''d590974f617301960ce0bd1fadfe9ea7''))"
  by code_simp

lemma vector_rest: "sha_blocks round_constants (drop 64 (byte_words (padded vector_bytes)))
    (byte_words (hex_bytes (''d1c8c0df94200ca39c458c96adaa02cb'' @ ''d590974f617301960ce0bd1fadfe9ea7''))) =
    byte_words (hex_bytes (''5a1b7ff38e7cd7484e8336dfd9685dbf'' @ ''bc2203509cea6686486edbfb85860ee5''))"
  by code_simp

lemma vector_digest: "sha256_digest vector_bytes =
    hex_bytes (''5a1b7ff38e7cd7484e8336dfd9685dbf'' @ ''bc2203509cea6686486edbfb85860ee5'')"
proof -
  let ?ws = "byte_words (padded vector_bytes)"
  have "sha_blocks round_constants (take 64 ?ws @ drop 64 ?ws) initial_hash =
      byte_words (hex_bytes (''5a1b7ff38e7cd7484e8336dfd9685dbf'' @ ''bc2203509cea6686486edbfb85860ee5''))"
    by (subst sha_blocks_append) (simp_all only: vector_half vector_rest length_take vector_words, simp)
  then have "sha256_digest vector_bytes = concat (map word_bytes
      (byte_words (hex_bytes (''5a1b7ff38e7cd7484e8336dfd9685dbf'' @ ''bc2203509cea6686486edbfb85860ee5''))))"
    by (simp only: sha256_digest_def append_take_drop_id)
  also have "\<dots> = hex_bytes (''5a1b7ff38e7cd7484e8336dfd9685dbf'' @ ''bc2203509cea6686486edbfb85860ee5'')"
    by code_simp
  finally show ?thesis .
qed

end
