(* ===== verification/ReferenceVector.thy ===== *)
theory ReferenceVector
  imports Agreement StellarXdr RecordedHash Client
begin

section \<open>The hash the two test suites share\<close>

text \<open>
  packages/sdk/src/tests/intent.test.ts and contracts/router/src/test.rs record the hash of one
  intent, so that the two encodings cannot drift apart.  On the published formats the hash can
  be computed: the SDK's encoding and the router's give one hash for every intent, and for the
  recorded intent it is the recorded one.
\<close>

abbreviation stellar :: "scval stellar_sdk" where
  "stellar \<equiv> stellar_formats sha256_digest"

definition stellar_host :: "unit soroban" where
  "stellar_host = \<lparr>intent_xdr = (\<lambda>ob. case struct_fields stellar ob of
       Inr fs \<Rightarrow> xdr (ScMap (map (\<lambda>(k, v). (ScSymbol k, v)) (sort_key fst fs))) | Inl _ \<Rightarrow> []),
     host_sha256 = sha256_digest, token_transfer = (\<lambda>_ _ _ _ _ t. (Inr (), t))\<rparr>"

lemma stellar_host_canonical: "canonical_host stellar_host stellar"
  by (auto simp: canonical_host_def stellar_host_def stellar_formats_def)

lemma stellar_encodes:
  assumes "intent_valid (address_ok stellar) i" and "representable i"
  obtains d where "intentDigest stellar i = Inr d" "length d = 32"
proof -
  obtain t b d where n: "maxSlippageBps i = Fin (of_int t)" "0 \<le> t" "t \<le> 10000"
    "solverFeeBps i = Fin (of_int b)" "0 \<le> b" "b \<le> 10000" "deadline i = Fin (of_int d)"
    using intent_valid_numbers [OF assms(1)] by metis
  have "\<exists>fs. byField stellar i = Inr fs"
    using assms n by (auto simp: byField_def scval_defs stellar_formats_def in_range_def
        intent_valid_def representable_def i128_range_def num_int_def)
  then show thesis
    using that by (auto simp: intentDigest_def intentToScVal_def stellar_formats_def length_sha256)
qed

text \<open>The hash binds: two intents with one hash are encoded as a collision of SHA-256, or equal.\<close>

lemma published_hash_binds:
  assumes "hashIntent stellar i = Inr h" and "hashIntent stellar j = Inr h"
  shows "i = j \<or> (\<exists>v w. intentToScVal stellar i = Inr v \<and> intentToScVal stellar j = Inr w \<and>
    xdr v \<noteq> xdr w \<and> sha256_digest (xdr v) = sha256_digest (xdr w))"
  using hash_binds [OF stellar_formats_encoders stellar_formats_xdr assms] by (simp add: stellar_formats_def)

text \<open>(C11) On the published formats both sides compute, for every valid intent that fits the widths
  of the contract, the same SHA-256 of the same bytes: \<open>hashIntent\<close> returns the 64 hexadecimal
  digits of \<open>get_intent_hash\<close>.\<close>

theorem published_formats_hash:
  assumes "intent_valid (address_ok stellar) i" and "representable i"
  shows "hashIntent stellar i = Inr (to_hex (get_intent_hash stellar_host (on_chain i))) \<and>
    length (to_hex (get_intent_hash stellar_host (on_chain i))) = 64"
proof -
  obtain d where d: "intentDigest stellar i = Inr d" "length d = 32"
    using assms by (rule stellar_encodes)
  then show ?thesis
    using hashes_agree [OF assms stellar_host_canonical d(1)] by (simp add: hashIntent_def to_hex_hex)
qed

text \<open>The recorded intent; it is encoded as the bytes of \<open>RecordedHash\<close>.\<close>

definition vector_intent :: trader_intent where
  "vector_intent = \<lparr>trader = ''GCFIRY65OQE7DFP5KLNS2PF2LVZMUZYJX4OZIEQ36N2IQANUB5XVYOJR'',
     sellToken = ''GCATS5YOVB6ROX2WUNKGNQ2MP3GMXDMKSG2O4N5CLX3A6W4PZGZZI55U'',
     buyToken = ''GDWUSKGGFDI4FRXK5EBTRECZSVQSSWJHHJOGH6JWG3AUMFFMQ435DIAG'',
     sellAmount = 10000000, minBuyAmount = 9500000, maxSlippageBps = Fin 50,
     deadline = Fin 1800000600, nonce = 1, solverFeeBps = Fin 0\<rparr>"

lemma vector_encoding: "rbind (intentToScVal stellar vector_intent) (\<lambda>v. Inr (xdr v)) = Inr vector_bytes"
  by code_simp

lemma vector_valid: "intent_valid (address_ok stellar) vector_intent"
proof -
  have "\<forall>a \<in> {trader vector_intent, sellToken vector_intent, buyToken vector_intent}. read_address a \<noteq> None"
    by code_simp
  then show ?thesis
    unfolding validate_ok [symmetric] by (simp add: validateIntent_def assertAddress_def assertBps_def
        BPS_DENOMINATOR_def stellar_formats_def) (simp add: vector_intent_def)
qed

lemma vector_hash: "hashIntent stellar vector_intent =
    Inr (''5a1b7ff38e7cd7484e8336dfd9685dbf'' @ ''bc2203509cea6686486edbfb85860ee5'')"
proof -
  have "intentDigest stellar vector_intent = Inr (sha256_digest vector_bytes)"
    using vector_encoding by (auto simp: intentDigest_def stellar_formats_def result_simps)
  moreover have "to_hex (hex_bytes (''5a1b7ff38e7cd7484e8336dfd9685dbf'' @ ''bc2203509cea6686486edbfb85860ee5'')) =
      ''5a1b7ff38e7cd7484e8336dfd9685dbf'' @ ''bc2203509cea6686486edbfb85860ee5''"
    by code_simp
  ultimately show ?thesis
    by (simp only: hashIntent_def vector_digest rbind.simps)
qed

theorem published_formats_hash_witness:
  "to_hex (get_intent_hash stellar_host (on_chain vector_intent)) =
     ''5a1b7ff38e7cd7484e8336dfd9685dbf'' @ ''bc2203509cea6686486edbfb85860ee5''"
proof -
  have "representable vector_intent"
    by (simp add: representable_def vector_intent_def i128_range_def num_int_def)
  from published_formats_hash [OF vector_valid this] show ?thesis
    unfolding vector_hash by (simp only: sum.inject)
qed

end
