(* ===== verification/IntentTests.thy ===== *)
theory IntentTests
  imports EvaluatorTests ReferenceVector
begin

section \<open>The tests of the intent module\<close>

text \<open>
  packages/sdk/src/tests/intent.test.ts on the model, in the order of the file, with the strkey
  reader of \<open>StellarXdr\<close> for the address check.  The case of the recorded hash is
  \<open>ReferenceVector.vector_hash\<close>; that every field changes the hash is
  \<open>IntentCodec.hashIntent_binding\<close>, up to a collision of SHA-256.
\<close>

definition sampleIntent :: trader_intent where
  "sampleIntent = \<lparr>trader = ''GCFIRY65OQE7DFP5KLNS2PF2LVZMUZYJX4OZIEQ36N2IQANUB5XVYOJR'',
     sellToken = ''GCATS5YOVB6ROX2WUNKGNQ2MP3GMXDMKSG2O4N5CLX3A6W4PZGZZI55U'',
     buyToken = ''GDWUSKGGFDI4FRXK5EBTRECZSVQSSWJHHJOGH6JWG3AUMFFMQ435DIAG'',
     sellAmount = 10000000, minBuyAmount = 9500000, maxSlippageBps = Fin 50,
     deadline = Fin (NOW + 600), nonce = 1, solverFeeBps = Fin 0\<rparr>"

lemma sampleIntent_is_vector: "sampleIntent = vector_intent"
  by (simp add: sampleIntent_def vector_intent_def NOW_def)

abbreviation validate :: "trader_intent \<Rightarrow> unit result" where
  "validate \<equiv> validateIntent (address_ok stellar)"

subsection \<open>The builder\<close>

definition built :: "(intent_builder \<Rightarrow> intent_builder \<times> unit result) list \<Rightarrow> trader_intent result" where
  "built fs = (case chain fs new_builder of
     (b, r) \<Rightarrow> rbind r (\<lambda>_. build (address_ok stellar) (Fin 0) (Some (Fin NOW)) b))"

lemma sample_addresses:
  "address_ok stellar (trader sampleIntent)" "address_ok stellar (sellToken sampleIntent)"
  "address_ok stellar (buyToken sampleIntent)" "sellToken sampleIntent \<noteq> buyToken sampleIntent"
  using vector_valid by (simp_all add: sampleIntent_is_vector intent_valid_def)

lemma deadline_sum: "round_double 1800000600 = Fin 1800000600"
  using round_double_of_int [of 1800000600] by simp

lemmas build_defs = deadline_sum built_def new_builder_def setter_defs build_def required_def validateIntent_def
  assertAddress_def assertBps_def BPS_DENOMINATOR_def DEFAULT_INTENT_TTL_SECONDS_def toBigInt_def
  now_or_clock_def NOW_def Let_def

lemma test_builds_populated:
  "built [setTrader (trader sampleIntent), setPair (sellToken sampleIntent) (buyToken sampleIntent),
       setAmounts (JBig 10000000) (JBig 9500000), setSlippageBps (Fin 50), setSolverFeeBps (Fin 10),
       setDeadline (Fin 0) (Fin 600) (Some (Fin NOW)), setNonce (JBig 7)] =
     Inr (sampleIntent\<lparr>nonce := 7, solverFeeBps := Fin 10\<rparr>)"
  using sample_addresses by (simp add: build_defs) (simp add: sampleIntent_def NOW_def)

lemma test_default_fee:
  "rbind (built [setTrader (trader sampleIntent), setPair (sellToken sampleIntent) (buyToken sampleIntent),
       setAmounts (JBig 1) (JBig 1), setSlippageBps (Fin 0), setDeadline (Fin 0) (Fin 600) (Some (Fin NOW)),
       setNonce (JBig 7)]) (\<lambda>i. Inr (solverFeeBps i)) = Inr (Fin 0)"
  using sample_addresses by (simp add: build_defs)

lemma test_missing_field:
  "built [setPair (sellToken sampleIntent) (buyToken sampleIntent), setAmounts (JBig 1) (JBig 1),
       setSlippageBps (Fin 0)] = Inl (IntentValidationError ''trader is required'')"
  by (simp add: build_defs)

lemma test_past_deadline:
  "built [setTrader (trader sampleIntent), setPair (sellToken sampleIntent) (buyToken sampleIntent),
       setAmounts (JBig 1) (JBig 1), setSlippageBps (Fin 0), setDeadlineTimestamp (Fin (NOW - 1))] =
     Inl (IntentValidationError ''deadline must be in the future'')"
  using sample_addresses by (simp add: build_defs)

subsection \<open>Validation bounds\<close>

lemma sample_terms: "sellAmount sampleIntent = 10000000" "minBuyAmount sampleIntent = 9500000"
  "maxSlippageBps sampleIntent = Fin 50" "deadline sampleIntent = Fin 1800000600"
  "nonce sampleIntent = 1" "solverFeeBps sampleIntent = Fin 0"
  by (simp_all add: sampleIntent_def NOW_def)

lemma not_an_address: "\<not> address_ok stellar ''not-an-address''"
  by code_simp

lemmas validate_defs = validateIntent_def assertAddress_def assertBps_def BPS_DENOMINATOR_def
  sample_addresses sample_terms not_an_address

lemma test_validation_rejects:
  "validate (sampleIntent\<lparr>trader := ''not-an-address''\<rparr>) =
     Inl (IntentValidationError ''trader is not a valid Stellar address: not-an-address'')"
  "validate (sampleIntent\<lparr>maxSlippageBps := Fin 10001\<rparr>) =
     Inl (IntentValidationError ''maxSlippageBps must be between 0 and 10000'')"
  "validate (sampleIntent\<lparr>sellAmount := 0\<rparr>) =
     Inl (IntentValidationError ''sellAmount must be greater than zero'')"
  "validate (sampleIntent\<lparr>minBuyAmount := - 1\<rparr>) =
     Inl (IntentValidationError ''minBuyAmount must be greater than zero'')"
  "validate (sampleIntent\<lparr>buyToken := sellToken sampleIntent\<rparr>) =
     Inl (IntentValidationError ''sellToken and buyToken must differ'')"
  by (simp_all add: validate_defs)

lemma test_fractional_bps:
  "assertBps (Fin (3 / 2)) ''maxSlippageBps'' =
     Inl (IntentValidationError ''maxSlippageBps must be an integer number of basis points'')"
  by code_simp

lemma test_validation_accepts:
  "validate (sampleIntent\<lparr>maxSlippageBps := Fin BPS_DENOMINATOR\<rparr>) = Inr ()"
  "validate (sampleIntent\<lparr>maxSlippageBps := Fin 0\<rparr>) = Inr ()"
  by (simp_all add: validate_defs)

subsection \<open>Hashing and serialization\<close>

lemma test_map_keys_sorted: "sorted SCVAL_FIELD_ORDER"
  "rbind (byField stellar sampleIntent) (\<lambda>fs. Inr (map fst fs)) = Inr SCVAL_FIELD_ORDER"
  by code_simp+

lemma sample_deadline: "is_double (deadline sampleIntent)"
  using is_double_of_int [of 1800000600] by (simp add: sampleIntent_def NOW_def)

lemma test_bigints_are_strings:
  "\<exists>encoded. json_parse (serializeIntent sampleIntent) = Some encoded \<and>
     js_get encoded ''sellAmount'' = Inr (JStr ''10000000'') \<and>
     js_get encoded ''minBuyAmount'' = Inr (JStr ''9500000'') \<and>
     js_get encoded ''nonce'' = Inr (JStr ''1'')"
proof -
  have "json_parse (serializeIntent sampleIntent) = Some (replace_bigints (intent_object sampleIntent))"
    using vector_valid sample_deadline by (intro parse_serialized) (simp_all add: sampleIntent_is_vector)
  moreover have "js_get (replace_bigints (intent_object sampleIntent)) ''sellAmount'' = Inr (JStr ''10000000'')"
    "js_get (replace_bigints (intent_object sampleIntent)) ''minBuyAmount'' = Inr (JStr ''9500000'')"
    "js_get (replace_bigints (intent_object sampleIntent)) ''nonce'' = Inr (JStr ''1'')"
    by code_simp+
  ultimately show ?thesis
    by blast
qed

lemma test_round_trip: "deserializeIntent (address_ok stellar) (serializeIntent sampleIntent) = Inr sampleIntent"
  using vector_valid sample_deadline by (intro deserialize_serialized) (simp_all add: sampleIntent_is_vector)

lemma test_malformed_payloads:
  "deserializeIntent (address_ok stellar) ''{'' =
     Inl (IntentValidationError ''intent payload is not valid JSON'')"
  "deserializeIntent (address_ok stellar) ''null'' =
     Inl (IntentValidationError ''intent payload must be a JSON object'')"
  "deserializeIntent (address_ok stellar) ''{\"trader\":\"x\"}'' =
     Inl (IntentValidationError ''sellAmount is not a valid integer: undefined'')"
  by code_simp+

lemma test_toBigInt:
  "toBigInt (JBig 7) ''x'' = Inr 7" "toBigInt (JNum (Fin 7)) ''x'' = Inr 7" "toBigInt (JStr ''7'') ''x'' = Inr 7"
  "toBigInt (JNum (Fin (6 / 5))) ''x'' = Inl (IntentValidationError ''x must be an integer'')"
  "toBigInt (JStr ''1.2'') ''x'' = Inl (IntentValidationError ''x is not a valid integer: 1.2'')"
  by code_simp+

end
