(* ===== verification/ContractTests.thy ===== *)
theory ContractTests
  imports RouterSettlement
begin

section \<open>The tests of the contracts\<close>

text \<open>
  contracts/router/src/test.rs on the model, in the order of the file: the router with two mock
  tokens, in an environment where every authorisation is given (\<open>mock_all_auths\<close>).  The host
  is any whose tokens are the mock tokens; hashes stay symbolic, and two terms of one trader
  have different hashes where the test relies on it.  The case of the recorded hash is
  \<open>ReferenceVector.published_formats_hash_witness\<close>.
\<close>

definition suite_env :: "u64 \<Rightarrow> string \<Rightarrow> call_env" where
  "suite_env now contract = \<lparr>env_timestamp = now, env_sequence = 0, env_min_ttl = 4096, env_auths = UNIV,
     env_invoker = None, env_contract = contract\<rparr>"

abbreviation router_env :: call_env where
  "router_env \<equiv> suite_env 1000 ''router''"

lemma suite_env_simps [simp]:
  "env_timestamp (suite_env now c) = now" "env_contract (suite_env now c) = c" "env_sequence (suite_env now c) = 0"
  "authorised (suite_env now c) x f args" "authorised (token_env (suite_env now c) tok) x f args"
  "both_authorised (suite_env now c) s i a" "payments_authorised (suite_env now c) s i a"
  by (simp_all add: suite_env_def authorised_def token_env_def both_authorised_def payments_authorised_def)

subsection \<open>The fixture\<close>

text \<open>\<open>deploy_token\<close> and the funding of \<open>setup\<close>.\<close>

definition deploy_token :: "string \<Rightarrow> u32 \<Rightarrow> string \<Rightarrow> string \<Rightarrow> string \<Rightarrow> i128 \<Rightarrow> unit token_call" where
  "deploy_token tok dec name symbol holder amount =
     abind (initialize (suite_env 1000 tok) ''admin'' dec name symbol) (\<lambda>_. mint (suite_env 1000 tok) holder amount)"

definition suite_tokens :: mock_world where
  "suite_tokens = (\<lambda>_. fresh_token)
     (''sell'' := snd (deploy_token ''sell'' 7 ''Stellar Lumens'' ''XLM'' ''trader'' 10000000 fresh_token),
      ''buy'' := snd (deploy_token ''buy'' 6 ''USD Coin'' ''USDC'' ''solver'' 10000000 fresh_token))"

definition fixture :: "mock_world router" where
  "fixture = snd (init router_env ''admin'' (deployed 0 suite_tokens))"

definition sample_intent_rs :: "u64 \<Rightarrow> onchain_intent" where
  "sample_intent_rs n = \<lparr>oc_trader = ''trader'', oc_sell_token = ''sell'', oc_buy_token = ''buy'',
     oc_sell_amount = 1000000, oc_min_buy_amount = 1000000, oc_max_slippage_bps = 100, oc_deadline = 2000,
     oc_nonce = n, oc_solver_fee_bps = 50\<rparr>"

lemma deploy_token_ok:
  "0 \<le> sint n \<Longrightarrow> deploy_token tok d name symbol holder n fresh_token =
     (Inr (), fresh_token\<lparr>mt_admin := Some ''admin'', mt_decimals := Some d, mt_name := Some name,
       mt_symbol := Some symbol, mt_instance_life := TTL_EXTEND_TO,
       mt_balances := st_write (suite_env 1000 tok) TTL_THRESHOLD TTL_EXTEND_TO holder n Map.empty\<rparr>)"
  by (simp add: deploy_token_def initialize_def mint_def read_admin_def read_balance_def write_balance_def
      abind_def state_read_def state_write_def require_auth_def alift_def or_trap_def fresh_token_def
      balance_of_def st_get_def checked_add_def to_i128_ok sint_range TTL_THRESHOLD_def LEDGERS_PER_DAY_def)

lemma suite_holdings:
  "holdings suite_tokens tok x = (if tok = ''sell'' \<and> x = ''trader'' then 10000000
     else if tok = ''buy'' \<and> x = ''solver'' then 10000000 else 0)"
  by (simp add: holdings_def holding_def suite_tokens_def deploy_token_ok balance_of_def)
     (simp add: fresh_token_def st_get_def)

lemma fixture_state:
  "rt_admin fixture = Some ''admin''" "rt_tokens fixture = suite_tokens"
  "status_of fixture h = Active" "receipt_of fixture h = None" "nonce_used fixture a n = False"
  "rt_events fixture = [Initialized ''admin'']"
  by (simp_all add: fixture_def init_def has_admin_def set_admin_def publish_def abind_def reject_if_def
      state_read_def state_write_def require_auth_def alift_def deployed_def views st_get_def)

lemma test_init_configures_admin: "get_admin fixture = (Inr (Some ''admin''), fixture)"
  by (simp add: get_admin_def state_read_def fixture_state)

lemma test_init_rejects_second_call: "init router_env ''admin'' fixture = (Inl (Fail AlreadyInitialized), fixture)"
  by (simp add: init_def has_admin_def abind_def reject_if_def state_read_def alift_def fixture_state)

subsection \<open>Fills\<close>

text \<open>What the suite's fills of \<open>amount\<close> do to the balances.\<close>

lemma suite_fill:
  assumes "token_transfer H = mock_transfer" and "oc_trader i = ''trader''" "oc_sell_token i = ''sell''"
    "oc_buy_token i = ''buy''" "oc_sell_amount i = 1000000"
    and "first_failure (fill_checks H router_env ''solver'' i a fixture) = Inr ()"
    and "0 \<le> sint a" "sint a \<le> 10000000" and split: "split_fill i a = Inr (fee, p)"
  obtains rc r where "execute_intent H router_env ''solver'' i a fixture = (Inr rc, r)"
    and "rc = \<lparr>rc_intent_hash = get_intent_hash H i, rc_solver = ''solver'', rc_bought_amount = a,
      rc_timestamp = 1000\<rparr>"
    and "holdings (rt_tokens r) ''sell'' ''solver'' = 1000000" "holdings (rt_tokens r) ''sell'' ''trader'' = 9000000"
    and "holdings (rt_tokens r) ''buy'' ''trader'' = sint p"
    and "holdings (rt_tokens r) ''buy'' ''solver'' = 10000000 - sint p"
    and "status_of r (get_intent_hash H i) = Filled" "receipt_of r (get_intent_hash H i) = Some rc"
    and "nonce_used r ''trader'' (oc_nonce i)"
proof -
  obtain rc r where run: "execute_intent H router_env ''solver'' i a fixture = (Inr rc, r)"
    using execute_succeeds [OF assms(1) _ _ assms(6)] assms(2-5,7,8)
    by (auto simp: fixture_state suite_holdings i128_range_def)
  have swap: "holdings (rt_tokens r) = swapped i ''solver'' (sint p) (holdings suite_tokens)"
    using execute_swaps [OF run assms(1)] split by (auto simp: fixture_state)
  have post: "rc = \<lparr>rc_intent_hash = get_intent_hash H i, rc_solver = ''solver'', rc_bought_amount = a,
      rc_timestamp = 1000\<rparr>"
    "status_of r (get_intent_hash H i) = Filled" "receipt_of r (get_intent_hash H i) = Some rc"
    "nonce_used r ''trader'' (oc_nonce i)"
    using run assms(2) by (auto simp: execute_intent_ok settle_fill_ok filled_views)
  show thesis
    by (rule that [OF run post(1)])
       (simp_all add: swap swapped_def paid_def moved_def assms(2-5) suite_holdings post)
qed

lemmas suite_checks = fill_checks_def Let_def fixture_state sample_intent_rs_def i128_range_def
  shortfall_bps_def bps_share_def

lemma suite_split: "split_fill (sample_intent_rs n) 1000000 = Inr (5000, 995000)"
  by (subst split_fill_eq) (simp_all add: suite_checks)

lemma suite_passes: "first_failure (fill_checks H router_env ''solver'' (sample_intent_rs n) 1000000 fixture) = Inr ()"
  by (simp add: suite_checks)

lemma test_happy_path:
  assumes "token_transfer H = mock_transfer"
  shows "\<exists>rc r. execute_intent H router_env ''solver'' (sample_intent_rs 1) 1000000 fixture = (Inr rc, r) \<and>
    rc_solver rc = ''solver'' \<and> rc_bought_amount rc = 1000000 \<and> rc_timestamp rc = 1000 \<and>
    holdings (rt_tokens r) ''sell'' ''solver'' = 1000000 \<and> holdings (rt_tokens r) ''sell'' ''trader'' = 9000000 \<and>
    holdings (rt_tokens r) ''buy'' ''trader'' = 995000 \<and> holdings (rt_tokens r) ''buy'' ''solver'' = 9005000 \<and>
    status_of r (rc_intent_hash rc) = Filled \<and> receipt_of r (rc_intent_hash rc) \<noteq> None \<and>
    nonce_used r ''trader'' 1"
  by (rule suite_fill [OF assms _ _ _ _ suite_passes [of H 1] _ _ suite_split]) (auto simp: sample_intent_rs_def)

text \<open>A fee of zero, and more than the minimum delivered.\<close>

lemma test_zero_fee:
  assumes "token_transfer H = mock_transfer"
  shows "\<exists>rc r. execute_intent H router_env ''solver'' ((sample_intent_rs 1)\<lparr>oc_solver_fee_bps := 0\<rparr>) 1000000
      fixture = (Inr rc, r) \<and>
    holdings (rt_tokens r) ''buy'' ''trader'' = 1000000 \<and> holdings (rt_tokens r) ''buy'' ''solver'' = 9000000"
proof -
  let ?i = "(sample_intent_rs 1)\<lparr>oc_solver_fee_bps := 0\<rparr>"
  have split: "split_fill ?i 1000000 = Inr (0, 1000000)"
    by (subst split_fill_eq) (simp_all add: suite_checks)
  have checks: "first_failure (fill_checks H router_env ''solver'' ?i 1000000 fixture) = Inr ()"
    by (simp add: suite_checks)
  show ?thesis
    by (rule suite_fill [OF assms _ _ _ _ checks _ _ split]) (auto simp: sample_intent_rs_def)
qed

lemma test_over_delivery:
  assumes "token_transfer H = mock_transfer"
  shows "\<exists>rc r. execute_intent H router_env ''solver'' (sample_intent_rs 1) 1100000 fixture = (Inr rc, r) \<and>
    holdings (rt_tokens r) ''buy'' ''trader'' = 1100000 - 5500"
proof -
  have split: "split_fill (sample_intent_rs 1) 1100000 = Inr (5500, 1094500)"
    by (subst split_fill_eq) (simp_all add: suite_checks)
  have checks: "first_failure (fill_checks H router_env ''solver'' (sample_intent_rs 1) 1100000 fixture) = Inr ()"
    by (simp add: suite_checks)
  show ?thesis
    by (rule suite_fill [OF assms _ _ _ _ checks _ _ split]) (auto simp: sample_intent_rs_def)
qed

subsection \<open>Refusals\<close>

text \<open>A refused call leaves the state, and with it every balance, as it was.\<close>

lemma test_refusals:
  "execute_intent H (suite_env 2001 ''router'') ''solver'' (sample_intent_rs 1) 1000000 fixture
     = (Inl (Fail IntentExpired), fixture)"
  "execute_intent H router_env ''solver'' (sample_intent_rs 1) 999999 fixture = (Inl (Fail InsufficientOutput), fixture)"
  "execute_intent H router_env ''solver'' ((sample_intent_rs 1)\<lparr>oc_solver_fee_bps := 500\<rparr>) 1000000 fixture
     = (Inl (Fail SlippageExceeded), fixture)"
  "execute_intent H router_env ''solver'' ((sample_intent_rs 1)\<lparr>oc_sell_amount := 0\<rparr>) 1000000 fixture
     = (Inl (Fail InvalidAmount), fixture)"
  "execute_intent H router_env ''solver'' ((sample_intent_rs 1)\<lparr>oc_max_slippage_bps := 10001\<rparr>) 1000000 fixture
     = (Inl (Fail InvalidSlippageBps), fixture)"
  "execute_intent H router_env ''trader'' (sample_intent_rs 1) 1000000 fixture
     = (Inl (Fail UnauthorizedTrader), fixture)"
  by (simp_all add: execute_intent_errors suite_checks)

lemma test_double_fill:
  assumes "execute_intent H router_env ''solver'' (sample_intent_rs 1) 1000000 fixture = (Inr rc, r)"
  shows "execute_intent H router_env ''solver'' (sample_intent_rs 1) 1000000 r = (Inl (Fail IntentNotActive), r)"
proof -
  have "status_of r (get_intent_hash H (sample_intent_rs 1)) = Filled"
    using assms by (auto simp: execute_intent_ok settle_fill_ok filled_views)
  then show ?thesis
    by (simp add: execute_intent_errors suite_checks)
qed

lemma test_reused_nonce:
  assumes "execute_intent H router_env ''solver'' (sample_intent_rs 1) 1000000 fixture = (Inr rc, r)"
    and "get_intent_hash H ((sample_intent_rs 1)\<lparr>oc_deadline := 3000\<rparr>) \<noteq> get_intent_hash H (sample_intent_rs 1)"
  shows "execute_intent H router_env ''solver'' ((sample_intent_rs 1)\<lparr>oc_deadline := 3000\<rparr>) 1000000 r
    = (Inl (Fail NonceAlreadyUsed), r)"
proof -
  have "status_of r (get_intent_hash H ((sample_intent_rs 1)\<lparr>oc_deadline := 3000\<rparr>)) = Active"
    "nonce_used r ''trader'' 1"
    using assms by (auto simp: execute_intent_ok settle_fill_ok filled_views fixture_state sample_intent_rs_def)
  then show ?thesis
    by (simp add: execute_intent_errors suite_checks)
qed

subsection \<open>Cancellations\<close>

lemma test_cancel_blocks_fill:
  "\<exists>r. cancel_intent H router_env (sample_intent_rs 1) fixture = (Inr (), r) \<and>
     status_of r (get_intent_hash H (sample_intent_rs 1)) = Cancelled \<and> nonce_used r ''trader'' 1 \<and>
     receipt_of r (get_intent_hash H (sample_intent_rs 1)) = None \<and>
     execute_intent H router_env ''solver'' (sample_intent_rs 1) 1000000 r = (Inl (Fail IntentNotActive), r) \<and>
     cancel_intent H router_env (sample_intent_rs 1) r = (Inl (Fail IntentNotActive), r)"
proof -
  obtain r where cancel: "cancel_intent H router_env (sample_intent_rs 1) fixture = (Inr (), r)"
    by (auto simp: cancel_intent_ok fixture_state)
  then have views_r: "status_of r (get_intent_hash H (sample_intent_rs 1)) = Cancelled" "nonce_used r ''trader'' 1"
    "receipt_of r h = receipt_of fixture h" for h
    by (auto simp: cancel_intent_ok views sample_intent_rs_def)
  moreover have "execute_intent H router_env ''solver'' (sample_intent_rs 1) 1000000 r = (Inl (Fail IntentNotActive), r)"
    using views_r by (simp add: execute_intent_errors suite_checks)
  moreover have "cancel_intent H router_env (sample_intent_rs 1) r = (Inl (Fail IntentNotActive), r)"
    using views_r by (simp add: cancel_intent_def get_intent_status_def abind_steps Let_def)
  ultimately show ?thesis
    using cancel by (auto simp: fixture_state)
qed

subsection \<open>The mock token\<close>

text \<open>An allowance of 400 until ledger 100, of which 250 are spent.\<close>

definition token_flow :: "mock_token \<Rightarrow> (unit failure + unit) \<times> mock_token" where
  "token_flow = abind (deploy_token ''xlm'' 7 ''Stellar Lumens'' ''XLM'' ''holder'' 1000) (\<lambda>_.
     abind (approve (suite_env 0 ''xlm'') ''holder'' ''spender'' 400 100) (\<lambda>_.
     transfer_from (suite_env 0 ''xlm'') ''spender'' ''holder'' ''recipient'' 250))"

lemma test_allowance_flow:
  "\<exists>t. token_flow fresh_token = (Inr (), t) \<and> decimals t = (Inr 7, t) \<and> token_symbol t = (Inr ''XLM'', t) \<and>
     token_admin t = (Inr ''admin'', t) \<and> token_balance ''recipient'' t = (Inr 250, t) \<and>
     token_balance ''holder'' t = (Inr 750, t) \<and>
     allowance (suite_env 0 ''xlm'') ''holder'' ''spender'' t = (Inr 150, t)"
proof -
  obtain t0 where deploy: "deploy_token ''xlm'' 7 ''Stellar Lumens'' ''XLM'' ''holder'' 1000 fresh_token = (Inr (), t0)"
    and t0: "st_get (mt_balances t0) = [''holder'' \<mapsto> 1000]" "st_get (mt_allowances t0) = Map.empty"
      "mt_decimals t0 = Some 7" "mt_symbol t0 = Some ''XLM''" "mt_admin t0 = Some ''admin''"
    by (simp add: deploy_token_ok) (simp add: fresh_token_def st_get_def fun_eq_iff)
  show ?thesis
    by (simp add: token_flow_def abind_def deploy approve_def transfer_from_def spend_allowance_def
        move_balance_def read_allowance_def write_allowance_def read_write_balance state_read_def state_write_def
        require_auth_def alift_def spendable_def allowance_def decimals_def token_symbol_def or_trap_def aret_def
        panic_def checked_sub_def checked_add_def to_i128_def i128_range_def token_admin_def
        read_admin_def token_balance_def balance_of_def t0)
qed

end
