(* ===== verification/Spec2Isabelle.thy ===== *)
theory Spec2Isabelle
  imports Process Liveness Queries ClosedOrders Consent IntentTests ContractTests
begin

text \<open>
  SlipGuard settles conditional orders on Stellar.  A trader signs an intent off chain (what to
  sell, the least to receive, a tolerance, a deadline, a nonce); a solver finds it in a feed,
  judges it, and fills it through the router contract, which moves the tokens of both.  This
  development models the whole path: the TypeScript SDK (src/packages/sdk), the solver bot
  (src/packages/solver-bot) and the two Soroban contracts (src/contracts).

  \<^bold>\<open>How the parts interact.\<close>  The SDK builds, validates, encodes, hashes and serializes intents
  and wraps the calls of the router.  The bot's watcher polls the feed and yields valid
  intents it has not seen; the evaluator values each and mirrors the router's checks; the
  executor signs and submits the profitable ones through the SDK's client.  The router checks
  authorisation, terms, status and nonce, then moves the tokens.

  \<^bold>\<open>The theories, and the code they model.\<close>
  \<^item> \<open>Prelude\<close>, \<open>Effects\<close>: errors as values (\<open>js_error + 'a\<close>), tables of checks, actions on a
    world, processes that may never return; the interfaces \<open>codec\<close>, \<open>property_map\<close>,
    \<open>effect_order\<close>.
  \<^item> \<open>JsNumber\<close>, \<open>JsText\<close>, \<open>JsNumText\<close>, \<open>JsJson\<close>, \<open>JsJsonText\<close>, \<open>JsConvert\<close>: what the packages use
    of the language: IEEE doubles with rounding, BigInt division, number and BigInt literals,
    JSON text both ways, the conversions \<open>String\<close>, \<open>Number\<close>, \<open>BigInt\<close>.
  \<^item> \<open>IntentTypes\<close> (sdk/types.ts), \<open>Intent\<close> and \<open>IntentCodec\<close> (sdk/intent.ts), \<open>Client\<close>
    (sdk/client.ts).
  \<^item> \<open>FillRule\<close>: the fee and slippage rule both sides share; \<open>Evaluator\<close> (evaluator.ts).
  \<^item> \<open>Logger\<close> (logger.ts), \<open>Config\<close> (config.ts), \<open>Watcher\<close> (watcher.ts), \<open>Executor\<close>
    (executor.ts), \<open>Solver\<close> (index.ts).
  \<^item> \<open>Publication\<close>, \<open>Submissions\<close>, \<open>Liveness\<close>, \<open>Process\<close>: the bot as a whole, from what a feed
    publishes to what is sent, over runs of the loop and from start to exit.
  \<^item> \<open>RustCore\<close>: i128, u64 and u32 as words with checked arithmetic, failures, calls with
    rollback, persistent storage with lives; \<open>MockToken\<close> (mock_token/src/lib.rs); \<open>Router\<close>
    (router/src: errors.rs, types.rs, storage.rs, lib.rs).
  \<^item> \<open>RouterLedger\<close>, \<open>RouterSettlement\<close>, \<open>Consent\<close>: the abstract order book and the runs of
    the router, what a fill pays, and whose signature it takes.
  \<^item> \<open>Agreement\<close>, \<open>Queries\<close>, \<open>ClosedOrders\<close>: the two languages agree on decisions and hashes, the
    client reads what the router holds, and what the router has closed the bot does not send.
  \<^item> \<open>Sha256\<close>, \<open>StellarXdr\<close>, \<open>RecordedHash\<close>, \<open>ReferenceVector\<close>: the published formats behind
    the Stellar SDK (strkeys, XDR, SHA-256) as an instance that computes, and the hash of an
    intent on it.
  \<^item> \<open>EvaluatorTests\<close>, \<open>IntentTests\<close>, \<open>ContractTests\<close>: the repository's own suites
    (evaluator.test.ts, intent.test.ts, router/src/test.rs) on the model, a lemma per case.

  \<^bold>\<open>State and operations.\<close>  A class or closure is a record of its fields, and each method is a
  function on it: \<open>intent_builder\<close>, \<open>slipguard_client\<close>, \<open>logger\<close>, \<open>watcher\<close>, \<open>executor\<close>,
  \<open>router\<close>, \<open>mock_token\<close>.  Names are those of the code.  \<open>execute_intent\<close> is written as its
  checks (\<open>admit_fill\<close>, with the arithmetic in \<open>split_fill\<close>) followed by its effects
  (\<open>settle_fill\<close>); \<open>main\<close> is written as its closures \<open>handle\<close>, \<open>tick\<close>, \<open>cycle\<close>, \<open>pause\<close>.
  An \<open>IntentStatus\<close> is the same datatype on both sides.

  \<^bold>\<open>What is a parameter.\<close>  The Stellar SDK (address check, ScVal encoders, XDR writer, SHA-256,
  transaction building and signing) is the record \<open>stellar_sdk\<close>, extended by the RPC server
  (\<open>chain_api\<close>), by the bot's environment (\<open>bot_api\<close>: fetch, clock, log sink, keys) and by the
  signals (\<open>solver_api\<close>).  The contracts' host is the record \<open>soroban\<close>: the XDR form of an intent,
  SHA-256 and the token contracts.  What has been signed is a field of \<open>call_env\<close>: pairs of an
  address and an invocation (contract, function, arguments).  Every theorem with a hypothesis
  on one of them has a witness on a concrete instance.  The encoders and the hash function have
  an instance made of the published formats, \<open>stellar_formats sha256_digest\<close>: it meets the
  hypotheses, and on it the model computes the hash that both test suites record.

  \<^bold>\<open>What the lemmas show.\<close>  SDK: validation decides the documented notion of a valid intent; the builder reaches every valid intent; the encoding is
  canonical, the hash binding, JSON text a round trip.  Client: polling ends and reports the
  server's last answer; a prepared fill is the call it should be.  Evaluator: the verdict is
  the documented rule, an accepted fill protects the trader, six-decimal prices are valued
  exactly.  Bot: a published intent is found, polls never repeat a candidate, only profitable
  fills are submitted and every profitable candidate is, no order is ever submitted twice, a
  dry run submits nothing, no exception ends the loop and one signal does, wherever it arrives.  Router: every run refines
  the order book, so no nonce and no hash is ever used twice; the views tell the history; the
  first failing guard is the error; a fill on the mock tokens is an atomic swap, one that is
  funded goes through, and no balance falls without its holder's signature on the very call.
  Across: the evaluator and the router agree, the hashes agree (on the published formats without
  further hypothesis, \<open>published_formats_hash\<close>), the client's queries report
  the router's state, an order the router has closed is not submitted (it is the simulation that
  stops it, the bot asks for no status), and what the bot submits is not refused and settles, when both parties
  have authorised the fill: a signature of the trader is for one solver and one amount
  (\<open>signature_fits_one_fill\<close>), and the client's transaction carries the solver's own only when
  the entries come from the simulation (\<open>presigned_fill_is_refused\<close>).

  \<^bold>\<open>Bounds and fuel.\<close>  The JSON parser takes twice the length of the text as fuel;
  \<open>pvalue_fuel\<close> shows that more never changes the result.  The polling loop and the main loop are
  \<open>partial_function (option)\<close>: not returning is \<open>None\<close>, and that they return is a theorem
  (\<open>poll_returns\<close>, \<open>signal_ends_process\<close>), under a clock that advances and can tell the deadline;
  the server need never answer.  Before the polling a candidate takes five calls of at most \<open>D\<close>
  milliseconds (two log lines, the account, the simulation, the sending), hence the bound
  \<open>T + 5 * D + m\<close> on the deadline of a fill begun before the signal at \<open>T\<close>.  On chain every integer
  is a word; \<open>split_overflow_bound\<close> says when the arithmetic overflows.

  \<^bold>\<open>Not modelled.\<close>  Strings are UTF-8 bytes, so lone surrogates do not occur; log time stamps are
  a parameter and the text of a crash on stderr is left out; signals are delivered where the
  code awaits.  The authorisation trees of Soroban are flattened: the invocations in them are
  a set, and that an entry is used up by one transaction is left to the host; archived entries
  must be restored before a call touches them, so lives are recorded but never end an entry;
  the host refuses re-entry, so a token cannot call the router back during a fill.  Of
  the test suites, the cases that only compare the hashes of changed intents are left to
  \<open>hashIntent_binding\<close>.  Re-exports (sdk/index.ts), test configuration, scripts and the
  documentation site carry no logic.
\<close>

section \<open>Properties that span the components\<close>

text \<open>What the bot submits, the router does not refuse: the decision and the hash follow the
  intent from the feed through the evaluator to the contract.\<close>

lemma submitted_fill_passes_checks:
  assumes "intent_valid A (ca_intent c)" and "quiet_api (=) sent B"
    and "handle B cfg lg ex c w = Some (x, w')" and "sent w' \<noteq> sent w"
    and "representable (ca_intent c)" and "0 \<le> now" and "now < 2 ^ 64" and "env_timestamp env = word_of_int now"
    and "\<not> js_less (deadline (ca_intent c)) (Fin (of_int now))"
    and "solver \<noteq> trader (ca_intent c)"
    and "both_authorised env solver (on_chain (ca_intent c)) (word_of_int (minBuyAmount (ca_intent c)))"
    and "status_of r (get_intent_hash H (on_chain (ca_intent c))) = Active"
    and "\<not> nonce_used r (trader (ca_intent c)) (oc_nonce (on_chain (ca_intent c)))"
    and "i128_range (minBuyAmount (ca_intent c) * num_int (solverFeeBps (ca_intent c)))"
  shows "execute_intent H env solver (on_chain (ca_intent c)) (word_of_int (minBuyAmount (ca_intent c))) r
    \<noteq> (Inl (Fail e), r')"
proof -
  let ?i = "ca_intent c"
  have terms: "fill_within_terms (minBuyAmount ?i) (num_int (maxSlippageBps ?i)) (num_int (solverFeeBps ?i))
      (minBuyAmount ?i)"
    using submission_is_profitable [OF assms(1-4)] by blast
  have range: "i128_range (minBuyAmount ?i)"
    using assms(5) by (simp add: representable_def)
  show ?thesis
    using on_chain_checks [OF assms(1,5) range assms(6-8,10,12-14)] terms assms(9)
    by (simp add: execute_intent_errors [OF assms(11)])
qed

text \<open>And it settles: with the tokens in place, the router fills the order, and the hash under
  which it records the fill is the one the bot knows the candidate by.\<close>

lemma submitted_fill_goes_through:
  assumes "intent_valid A (ca_intent c)" and "quiet_api (=) sent B"
    and "handle B cfg lg ex c w = Some (x, w')" and "sent w' \<noteq> sent w"
    and "representable (ca_intent c)" and "0 \<le> now" and "now < 2 ^ 64" and "env_timestamp env = word_of_int now"
    and "\<not> js_less (deadline (ca_intent c)) (Fin (of_int now))"
    and "solver \<noteq> trader (ca_intent c)"
    and "both_authorised env solver (on_chain (ca_intent c)) (word_of_int (minBuyAmount (ca_intent c)))"
    and "status_of r (get_intent_hash H (on_chain (ca_intent c))) = Active"
    and "\<not> nonce_used r (trader (ca_intent c)) (oc_nonce (on_chain (ca_intent c)))"
    and "i128_range (minBuyAmount (ca_intent c) * num_int (solverFeeBps (ca_intent c)))"
    and "canonical_host H B" and "hashIntent B (ca_intent c) = Inr (ca_hash c)"
    and "token_transfer H = mock_transfer"
    and "payments_authorised env solver (on_chain (ca_intent c)) (word_of_int (minBuyAmount (ca_intent c)))"
    and "env_contract env \<notin> {solver, trader (ca_intent c)}"
    and "sellAmount (ca_intent c) \<le> holdings (rt_tokens r) (sellToken (ca_intent c)) (trader (ca_intent c))"
    and "minBuyAmount (ca_intent c) \<le> holdings (rt_tokens r) (buyToken (ca_intent c)) solver"
    and "\<forall>a \<in> {env_contract env, trader (ca_intent c)}. 0 \<le> holdings (rt_tokens r) (buyToken (ca_intent c)) a \<and>
      i128_range (holdings (rt_tokens r) (buyToken (ca_intent c)) a + minBuyAmount (ca_intent c))"
    and "i128_range (holdings (rt_tokens r) (sellToken (ca_intent c)) solver + sellAmount (ca_intent c))"
  shows "\<exists>rc r'. execute_intent H env solver (on_chain (ca_intent c))
      (word_of_int (minBuyAmount (ca_intent c))) r = (Inr rc, r') \<and>
    ca_hash c = to_hex (rc_intent_hash rc) \<and> status_of r' (rc_intent_hash rc) = Filled \<and>
    receipt_of r' (rc_intent_hash rc) = Some rc"
proof -
  let ?i = "ca_intent c" and ?n = "minBuyAmount (ca_intent c)"
  let ?o = "on_chain ?i"
  have terms: "fill_within_terms ?n (num_int (maxSlippageBps ?i)) (num_int (solverFeeBps ?i)) ?n"
    using submission_is_profitable [OF assms(1-4)] by blast
  have range: "i128_range ?n"
    using assms(5) by (simp add: representable_def)
  have checks: "first_failure (fill_checks H env solver ?o (word_of_int ?n) r) = Inr ()"
    using on_chain_checks [OF assms(1,5) range assms(6-8,10,12-14)] terms assms(9) by blast
  have tokens: "oc_sell_token ?o \<noteq> oc_buy_token ?o"
    using assms(1) by (simp add: on_chain_def intent_valid_def)
  have n: "sint (word_of_int ?n :: i128) = ?n"
    using range by (rule sint_of_range)
  note v = on_chain_values [OF assms(1,5)] on_chain_address
  obtain rc r' where run: "execute_intent H env solver ?o (word_of_int ?n) r = (Inr rc, r')"
    using execute_succeeds [OF assms(17,11,18) checks _ _ tokens] assms(19-23) unfolding v n by auto
  then obtain f p where "settle_fill H env solver ?o (word_of_int ?n) (get_intent_hash H ?o) f p r = (Inr rc, r')"
    unfolding execute_intent_ok by blast
  then have rc: "rc_intent_hash rc = get_intent_hash H ?o" "status_of r' (get_intent_hash H ?o) = Filled"
    "receipt_of r' (get_intent_hash H ?o) = Some rc"
    by (auto simp: settle_fill_ok filled_views)
  obtain d where d: "intentDigest B ?i = Inr d" "ca_hash c = to_hex d"
    using assms(16) by (auto simp: hashIntent_def result_simps)
  have "ca_hash c = to_hex (rc_intent_hash rc)"
    using hashes_agree [OF assms(1,5,15) d(1)] by (simp add: rc d(2))
  with run rc show ?thesis
    by auto
qed

text \<open>(C2) What the bot submits settles: when handling a candidate submits anything, the intent is
  still open and fits the contract, both parties have authorised the fill and the transfers
  out of their balances, both hold what they owe and nothing overflows, then the router
  fills exactly that order, and the hash it records it under is the candidate's.\<close>

theorem submitted_fill_settles:
  assumes "intent_valid A (ca_intent c)" and "quiet_api (=) sent B"
    and "handle B cfg lg ex c w = Some (x, w')" and "sent w' \<noteq> sent w"
    and "representable (ca_intent c)" and "0 \<le> now" and "now < 2 ^ 64" and "env_timestamp env = word_of_int now"
    and "\<not> js_less (deadline (ca_intent c)) (Fin (of_int now))"
    and "solver \<noteq> trader (ca_intent c)"
    and "both_authorised env solver (on_chain (ca_intent c)) (word_of_int (minBuyAmount (ca_intent c)))"
    and "status_of r (get_intent_hash H (on_chain (ca_intent c))) = Active"
    and "\<not> nonce_used r (trader (ca_intent c)) (oc_nonce (on_chain (ca_intent c)))"
    and "i128_range (minBuyAmount (ca_intent c) * num_int (solverFeeBps (ca_intent c)))"
    and "canonical_host H B" and "hashIntent B (ca_intent c) = Inr (ca_hash c)"
    and "token_transfer H = mock_transfer"
    and "payments_authorised env solver (on_chain (ca_intent c)) (word_of_int (minBuyAmount (ca_intent c)))"
    and "env_contract env \<notin> {solver, trader (ca_intent c)}"
    and "sellAmount (ca_intent c) \<le> holdings (rt_tokens r) (sellToken (ca_intent c)) (trader (ca_intent c))"
    and "minBuyAmount (ca_intent c) \<le> holdings (rt_tokens r) (buyToken (ca_intent c)) solver"
    and "\<forall>a \<in> {env_contract env, trader (ca_intent c)}. 0 \<le> holdings (rt_tokens r) (buyToken (ca_intent c)) a \<and>
      i128_range (holdings (rt_tokens r) (buyToken (ca_intent c)) a + minBuyAmount (ca_intent c))"
    and "i128_range (holdings (rt_tokens r) (sellToken (ca_intent c)) solver + sellAmount (ca_intent c))"
  shows "\<exists>rc r'. execute_intent H env solver (on_chain (ca_intent c))
      (word_of_int (minBuyAmount (ca_intent c))) r = (Inr rc, r') \<and>
    ca_hash c = to_hex (rc_intent_hash rc) \<and> status_of r' (rc_intent_hash rc) = Filled \<and>
    receipt_of r' (rc_intent_hash rc) = Some rc"
  using assms by (rule submitted_fill_goes_through)

text \<open>The reference bot against the mock tokens.\<close>

definition mock_host :: "mock_world soroban" where
  "mock_host = \<lparr>intent_xdr = intent_xdr sdk_host, host_sha256 = host_sha256 sdk_host,
     token_transfer = mock_transfer\<rparr>"

lemma mock_host_canonical: "canonical_host mock_host reference_solver"
proof -
  have "struct_fields reference_solver ob = struct_fields reference_sdk ob" for ob
    by (simp add: struct_fields_def reference_solver_defs reference_sdk_def)
  then show ?thesis
    by (auto simp: canonical_host_def mock_host_def sdk_host_def, auto simp: reference_solver_defs reference_sdk_def
        split: prod.split)
qed

theorem submitted_fill_settles_witness:
  "\<exists>rc r'. execute_intent mock_host (fill_env (on_chain sample_intent) 990) ''S'' (on_chain sample_intent) 990
      (deployed 0 sample_world) = (Inr rc, r') \<and>
    hashIntent reference_solver sample_intent = Inr (to_hex (rc_intent_hash rc))"
proof -
  obtain h where h: "hashIntent reference_solver sample_intent = Inr h"
    using sample_hash by (auto simp: reference_solver_hash)
  define c where "c = sample_candidate\<lparr>ca_hash := h\<rparr>"
  have c: "ca_intent c = sample_intent" "ca_hash c = h"
    by (simp_all add: c_def sample_candidate_def)
  note run = sample_submission [OF c(1)]
  have valid: "intent_valid (\<lambda>a. a \<noteq> []) (ca_intent c)"
    unfolding c(1) by (rule sample_intent_valid)
  have pays: "payments_authorised (fill_env (on_chain sample_intent) 990) ''S'' (on_chain sample_intent) 990"
    by (simp add: payments_authorised_def authorised_def token_env_def fill_env_def sample_env_def
        sample_fill_auths_def on_chain_address, simp add: sample_intent_def)
  have sent: "fst (1000001 :: nat, 0 :: nat) \<noteq> fst (1000000 :: nat, 0 :: nat)"
    by simp
  have amounts: "sellAmount sample_intent = 1000" "sellToken sample_intent = ''A''" "buyToken sample_intent = ''B''"
    "num_int (solverFeeBps sample_intent) = 10" "deadline sample_intent = Fin 1300"
    by (simp_all add: sample_intent_def num_int_def)
  have "\<exists>rc r'. execute_intent mock_host (fill_env (on_chain sample_intent) 990) ''S'' (on_chain (ca_intent c))
      (word_of_int (minBuyAmount (ca_intent c))) (deployed 0 sample_world) = (Inr rc, r') \<and>
    ca_hash c = to_hex (rc_intent_hash rc) \<and> status_of r' (rc_intent_hash rc) = Filled \<and>
    receipt_of r' (rc_intent_hash rc) = Some rc"
    by (rule submitted_fill_settles [OF valid reference_solver_quiet(1) run sent, where now = 1000])
       (use h pays in \<open>simp_all add: c sample_representable sample_on_chain fill_env_values on_chain_address
          sample_values amounts mock_host_canonical\<close>,
        simp_all add: mock_host_def deployed_def sample_holdings i128_range_def)
  with h show ?thesis
    by (auto simp: c sample_values)
qed

text \<open>(C1) A submitted fill is never refused with an error code: when handling a candidate submits
  anything, and the intent is still open on chain, unexpired at the ledger's time, fits the
  contract's integers and both parties have authorised, then \<open>execute_intent\<close> on exactly that
  intent and amount does not end in any \<open>SlipGuardError\<close>.\<close>

theorem submitted_fill_not_refused:
  assumes "intent_valid A (ca_intent c)" and "quiet_api (=) sent B"
    and "handle B cfg lg ex c w = Some (x, w')" and "sent w' \<noteq> sent w"
    and "representable (ca_intent c)" and "0 \<le> now" and "now < 2 ^ 64" and "env_timestamp env = word_of_int now"
    and "\<not> js_less (deadline (ca_intent c)) (Fin (of_int now))"
    and "solver \<noteq> trader (ca_intent c)"
    and "both_authorised env solver (on_chain (ca_intent c)) (word_of_int (minBuyAmount (ca_intent c)))"
    and "status_of r (get_intent_hash H (on_chain (ca_intent c))) = Active"
    and "\<not> nonce_used r (trader (ca_intent c)) (oc_nonce (on_chain (ca_intent c)))"
    and "i128_range (minBuyAmount (ca_intent c) * num_int (solverFeeBps (ca_intent c)))"
  shows "execute_intent H env solver (on_chain (ca_intent c)) (word_of_int (minBuyAmount (ca_intent c))) r
    \<noteq> (Inl (Fail e), r')"
  using assms by (rule submitted_fill_passes_checks)

theorem submitted_fill_not_refused_witness:
  "\<forall>e r'. execute_intent reference_host (fill_env (on_chain sample_intent) 990) ''S''
     (on_chain sample_intent) 990 (deployed 0 ()) \<noteq> (Inl (Fail e), r')"
proof (intro allI)
  fix e r'
  have c: "ca_intent sample_candidate = sample_intent"
    by (simp add: sample_candidate_def)
  have valid: "intent_valid (\<lambda>a. a \<noteq> []) (ca_intent sample_candidate)"
    unfolding c by (rule sample_intent_valid)
  show "execute_intent reference_host (fill_env (on_chain sample_intent) 990) ''S''
     (on_chain sample_intent) 990 (deployed 0 ()) \<noteq> (Inl (Fail e), r')"
    using submitted_fill_not_refused [OF valid reference_solver_quiet(1) sample_handle,
        where now = 1000 and env = "fill_env (on_chain sample_intent) 990" and solver = "''S''" and r = "deployed 0 ()"
        and H = reference_host and e = e and r' = r']
    by (simp add: c sample_representable sample_on_chain fill_env_values on_chain_address sample_values)
       (simp add: sample_intent_def i128_range_def num_int_def)
qed

text \<open>(C16) A pre-signed entry displaces the solver's own: the entries given to
  \<open>prepareExecuteIntent\<close> take the place of all that the simulation recorded, so when they are
  the trader's, the transaction carries no authorisation of the solver, and a ledger that
  goes by the entries of the transaction (\<open>signs u\<close> is what the entry \<open>u\<close> authorises) refuses
  the fill before anything is written.\<close>

theorem presigned_fill_is_refused:
  assumes "prepareExecuteIntent C cl p w = (Inr tx, w')" and "ep_authEntries p = Some (e # es)"
    and "\<forall>u \<in> set (e # es). \<forall>(x, inv) \<in> signs u. x = trader (ep_intent p)"
    and "kp_publicKey (ep_solver p) \<noteq> trader (ep_intent p)"
  shows "(\<exists>raw res rest prepared w1. simulate_tx C raw w1 = (Inr (SimulationSuccess res rest), w') \<and>
      assemble_tx C raw (SimulationSuccess (map_option (\<lambda>r. r\<lparr>sim_auth := e # es\<rparr>) res) rest) = Inr prepared \<and>
      tx = sign_tx C (ep_solver p) prepared) \<and>
    (\<forall>env r. env_invoker env = None \<longrightarrow> env_auths env = \<Union> (signs ` set (e # es)) \<longrightarrow>
      execute_intent H env (kp_publicKey (ep_solver p)) (on_chain (ep_intent p))
        (word_of_int (ep_actualBuyAmount p)) r = (Inl (Trap ''authorization missing''), r))"
proof -
  let ?s = "kp_publicKey (ep_solver p)"
  have "\<exists>raw res rest prepared w1. simulate_tx C raw w1 = (Inr (SimulationSuccess res rest), w') \<and>
      assemble_tx C raw (SimulationSuccess (map_option (\<lambda>r. r\<lparr>sim_auth := e # es\<rparr>) res) rest) = Inr prepared \<and>
      tx = sign_tx C (ep_solver p) prepared"
    using prepareExecuteIntent_result [OF assms(1)] unfolding assms(2) option.case list.case by blast
  moreover have "execute_intent H env ?s (on_chain (ep_intent p)) (word_of_int (ep_actualBuyAmount p)) r
      = (Inl (Trap ''authorization missing''), r)"
    if "env_invoker env = None" "env_auths env = \<Union> (signs ` set (e # es))" for env r
    by (rule unsigned_fill) (use assms(3,4) that in \<open>auto simp: authorised_def\<close>)
  ultimately show ?thesis
    by blast
qed

text \<open>The sample fill with an entry of the trader, which signs everything the trader should.\<close>

definition trader_signs :: "string \<Rightarrow> (string \<times> invocation) set" where
  "trader_signs _ = {x \<in> sample_fill_auths (on_chain sample_intent) 990. fst x = ''T''}"

theorem presigned_fill_is_refused_witness:
  "execute_intent reference_host ((fill_env (on_chain sample_intent) 990)\<lparr>env_auths := trader_signs ''A''\<rparr>) ''S''
     (on_chain sample_intent) 990 (deployed 0 ()) = (Inl (Trap ''authorization missing''), deployed 0 ())"
proof -
  obtain tx where tx: "prepareExecuteIntent clock_api sample_client sample_params (0, 0) = (Inr tx, (0, 0))"
    using sample_prepared by blast
  have p: "ep_authEntries sample_params = Some [''A'']" "ep_intent sample_params = sample_intent"
    "kp_publicKey (ep_solver sample_params) = ''S''" "ep_actualBuyAmount sample_params = 990"
    by (simp_all add: sample_params_def)
  have signer: "\<forall>u \<in> set [''A'']. \<forall>(x, inv) \<in> trader_signs u. x = trader (ep_intent sample_params)"
    by (auto simp: trader_signs_def p sample_values)
  have other: "kp_publicKey (ep_solver sample_params) \<noteq> trader (ep_intent sample_params)"
    by (simp add: p sample_values)
  from presigned_fill_is_refused [OF tx p(1) signer other, of reference_host] show ?thesis
    by (simp add: p fill_env_def sample_env_def)
qed

end
